(* ===== verification/Prelude.thy ===== *)
theory Prelude
  imports Main "HOL-Library.Word" "HOL-Library.AList" "HOL-Library.Multiset"
begin

text \<open>
  What every component of the development shares: the machine types of the Rust
  sources, the checked, saturating and wrapping arithmetic of the standard library that
  the code calls, three-way comparison (\<open>std::cmp::Ordering\<close>), and association
  lists as the model of \<open>HashMap\<close>.

  A \<open>HashMap\<close> is an association list with pairwise different keys. Its order stands
  for the iteration order, which Rust leaves unspecified; the lemmas hold for lists in
  any order, so they do not depend on the one a particular run shows.
\<close>

named_theorems queue_facts \<open>laws of the ready queue used by its clients\<close>
named_theorems frame_facts \<open>what an operation of the scheduler leaves alone\<close>
named_theorems event_facts \<open>what an operation publishes on the event channel\<close>

section \<open>Machine types\<close>

type_synonym u8 = "8 word"
type_synonym u32 = "32 word"
type_synonym u64 = "64 word"
type_synonym uuid = "128 word"

text \<open>Wall-clock instants and monotonic instants are nanosecond counts; durations are
  non-negative nanosecond counts. Sizes (\<open>usize\<close>) are natural numbers; the bound of a
  64-bit platform is written where the code saturates at it.\<close>

type_synonym time = int
type_synonym instant = int
type_synonym dur = nat

abbreviation nanos_per_sec :: int where
  "nanos_per_sec \<equiv> 1000000000"

definition i64_max :: int where
  "i64_max = 2 ^ 63 - 1"

definition usize_max :: nat where
  "usize_max = 2 ^ 64 - 1"

definition usize_saturating_mul :: "nat \<Rightarrow> nat \<Rightarrow> nat" where
  "usize_saturating_mul a b = min (a * b) usize_max"

definition usize_saturating_add :: "nat \<Rightarrow> nat \<Rightarrow> nat" where
  "usize_saturating_add a b = min (a + b) usize_max"

definition checked_add_u64 :: "u64 \<Rightarrow> u64 \<Rightarrow> u64 option" where
  "checked_add_u64 a b = (if unat a + unat b < 2 ^ 64 then Some (a + b) else None)"

definition saturating_add_u64 :: "u64 \<Rightarrow> u64 \<Rightarrow> u64" where
  "saturating_add_u64 a b = (if unat a + unat b < 2 ^ 64 then a + b else - 1)"

definition saturating_add_u32 :: "u32 \<Rightarrow> u32 \<Rightarrow> u32" where
  "saturating_add_u32 a b = (if unat a + unat b < 2 ^ 32 then a + b else - 1)"

definition saturating_sub_u32 :: "u32 \<Rightarrow> u32 \<Rightarrow> u32" where
  "saturating_sub_u32 a b = (if b \<le> a then a - b else 0)"

text \<open>\<open>Duration\<close> holds at most \<open>u64::MAX\<close> seconds and 999999999 nanoseconds.\<close>

definition dur_max :: dur where
  "dur_max = (2 ^ 64 - 1) * 1000000000 + 999999999"

definition dur_saturating_mul :: "dur \<Rightarrow> nat \<Rightarrow> dur" where
  "dur_saturating_mul d k = min (d * k) dur_max"

definition i128_ok :: "int \<Rightarrow> bool" where
  "i128_ok x \<longleftrightarrow> - (2 ^ 127) \<le> x \<and> x < 2 ^ 127"

definition i64_ok :: "int \<Rightarrow> bool" where
  "i64_ok x \<longleftrightarrow> - (2 ^ 63) \<le> x \<and> x < 2 ^ 63"

lemma unat_eq_max_u64: "unat v = 2 ^ 64 - 1 \<longleftrightarrow> v = (- 1 :: u64)"
proof -
  have "unat (- 1 :: u64) = 2 ^ 64 - 1"
    by (simp add: unsigned_minus_1_eq_mask mask_eq_exp_minus_1)
  then show ?thesis by (metis word_unat_eq_iff)
qed

lemma checked_add_u64_1:
  "checked_add_u64 v 1 = (if v = - 1 then None else Some (v + 1))"
proof -
  have "unat v < 2 ^ 64"
    using unsigned_less [of v] by simp
  then show ?thesis
    using unat_eq_max_u64 [of v] by (auto simp: checked_add_u64_def)
qed

lemma unat_checked_add_u64:
  assumes "checked_add_u64 a b = Some c"
  shows "unat c = unat a + unat b"
  using assms by (auto simp: checked_add_u64_def unat_word_ariths split: if_splits)

lemma checked_add_u64_neq:
  "checked_add_u64 v 1 = Some w \<Longrightarrow> w \<noteq> v"
  by (auto simp: checked_add_u64_1 split: if_splits)

lemma saturating_sub_u32_le: "saturating_sub_u32 a b \<le> a"
  by (auto simp: saturating_sub_u32_def intro: word_sub_le)

section \<open>Three-way comparison\<close>

text \<open>\<open>std::cmp::Ordering\<close>, \<open>Ord::cmp\<close> on the primitive types and
  \<open>Ordering::then_with\<close>.\<close>

datatype ordering = Less | Equal | Greater

definition cmp :: "'a::linorder \<Rightarrow> 'a \<Rightarrow> ordering" where
  "cmp a b = (if a < b then Less else if a = b then Equal else Greater)"

definition then_with :: "ordering \<Rightarrow> ordering \<Rightarrow> ordering" where
  "then_with o1 o2 = (case o1 of Equal \<Rightarrow> o2 | _ \<Rightarrow> o1)"

lemma cmp_simps [simp]:
  "cmp a b = Less \<longleftrightarrow> a < b"
  "cmp a b = Equal \<longleftrightarrow> a = b"
  "cmp a b = Greater \<longleftrightarrow> b < a"
  by (auto simp: cmp_def)

lemma then_with_simps [simp]:
  "then_with o1 o2 = Less \<longleftrightarrow> o1 = Less \<or> (o1 = Equal \<and> o2 = Less)"
  "then_with o1 o2 = Equal \<longleftrightarrow> o1 = Equal \<and> o2 = Equal"
  "then_with o1 o2 = Greater \<longleftrightarrow> o1 = Greater \<or> (o1 = Equal \<and> o2 = Greater)"
  by (auto simp: then_with_def split: ordering.splits)

text \<open>A lawful comparator is antisymmetric, a congruence for \<open>Equal\<close> and
  transitive; \<open>cmp\<close> on a projection is one in either direction, and
  \<open>then_with\<close> composes two into one.\<close>

fun reverse_ordering :: "ordering \<Rightarrow> ordering" where
  "reverse_ordering Less = Greater"
| "reverse_ordering Equal = Equal"
| "reverse_ordering Greater = Less"

definition lawful :: "('a \<Rightarrow> 'a \<Rightarrow> ordering) \<Rightarrow> bool" where
  "lawful c \<longleftrightarrow>
     (\<forall>x y. c y x = reverse_ordering (c x y)) \<and>
     (\<forall>x y z. c x y = Equal \<longrightarrow> c x z = c y z) \<and>
     (\<forall>x y z. c x y = Less \<longrightarrow> c y z = Less \<longrightarrow> c x z = Less)"

lemma lawful_cmp: "lawful (\<lambda>x y. cmp (f x) (f y))"
  by (auto simp: lawful_def cmp_def)

lemma lawful_cmp_rev: "lawful (\<lambda>x y. cmp (f y) (f x))"
  by (auto simp: lawful_def cmp_def)

lemma lawful_flip: "lawful c \<Longrightarrow> c y x = reverse_ordering (c x y)"
  unfolding lawful_def by blast

lemma lawful_equal: "lawful c \<Longrightarrow> c x y = Equal \<Longrightarrow> c x z = c y z"
  unfolding lawful_def by blast

lemma lawful_less_trans: "lawful c \<Longrightarrow> c x y = Less \<Longrightarrow> c y z = Less \<Longrightarrow> c x z = Less"
  unfolding lawful_def by blast

lemma lawful_equal_right:
  assumes "lawful c" and "c y z = Equal"
  shows "c x z = c x y"
proof -
  have "c z y = Equal" using assms lawful_flip [OF assms(1), of z y] by simp
  then have "c z x = c y x" by (rule lawful_equal [OF assms(1)])
  then show ?thesis
    using lawful_flip [OF assms(1), of x z] lawful_flip [OF assms(1), of x y] by simp
qed

lemma lawful_then_with:
  assumes c: "lawful c" and d: "lawful d"
  shows "lawful (\<lambda>x y. then_with (c x y) (d x y))"
  unfolding lawful_def
proof (intro conjI allI impI)
  fix x y z
  show "then_with (c y x) (d y x) = reverse_ordering (then_with (c x y) (d x y))"
    unfolding lawful_flip [OF c, of y x] lawful_flip [OF d, of y x]
    by (cases "c x y") (simp_all add: then_with_def)
  show "then_with (c x z) (d x z) = then_with (c y z) (d y z)"
    if "then_with (c x y) (d x y) = Equal"
    using that lawful_equal [OF c, of x y z] lawful_equal [OF d, of x y z] by simp
  show "then_with (c x z) (d x z) = Less"
    if "then_with (c x y) (d x y) = Less" and "then_with (c y z) (d y z) = Less"
    using that lawful_equal [OF c, of x y z] lawful_equal_right [OF c, of y z x]
      lawful_less_trans [OF c, of x y z] lawful_less_trans [OF d, of x y z]
    by auto
qed

lemma lawful_not_greater_trans:
  assumes "lawful c" and "c x y \<noteq> Greater" and "c y z \<noteq> Greater"
  shows "c x z \<noteq> Greater"
  using assms lawful_equal [OF assms(1), of x y z] lawful_equal_right [OF assms(1), of y z x]
    lawful_less_trans [OF assms(1), of x y z]
  by (cases "c x y"; cases "c y z") auto

section \<open>Association lists\<close>

text \<open>The keys of a map, and the map as a well-formed association list.\<close>

abbreviation keys_of :: "('k \<times> 'v) list \<Rightarrow> 'k list" where
  "keys_of m \<equiv> map fst m"

abbreviation wf_map :: "('k \<times> 'v) list \<Rightarrow> bool" where
  "wf_map m \<equiv> distinct (map fst m)"

text \<open>\<open>get_mut\<close> followed by a write: change the value stored under a key, if any.\<close>

definition modify :: "'k \<Rightarrow> ('v \<Rightarrow> 'v) \<Rightarrow> ('k \<times> 'v) list \<Rightarrow> ('k \<times> 'v) list" where
  "modify k f m = map (\<lambda>(k', v). (k', if k' = k then f v else v)) m"

lemma modify_simps [simp]:
  "modify k f [] = []"
  "modify k f ((k', v) # m) = (k', if k' = k then f v else v) # modify k f m"
  by (simp_all add: modify_def)

lemma modify_id: "modify j (\<lambda>x. x) m = m"
  by (induction m) auto

lemma keys_modify [simp]: "keys_of (modify k f m) = keys_of m"
  by (induction m) auto

lemma fst_modify [simp]: "fst ` set (modify k f m) = fst ` set m"
  by (metis keys_modify set_map)

lemma length_modify [simp]: "length (modify k f m) = length m"
  by (simp add: modify_def)

lemma map_of_modify [simp]:
  "map_of (modify k f m) k' = (if k' = k then map_option f (map_of m k) else map_of m k')"
  by (induction m) auto

lemma map_of_update [simp]:
  "map_of (AList.update k v m) k' = (if k' = k then Some v else map_of m k')"
  by (simp add: update_conv')

lemma map_of_delete_if [simp]:
  "map_of (AList.delete k m) k' = (if k' = k then None else map_of m k')"
  by (simp add: delete_conv')

lemma length_delete_less:
  "k \<in> fst ` set m \<Longrightarrow> length (AList.delete k m) < length m"
proof (induction m)
  case (Cons x m)
  have "length (AList.delete k m) \<le> length m" by (rule length_delete_le)
  with Cons show ?case by (cases x) (auto simp: less_Suc_eq_le Suc_le_eq image_iff)
qed simp

lemma length_delete_wf:
  "wf_map m \<Longrightarrow> k \<in> fst ` set m \<Longrightarrow> length (AList.delete k m) = length m - 1"
proof (induction m)
  case (Cons x m)
  obtain k' v where x: "x = (k', v)" by (cases x)
  show ?case
  proof (cases "k' = k")
    case True
    with Cons.prems x have "AList.delete k m = m" by (intro delete_id) auto
    with True x show ?thesis by simp
  next
    case False
    with Cons x have "k \<in> fst ` set m" "wf_map m" by auto
    with Cons.IH False x show ?thesis by (cases m) auto
  qed
qed simp

lemma length_update_new:
  "k \<notin> fst ` set m \<Longrightarrow> length (AList.update k v m) = Suc (length m)"
  by (induction m) auto

lemma length_update_old:
  "k \<in> fst ` set m \<Longrightarrow> length (AList.update k v m) = length m"
  by (induction m) auto

lemma set_update_wf:
  "wf_map m \<Longrightarrow> set (AList.update k v m) = insert (k, v) {x \<in> set m. fst x \<noteq> k}"
  by (induction m) (auto simp: image_iff)

lemma set_delete: "set (AList.delete k m) = {x \<in> set m. fst x \<noteq> k}"
  by (auto simp: AList.delete_eq)

lemma wf_update [simp]: "wf_map m \<Longrightarrow> wf_map (AList.update k v m)"
  by (rule distinct_update)

lemma wf_delete [simp]: "wf_map m \<Longrightarrow> wf_map (AList.delete k m)"
  by (rule distinct_delete)

lemma map_of_filter_key:
  "map_of (filter (\<lambda>(k, v). P k) m) k = (if P k then map_of m k else None)"
  by (induction m) auto

lemma map_of_filter_wf:
  "wf_map m \<Longrightarrow> map_of (filter (\<lambda>(k, v). P k v) m) k =
     (case map_of m k of None \<Rightarrow> None | Some v \<Rightarrow> if P k v then Some v else None)"
  by (induction m) (auto split: option.splits simp: map_of_eq_None_iff)

lemma wf_filter [simp]: "wf_map m \<Longrightarrow> wf_map (filter P m)"
  by (induction m) auto

end
