(* ===== verification/Sched_Model.thy ===== *)
theory Sched_Model
  imports Prelude
begin

text \<open>
  The data of the Agent's Job scheduler: triggers, policies, patches and snapshots
  (\<open>scheduler/model.rs\<close>), the runtime configuration and the errors
  (\<open>scheduler/config.rs\<close>), the lifecycle events (\<open>scheduler/event.rs\<close>), the
  results a Task hands back (\<open>scheduler/task.rs\<close>), and the parameters that stand for
  the crates the scheduler calls.

  Error texts that the code builds with \<open>format!\<close> are kept as values: one
  constructor per message with the arguments the message shows.
\<close>

type_synonym job_id = uuid
type_synonym run_id = uuid

section \<open>Triggers\<close>

datatype schedule =
    Once (once_at: time)
  | Interval (every: dur) (start_at: "time option")
  | Cron (expression: string) (timezone: string)

datatype misfire_policy = Skip | FireOnce | CatchUp (max_runs: u32)

record trigger =
  tr_schedule :: schedule
  tr_misfire :: misfire_policy
  tr_timeout :: "dur option"

definition is_once :: "schedule \<Rightarrow> bool" where
  "is_once sch = (case sch of Once _ \<Rightarrow> True | _ \<Rightarrow> False)"

text \<open>The convenience constructors of \<open>impl Trigger\<close>.\<close>

definition secs :: "nat \<Rightarrow> dur" where
  "secs n = n * 1000000000"

definition millis :: "nat \<Rightarrow> dur" where
  "millis n = n * 1000000"

definition trigger_once :: "time \<Rightarrow> trigger" where
  "trigger_once at =
     \<lparr>tr_schedule = Once at, tr_misfire = FireOnce, tr_timeout = Some (secs 30)\<rparr>"

definition trigger_interval :: "dur \<Rightarrow> trigger" where
  "trigger_interval ev =
     \<lparr>tr_schedule = Interval ev None, tr_misfire = Skip, tr_timeout = Some (secs 30)\<rparr>"

definition trigger_cron :: "string \<Rightarrow> trigger" where
  "trigger_cron ex =
     \<lparr>tr_schedule = Cron ex ''UTC'', tr_misfire = Skip, tr_timeout = Some (secs 30)\<rparr>"

definition with_timeout :: "trigger \<Rightarrow> dur option \<Rightarrow> trigger" where
  "with_timeout tr t = tr\<lparr>tr_timeout := t\<rparr>"

definition with_timezone :: "trigger \<Rightarrow> string \<Rightarrow> trigger" where
  "with_timezone tr tz =
     (case tr_schedule tr of
        Cron ex _ \<Rightarrow> tr\<lparr>tr_schedule := Cron ex tz\<rparr>
      | _ \<Rightarrow> tr)"

section \<open>Policies\<close>

datatype trigger_coalescing = KeepAll | KeepLatest

datatype capacity_policy = Backpressure | SkipNewest | ReplaceOldestTrigger

record retry_condition =
  transient_error :: bool
  retry_timeout :: bool
  retry_panic :: bool

definition default_retry_condition :: retry_condition where
  "default_retry_condition =
     \<lparr>transient_error = True, retry_timeout = True, retry_panic = False\<rparr>"

datatype execution_retry_policy =
    RetryNone
  | Exponential (max_attempts: u32) (initial_delay: dur) (max_delay: dur)
      (retry_on: retry_condition)

record failure_policy =
  disable_after_consecutive_failures :: "u32 option"
  count_timeout :: bool
  count_panic :: bool

definition default_failure_policy :: failure_policy where
  "default_failure_policy =
     \<lparr>disable_after_consecutive_failures = Some 5, count_timeout = True, count_panic = True\<rparr>"

text \<open>\<open>JobPriority\<close> wraps a byte that \<open>JobPriority::new\<close> keeps in \<open>0..=10\<close>.\<close>

type_synonym job_priority = u8

definition priority_lowest :: job_priority where "priority_lowest = 0"
definition priority_low :: job_priority where "priority_low = 3"
definition priority_normal :: job_priority where "priority_normal = 5"
definition priority_high :: job_priority where "priority_high = 7"
definition priority_critical :: job_priority where "priority_critical = 10"

record job_options =
  opt_concurrency :: "nat option"
  opt_max_pending :: "nat option"
  opt_priority :: job_priority
  opt_coalescing :: "trigger_coalescing option"
  opt_capacity :: "capacity_policy option"
  opt_retry :: execution_retry_policy
  opt_failure :: failure_policy

definition default_job_options :: job_options where
  "default_job_options =
     \<lparr>opt_concurrency = None, opt_max_pending = None, opt_priority = priority_normal,
      opt_coalescing = None, opt_capacity = None, opt_retry = RetryNone,
      opt_failure = default_failure_policy\<rparr>"

section \<open>Tasks\<close>

datatype cancellation_mode = Cooperative | NonCancellable

text \<open>A \<open>TaskBinding\<close> is a type-erased task; the scheduler reads its name and its
  cancellation mode, and the body is code of the task, whose results arrive as
  completions.\<close>

record task_binding =
  tb_kind :: string
  tb_mode :: cancellation_mode

datatype task_error = TaskErrTransient string | TaskErrPermanent string

datatype callback_error = CallbackErrTransient string | CallbackErrPermanent string

datatype task_run_result =
    RunCompleted
  | RunOutputDelivered
  | TaskTransient string
  | TaskPermanent string
  | CallbackTransient string
  | CallbackPermanent string
  | ChannelClosed

section \<open>Configuration, status and errors\<close>

record scheduler_config =
  global_concurrency :: nat
  default_job_concurrency :: nat
  global_max_pending :: nat
  default_job_max_pending :: nat
  due_batch_size :: nat
  max_jobs :: nat
  event_channel_capacity :: nat
  command_channel_capacity :: nat
  shutdown_timeout :: dur
  minimum_interval :: dur
  minimum_retry_delay :: dur
  maximum_catch_up :: u32
  maximum_retry_attempts :: u32

text \<open>\<open>SchedulerConfig::default\<close>; the number of logical CPUs is what
  \<open>available_parallelism\<close> reports (1 when it fails).\<close>

definition default_config :: "nat \<Rightarrow> scheduler_config" where
  "default_config cpu_count =
     \<lparr>global_concurrency = usize_saturating_mul cpu_count 4,
      default_job_concurrency = 1,
      global_max_pending = 8192,
      default_job_max_pending = 1024,
      due_batch_size = 256,
      max_jobs = 1024,
      event_channel_capacity = 1024,
      command_channel_capacity = 256,
      shutdown_timeout = secs 30,
      minimum_interval = millis 100,
      minimum_retry_delay = millis 100,
      maximum_catch_up = 1000,
      maximum_retry_attempts = 1000\<rparr>"

text \<open>The fields of type \<open>NonZeroUsize\<close> are positive by their type.\<close>

definition config_typed :: "scheduler_config \<Rightarrow> bool" where
  "config_typed c \<longleftrightarrow>
     0 < global_concurrency c \<and> 0 < default_job_concurrency c \<and> 0 < due_batch_size c"

record scheduler_config_patch =
  cp_global_concurrency :: "nat option"
  cp_default_job_concurrency :: "nat option"
  cp_global_max_pending :: "nat option"
  cp_default_job_max_pending :: "nat option"
  cp_due_batch_size :: "nat option"
  cp_max_jobs :: "nat option"
  cp_shutdown_timeout :: "dur option"
  cp_minimum_interval :: "dur option"
  cp_minimum_retry_delay :: "dur option"
  cp_maximum_catch_up :: "u32 option"
  cp_maximum_retry_attempts :: "u32 option"

datatype trigger_fault =
    PendingCapacityZero
  | IntervalBelow dur
  | CronError string
  | CatchUpExceeds u32
  | CatchUpNeedsLossless
  | CronNoFuture
  | DeltaOutOfRange
  | NextIntervalOverflowed
  | IntervalTooLarge
  | IntervalZero
  | FutureIntervalOverflowed
  | FutureIntervalOutOfRange
  | WaitTaskWithTimeout

datatype scheduler_error =
    Closed
  | StoppingError
  | JobNotFound job_id
  | JobAlreadyExists job_id
  | VersionConflict job_id (vc_expected: u64) (vc_actual: u64)
  | ConfigRevisionConflict (rc_expected: u64) (rc_actual: u64)
  | MaximumJobsReached nat
  | InvalidTrigger trigger_fault
  | InvalidRetry
  | InvalidPriority u8
  | VersionOverflow job_id
  | ConfigRevisionOverflow
  | ActorError string
  | JoinError string

type_synonym 'a sresult = "scheduler_error + 'a"

datatype scheduler_status = Running | Stopping | Stopped | Failed string

text \<open>\<open>JobPriority::new\<close>.\<close>

definition priority_new :: "u8 \<Rightarrow> job_priority sresult" where
  "priority_new v = (if v \<le> 10 then Inr v else Inl (InvalidPriority v))"

section \<open>Job state, patches and snapshots\<close>

text \<open>A reason shown to operators is a text of the code, or the text of an error.\<close>

datatype reason = Reason string | ErrorText scheduler_error

datatype job_state = Enabled | Completed | Disabled reason

datatype 'a patch_value = Keep | Set 'a | Inherit

datatype reschedule_mode = Preserve | Recalculate | RunNow

record job_patch =
  jp_task :: "task_binding option"
  jp_trigger :: "trigger option"
  jp_concurrency :: "nat patch_value"
  jp_max_pending :: "nat patch_value"
  jp_priority :: "job_priority option"
  jp_coalescing :: "trigger_coalescing option"
  jp_capacity :: "capacity_policy option"
  jp_retry :: "execution_retry_policy option"
  jp_failure :: "failure_policy option"
  jp_reschedule :: reschedule_mode

definition job_patch_new :: job_patch where
  "job_patch_new =
     \<lparr>jp_task = None, jp_trigger = None, jp_concurrency = Keep, jp_max_pending = Keep,
      jp_priority = None, jp_coalescing = None, jp_capacity = None, jp_retry = None,
      jp_failure = None, jp_reschedule = Preserve\<rparr>"

record reconcile_update =
  ru_job_id :: job_id
  ru_expected_version :: u64
  ru_patch :: job_patch
  ru_enabled :: bool

record reconcile_addition =
  ra_job_id :: job_id
  ra_enabled :: bool
  ra_trigger :: trigger
  ra_task :: task_binding
  ra_options :: job_options

record reconcile_plan =
  rp_updates :: "reconcile_update list"
  rp_additions :: "reconcile_addition list"
  rp_deletions :: "(job_id \<times> u64) list"

definition reconcile_plan_new :: reconcile_plan where
  "reconcile_plan_new = \<lparr>rp_updates = [], rp_additions = [], rp_deletions = []\<rparr>"

record job_snapshot =
  sn_id :: job_id
  sn_version :: u64
  sn_task_kind :: string
  sn_state :: job_state
  sn_trigger :: trigger
  sn_priority :: job_priority
  sn_concurrency :: nat
  sn_max_pending :: nat
  sn_running_count :: nat
  sn_pending_count :: nat
  sn_consecutive_failures :: u32
  sn_next_run_at :: "time option"
  sn_last_started_at :: "time option"
  sn_last_finished_at :: "time option"
  sn_last_outcome :: "string option"
  sn_created_at :: time
  sn_updated_at :: time

section \<open>Events\<close>

datatype scheduler_event_kind =
    SchedulerStarted
  | SchedulerConfigUpdated u64
  | SchedulerStopping
  | SchedulerStopped
  | SchedulerFailed string
  | JobAdded job_id u64
  | JobUpdated job_id u64
  | JobEnabled job_id u64
  | JobDisabled job_id u64 reason
  | JobDeleted job_id u64
  | TriggerScheduled job_id u64 time
  | TriggerSkipped job_id u64 time string
  | ExecutionQueued job_id u64 run_id nat
  | ExecutionStarted job_id u64 run_id u32 time
  | ExecutionSucceeded job_id u64 run_id u32 u64
  | ExecutionFailed job_id u64 run_id u32 string bool
  | ExecutionTimedOut job_id u64 run_id u32
  | ExecutionPanicked job_id u64 run_id u32 string
  | ExecutionCancelled job_id u64 run_id
  | RetryScheduled job_id u64 run_id u32 time
  | OutputDelivered job_id u64 run_id
  | CallbackFailed job_id u64 run_id string
  | OutputChannelClosed job_id u64 run_id
  | PendingReplaced job_id run_id run_id
  | BackpressureApplied job_id u64

record scheduler_event =
  ev_sequence :: u64
  ev_emitted_at :: time
  ev_kind :: scheduler_event_kind

section \<open>The crates the scheduler calls\<close>

text \<open>
  The parameters of the model: one reading of the clocks for the step being taken
  (\<open>Utc::now\<close>, \<open>Instant::now\<close>), the range of the platform's \<open>Instant\<close>, the
  \<open>croner\<close> parser and its search for the next occurrence in a time zone, the ranges of
  chrono's \<open>DateTime\<close> and \<open>TimeDelta\<close>, the \<open>n\<close>-th value of \<open>Uuid::new_v4\<close>,
  the key \<open>DelayQueue::insert_at\<close> chooses when the given keys are in use, and the
  deadlines it accepts at a reading of the clock: it panics on one too far in the future.
\<close>

type_synonym dq_key = nat

record env =
  utc_now :: time
  instant_now :: instant
  instant_max :: instant
  cron_parse :: "string \<Rightarrow> string option"
  cron_next :: "string \<Rightarrow> string \<Rightarrow> time \<Rightarrow> string + time"
  datetime_ok :: "time \<Rightarrow> bool"
  delta_max :: dur
  new_v4 :: "nat \<Rightarrow> uuid"
  new_key :: "dq_key list \<Rightarrow> dq_key"
  deadline_ok :: "instant \<Rightarrow> instant \<Rightarrow> bool"

text \<open>
  What the code relies on. \<open>find_next_occurrence\<close> with \<open>inclusive = false\<close> returns an
  instant strictly after the one given; the v4 identifiers drawn one after the other
  differ; a key of the queue identifies one of the entries it holds, so a new one is not in
  use (after a removal it may be used again).
\<close>

definition cron_strict :: "env \<Rightarrow> bool" where
  "cron_strict e \<longleftrightarrow> (\<forall>ex tz t t'. cron_next e ex tz t = Inr t' \<longrightarrow> t < t')"

definition uuids_distinct :: "env \<Rightarrow> nat \<Rightarrow> nat \<Rightarrow> bool" where
  "uuids_distinct e first n \<longleftrightarrow> inj_on (new_v4 e) {first ..< first + n}"

definition keys_fresh :: "env \<Rightarrow> bool" where
  "keys_fresh e \<longleftrightarrow> (\<forall>ks. new_key e ks \<notin> set ks)"

end
