(* ===== verification/Remote_Compiler.thy ===== *)
theory Remote_Compiler
  imports Sched_Model
begin

text \<open>
  The definition of a Job as the Server sends it (the \<open>.proto\<close> files under \<open>job\<close>) and its
  translation into the types of the scheduler (\<open>remote_jobs/compiler.rs\<close>), with the names of
  the Tasks (\<open>tasks/capability.rs\<close>).

  Numbers of a message have the width they have on the wire. chrono, chrono-tz and the
  constructors of the Tasks, which look at their own configuration, are parameters; the
  configuration itself is a type variable.
\<close>

section \<open>Messages\<close>

record wire_duration =
  du_seconds :: "64 word"
  du_nanos :: "32 word"

record wire_timestamp =
  ts_seconds :: "64 word"
  ts_nanos :: "32 word"

datatype proto_schedule =
    ProtoOnce "wire_timestamp option"
  | ProtoInterval "wire_duration option" "wire_timestamp option"
  | ProtoCron string string

record proto_misfire =
  pm_behavior :: "32 word"
  pm_max_runs :: u32

record proto_trigger =
  pt_timeout :: "wire_duration option"
  pt_misfire :: "proto_misfire option"
  pt_schedule :: "proto_schedule option"

record proto_retry_condition =
  pc_transient_error :: bool
  pc_timeout :: bool
  pc_panic :: bool

record exponential_retry =
  xr_max_attempts :: u32
  xr_initial_delay :: "wire_duration option"
  xr_max_delay :: "wire_duration option"
  xr_retry_on :: "proto_retry_condition option"

datatype proto_retry_policy = ProtoNoRetry | ProtoExponential exponential_retry

record proto_failure =
  pf_disable_after_consecutive_failures :: "u32 option"
  pf_count_timeout :: bool
  pf_count_panic :: bool

record proto_options =
  po_concurrency :: "u32 option"
  po_max_pending :: "u32 option"
  po_priority :: "u32 option"
  po_coalescing :: "32 word"
  po_capacity :: "32 word"
  po_retry :: "proto_retry_policy option option"
  po_failure :: "proto_failure option"

record 'c plugin_config =
  pg_plugin_id :: string
  pg_plugin_version :: string
  pg_task_kind :: string
  pg_config :: 'c

datatype 'c proto_task =
    TaskSystem 'c | TaskCpu | TaskMemory | TaskLoad | TaskHost
  | TaskDiskIo 'c | TaskNetworkIo 'c | TaskLocalIp 'c | TaskPublicIp 'c
  | TaskProcess 'c | TaskSocket 'c | TaskProbe 'c | TaskPlugin "'c plugin_config"

record 'c job_definition =
  jd_job_id :: "u8 list"
  jd_revision :: u64
  jd_enabled :: bool
  jd_trigger :: "proto_trigger option"
  jd_options :: "proto_options option"
  jd_task :: "'c proto_task option option"

section \<open>Names of Tasks\<close>

fun builtin_kind :: "'c proto_task \<Rightarrow> string option" where
  "builtin_kind (TaskSystem _) = Some ''smalux.collect.system.v1''"
| "builtin_kind TaskCpu = Some ''smalux.collect.cpu.v1''"
| "builtin_kind TaskMemory = Some ''smalux.collect.memory.v1''"
| "builtin_kind TaskLoad = Some ''smalux.collect.load.v1''"
| "builtin_kind TaskHost = Some ''smalux.collect.host.v1''"
| "builtin_kind (TaskDiskIo _) = Some ''smalux.collect.disk_io.v1''"
| "builtin_kind (TaskNetworkIo _) = Some ''smalux.collect.network_io.v1''"
| "builtin_kind (TaskLocalIp _) = Some ''smalux.collect.local_ip.v1''"
| "builtin_kind (TaskPublicIp _) = Some ''smalux.collect.public_ip.v1''"
| "builtin_kind (TaskProcess _) = Some ''smalux.collect.process.v1''"
| "builtin_kind (TaskSocket _) = Some ''smalux.collect.socket.v1''"
| "builtin_kind (TaskProbe _) = Some ''smalux.probe.network.v1''"
| "builtin_kind (TaskPlugin _) = None"

definition task_kind :: "'c proto_task option \<Rightarrow> string option" where
  "task_kind definition =
     (case definition of
        None \<Rightarrow> None
      | Some (TaskPlugin c) \<Rightarrow> if pg_task_kind c \<noteq> [] then Some (pg_task_kind c) else None
      | Some t \<Rightarrow> builtin_kind t)"

text \<open>Collectors that read the operating system in a blocking thread cannot be cancelled; the
  requests of the public address, the probes and the plugins keep the default.\<close>

fun task_mode :: "'c proto_task \<Rightarrow> cancellation_mode" where
  "task_mode (TaskPublicIp _) = Cooperative"
| "task_mode (TaskProbe _) = Cooperative"
| "task_mode (TaskPlugin _) = Cooperative"
| "task_mode _ = NonCancellable"

section \<open>Compiling\<close>

datatype compile_fault =
    FaultText string
  | FieldRequired string
  | FieldInvalid string
  | FieldZero string
  | FieldRange string
  | FieldUuid string
  | FaultTimezone string
  | FaultEnum
  | FaultWidth
  | FaultPriority scheduler_error
  | FaultTask string

type_synonym 'a compiled = "compile_fault + 'a"

text \<open>\<open>DateTime::from_timestamp\<close>, the parser of IANA names, and the checks the constructors of the
  Tasks make (\<open>with_config\<close>, \<open>try_with_config\<close>, \<open>validate_task_config\<close>).\<close>

record 'c task_factory =
  tf_from_timestamp :: "int \<Rightarrow> u32 \<Rightarrow> time option"
  tf_timezone :: "string \<Rightarrow> bool"
  tf_construct :: "'c proto_task \<Rightarrow> string option"

definition uuid_of_bytes :: "u8 list \<Rightarrow> uuid" where
  "uuid_of_bytes bs = foldl (\<lambda>u b. push_bit 8 u + ucast b) 0 bs"

definition parse_uuid :: "u8 list \<Rightarrow> string \<Rightarrow> uuid compiled" where
  "parse_uuid bs field = (if length bs = 16 then Inr (uuid_of_bytes bs) else Inl (FieldUuid field))"

definition duration_of :: "wire_duration option \<Rightarrow> string \<Rightarrow> bool \<Rightarrow> dur compiled" where
  "duration_of v field allow_zero =
     (case v of
        None \<Rightarrow> Inl (FieldRequired field)
      | Some v \<Rightarrow>
          if 0 \<le> sint (du_seconds v) \<and> 0 \<le> sint (du_nanos v) \<and> sint (du_nanos v) < 1000000000
          then (let d = secs (unat (du_seconds v)) + unat (du_nanos v)
                in if allow_zero \<or> d \<noteq> 0 then Inr d else Inl (FieldZero field))
          else Inl (FieldInvalid field))"

definition timestamp_of :: "'c task_factory \<Rightarrow> wire_timestamp option \<Rightarrow> string \<Rightarrow> time compiled" where
  "timestamp_of f v field =
     (case v of
        None \<Rightarrow> Inl (FieldRequired field)
      | Some v \<Rightarrow>
          (case tf_from_timestamp f (sint (ts_seconds v)) (ts_nanos v) of
             None \<Rightarrow> Inl (FieldRange field) | Some t \<Rightarrow> Inr t))"

definition transpose :: "('a \<Rightarrow> 'e + 'b) \<Rightarrow> 'a option \<Rightarrow> 'e + 'b option" where
  "transpose f x = (case x of None \<Rightarrow> Inr None | Some x \<Rightarrow> (case f x of Inl err \<Rightarrow> Inl err | Inr y \<Rightarrow> Inr (Some y)))"

definition compile_schedule :: "'c task_factory \<Rightarrow> proto_schedule option \<Rightarrow> schedule compiled" where
  "compile_schedule f v =
     (case v of
        Some (ProtoOnce at) \<Rightarrow>
          (case timestamp_of f at ''once.at'' of Inl err \<Rightarrow> Inl err | Inr t \<Rightarrow> Inr (Once t))
      | Some (ProtoInterval ev start) \<Rightarrow>
          (case duration_of ev ''interval.every'' False of
             Inl err \<Rightarrow> Inl err
           | Inr d \<Rightarrow>
               (case transpose (\<lambda>v. timestamp_of f (Some v) ''interval.start_at'') start of
                  Inl err \<Rightarrow> Inl err | Inr s \<Rightarrow> Inr (Interval d s)))
      | Some (ProtoCron ex tz) \<Rightarrow> if tf_timezone f tz then Inr (Cron ex tz) else Inl (FaultTimezone tz)
      | None \<Rightarrow> Inl (FaultText ''job schedule is required''))"

definition compile_misfire :: "proto_misfire option \<Rightarrow> misfire_policy compiled" where
  "compile_misfire v =
     (case v of
        None \<Rightarrow> Inl (FaultText ''misfire policy is required'')
      | Some m \<Rightarrow>
          if pm_behavior m = 0 then Inl (FaultText ''misfire behavior is unspecified'')
          else if pm_behavior m = 1 then Inr Skip
          else if pm_behavior m = 2 then Inr FireOnce
          else if pm_behavior m = 3
          then (if pm_max_runs m = 0 then Inl (FaultText ''catch-up max_runs must be greater than zero'')
                else Inr (CatchUp (pm_max_runs m)))
          else Inl (FaultText ''misfire behavior is unknown''))"

definition compile_trigger :: "'c task_factory \<Rightarrow> proto_trigger \<Rightarrow> trigger compiled" where
  "compile_trigger f v =
     (case compile_schedule f (pt_schedule v) of
        Inl err \<Rightarrow> Inl err
      | Inr schedule \<Rightarrow>
     (case compile_misfire (pt_misfire v) of
        Inl err \<Rightarrow> Inl err
      | Inr misfire \<Rightarrow>
     (case transpose (\<lambda>v. duration_of (Some v) ''trigger.timeout'' False) (pt_timeout v) of
        Inl err \<Rightarrow> Inl err
      | Inr timeout \<Rightarrow> Inr \<lparr>tr_schedule = schedule, tr_misfire = misfire, tr_timeout = timeout\<rparr>)))"

definition compile_retry :: "proto_retry_policy option \<Rightarrow> execution_retry_policy compiled" where
  "compile_retry v =
     (case v of
        Some ProtoNoRetry \<Rightarrow> Inr RetryNone
      | Some (ProtoExponential x) \<Rightarrow>
          if xr_max_attempts x = 0 then Inl (FaultText ''retry max_attempts must be greater than zero'')
          else
            (case duration_of (xr_initial_delay x) ''retry.initial_delay'' True of
               Inl err \<Rightarrow> Inl err
             | Inr initial \<Rightarrow>
            (case duration_of (xr_max_delay x) ''retry.max_delay'' False of
               Inl err \<Rightarrow> Inl err
             | Inr longest \<Rightarrow>
                 Inr (Exponential (xr_max_attempts x) initial longest
                   (case xr_retry_on x of
                      Some c \<Rightarrow> \<lparr>transient_error = pc_transient_error c, retry_timeout = pc_timeout c,
                                 retry_panic = pc_panic c\<rparr>
                    | None \<Rightarrow> default_retry_condition))))
      | None \<Rightarrow> Inl (FaultText ''retry policy is required when retry is present''))"

definition nonzero :: "u32 \<Rightarrow> string \<Rightarrow> u32 compiled" where
  "nonzero v message = (if v = 0 then Inl (FaultText message) else Inr v)"

definition compile_priority :: "u32 option \<Rightarrow> job_priority \<Rightarrow> job_priority compiled" where
  "compile_priority v fallback =
     (case v of
        None \<Rightarrow> Inr fallback
      | Some p \<Rightarrow>
          if 255 < unat p then Inl FaultWidth
          else (case priority_new (ucast p) of Inl err \<Rightarrow> Inl (FaultPriority err) | Inr p \<Rightarrow> Inr p))"

definition compile_coalescing :: "32 word \<Rightarrow> trigger_coalescing option compiled" where
  "compile_coalescing v =
     (if v = 0 then Inr None else if v = 1 then Inr (Some KeepAll)
      else if v = 2 then Inr (Some KeepLatest) else Inl FaultEnum)"

definition compile_capacity :: "32 word \<Rightarrow> capacity_policy option compiled" where
  "compile_capacity v =
     (if v = 0 then Inr None else if v = 1 then Inr (Some Backpressure)
      else if v = 2 then Inr (Some SkipNewest)
      else if v = 3 then Inr (Some ReplaceOldestTrigger) else Inl FaultEnum)"

definition compile_failure :: "proto_failure option \<Rightarrow> failure_policy \<Rightarrow> failure_policy compiled" where
  "compile_failure v fallback =
     (case v of
        None \<Rightarrow> Inr fallback
      | Some p \<Rightarrow>
          (case transpose (\<lambda>n. nonzero n ''failure threshold must be greater than zero'')
                  (pf_disable_after_consecutive_failures p) of
             Inl err \<Rightarrow> Inl err
           | Inr limit \<Rightarrow>
               Inr \<lparr>disable_after_consecutive_failures = limit, count_timeout = pf_count_timeout p,
                    count_panic = pf_count_panic p\<rparr>))"

definition compile_options :: "proto_options option \<Rightarrow> job_options compiled" where
  "compile_options v =
     (case v of
        None \<Rightarrow> Inr default_job_options
      | Some v \<Rightarrow>
     (case transpose (\<lambda>n. nonzero n ''job concurrency must be greater than zero'') (po_concurrency v) of
        Inl err \<Rightarrow> Inl err
      | Inr concurrency \<Rightarrow>
     (case compile_priority (po_priority v) (opt_priority default_job_options) of
        Inl err \<Rightarrow> Inl err
      | Inr priority \<Rightarrow>
     (case compile_coalescing (po_coalescing v) of
        Inl err \<Rightarrow> Inl err
      | Inr coalescing \<Rightarrow>
     (case compile_capacity (po_capacity v) of
        Inl err \<Rightarrow> Inl err
      | Inr capacity \<Rightarrow>
     (case (case po_retry v of None \<Rightarrow> Inr (opt_retry default_job_options) | Some r \<Rightarrow> compile_retry r) of
        Inl err \<Rightarrow> Inl err
      | Inr retry \<Rightarrow>
     (case compile_failure (po_failure v) (opt_failure default_job_options) of
        Inl err \<Rightarrow> Inl err
      | Inr failure \<Rightarrow>
          Inr \<lparr>opt_concurrency = map_option unat concurrency, opt_max_pending = map_option unat (po_max_pending v),
               opt_priority = priority, opt_coalescing = coalescing, opt_capacity = capacity,
               opt_retry = retry, opt_failure = failure\<rparr>)))))))"

text \<open>\<open>TaskFactory::build\<close>: the name of the binding is that of the Task.\<close>

definition build_task :: "'c task_factory \<Rightarrow> 'c proto_task option \<Rightarrow> task_binding compiled" where
  "build_task f definition =
     (case definition of
        None \<Rightarrow> Inl (FaultText ''task definition is required'')
      | Some (TaskPlugin c) \<Rightarrow>
          if pg_plugin_id c = [] then Inl (FaultText ''plugin_id is required'')
          else if pg_plugin_version c = [] then Inl (FaultText ''plugin_version is required'')
          else if pg_task_kind c = [] then Inl (FaultText ''plugin task_kind is required'')
          else (case tf_construct f (TaskPlugin c) of
                  Some err \<Rightarrow> Inl (FaultTask err)
                | None \<Rightarrow> Inr \<lparr>tb_kind = pg_task_kind c, tb_mode = task_mode (TaskPlugin c)\<rparr>)
      | Some t \<Rightarrow>
          (case tf_construct f t of
             Some err \<Rightarrow> Inl (FaultTask err)
           | None \<Rightarrow> Inr \<lparr>tb_kind = the (builtin_kind t), tb_mode = task_mode t\<rparr>))"

record 'c compiled_job =
  cj_definition :: "'c job_definition"
  cj_id :: job_id
  cj_revision :: u64
  cj_enabled :: bool
  cj_trigger :: trigger
  cj_options :: job_options
  cj_task :: task_binding
  cj_task_kind :: string
  cj_plugin :: "(string \<times> string) option"

definition plugin_of :: "'c proto_task option \<Rightarrow> (string \<times> string) option" where
  "plugin_of t = (case t of Some (TaskPlugin c) \<Rightarrow> Some (pg_plugin_id c, pg_plugin_version c) | _ \<Rightarrow> None)"

definition compile_job :: "'c task_factory \<Rightarrow> 'c job_definition \<Rightarrow> 'c compiled_job compiled" where
  "compile_job f d =
     (case parse_uuid (jd_job_id d) ''job_id'' of
        Inl err \<Rightarrow> Inl err
      | Inr i \<Rightarrow>
          if jd_revision d = 0 then Inl (FaultText ''job revision must be greater than zero'')
          else
     (case jd_trigger d of
        None \<Rightarrow> Inl (FaultText ''job trigger is required'')
      | Some trigger \<Rightarrow>
     (case compile_trigger f trigger of
        Inl err \<Rightarrow> Inl err
      | Inr trigger \<Rightarrow>
     (case compile_options (jd_options d) of
        Inl err \<Rightarrow> Inl err
      | Inr options \<Rightarrow>
     (case jd_task d of
        None \<Rightarrow> Inl (FaultText ''job task is required'')
      | Some task_definition \<Rightarrow>
     (case task_kind task_definition of
        None \<Rightarrow> Inl (FaultText ''task definition is required'')
      | Some kind \<Rightarrow>
     (case build_task f task_definition of
        Inl err \<Rightarrow> Inl err
      | Inr task \<Rightarrow>
          Inr \<lparr>cj_definition = d, cj_id = i, cj_revision = jd_revision d, cj_enabled = jd_enabled d,
               cj_trigger = trigger, cj_options = options, cj_task = task, cj_task_kind = kind,
               cj_plugin = plugin_of task_definition\<rparr>)))))))"


section \<open>What is compiled has the types of the scheduler\<close>

text \<open>\<open>NonZeroU32\<close>, \<open>NonZeroUsize\<close>, the range of \<open>JobPriority\<close> and of \<open>Duration\<close>.\<close>

definition dur_typed :: "dur \<Rightarrow> bool" where
  "dur_typed d \<longleftrightarrow> d < secs (2 ^ 64)"

fun schedule_typed :: "schedule \<Rightarrow> bool" where
  "schedule_typed (Interval ev _) = (0 < ev \<and> dur_typed ev)"
| "schedule_typed _ = True"

fun misfire_typed :: "misfire_policy \<Rightarrow> bool" where
  "misfire_typed (CatchUp n) = (n \<noteq> 0)"
| "misfire_typed _ = True"

definition trigger_typed :: "trigger \<Rightarrow> bool" where
  "trigger_typed t \<longleftrightarrow> schedule_typed (tr_schedule t) \<and> misfire_typed (tr_misfire t) \<and>
     pred_option (\<lambda>d. 0 < d \<and> dur_typed d) (tr_timeout t)"

fun retry_typed :: "execution_retry_policy \<Rightarrow> bool" where
  "retry_typed RetryNone = True"
| "retry_typed (Exponential n first longest _) = (n \<noteq> 0 \<and> dur_typed first \<and> 0 < longest \<and> dur_typed longest)"

definition options_typed :: "job_options \<Rightarrow> bool" where
  "options_typed opts \<longleftrightarrow> pred_option (\<lambda>n. 0 < n \<and> n < 2 ^ 32) (opt_concurrency opts) \<and>
     pred_option (\<lambda>n. n < 2 ^ 32) (opt_max_pending opts) \<and> opt_priority opts \<le> 10 \<and>
     retry_typed (opt_retry opts) \<and>
     pred_option (\<lambda>n. n \<noteq> 0) (disable_after_consecutive_failures (opt_failure opts))"

lemma transpose_cases:
  assumes "transpose f x = Inr y"
  obtains "x = None" "y = None" | a b where "x = Some a" "f a = Inr b" "y = Some b"
  using assms by (auto simp: transpose_def split: option.splits sum.splits)

lemma duration_of_typed:
  assumes "duration_of v field z = Inr d"
  shows "dur_typed d" and "z \<or> 0 < d"
proof -
  obtain w where v: "v = Some w" using assms by (cases v) (simp_all add: duration_of_def)
  have w: "0 \<le> sint (du_nanos w)" "sint (du_nanos w) < 1000000000"
    and d: "d = secs (unat (du_seconds w)) + unat (du_nanos w)" "z \<or> d \<noteq> 0"
    using assms by (auto simp: v duration_of_def Let_def split: if_splits)
  have "sint (du_nanos w) = uint (du_nanos w) - 2 ^ 32 * of_bool (bit (uint (du_nanos w)) 31)"
    using unsigned_less [where ?'a = int, of "du_nanos w"]
    by (simp add: sint_uint signed_take_bit_eq_take_bit_minus take_bit_int_eq_self)
  then have "uint (du_nanos w) = sint (du_nanos w)"
    using w(1) unsigned_less [where ?'a = int, of "du_nanos w"] by (cases "bit (uint (du_nanos w)) 31") simp_all
  then have "unat (du_nanos w) < 1000000000" using w(2) by (simp add: unat_eq_nat_uint)
  moreover have "unat (du_seconds w) < 2 ^ 64" using unsigned_less [of "du_seconds w"] by simp
  ultimately show "dur_typed d" by (simp add: dur_typed_def secs_def d)
  show "z \<or> 0 < d" using d(2) by simp
qed


lemma duration_of_positive: "duration_of v field False = Inr d \<Longrightarrow> 0 < d"
  using duration_of_typed(2) by blast

lemma compile_trigger_typed:
  assumes "compile_trigger f v = Inr t"
  shows "trigger_typed t"
proof -
  obtain sch mis out where c: "compile_schedule f (pt_schedule v) = Inr sch" "compile_misfire (pt_misfire v) = Inr mis"
    "transpose (\<lambda>v. duration_of (Some v) ''trigger.timeout'' False) (pt_timeout v) = Inr out"
    and t: "t = \<lparr>tr_schedule = sch, tr_misfire = mis, tr_timeout = out\<rparr>"
    using assms by (auto simp: compile_trigger_def split: sum.splits)
  have "schedule_typed sch"
    using c(1) duration_of_typed
    by (auto simp: compile_schedule_def split: option.splits proto_schedule.splits sum.splits if_splits) blast+
  moreover have "misfire_typed mis"
    using c(2) by (auto simp: compile_misfire_def split: option.splits if_splits)
  moreover have "pred_option (\<lambda>d. 0 < d \<and> dur_typed d) out"
    using c(3) by (rule transpose_cases) (auto dest: duration_of_typed(1) duration_of_positive)
  ultimately show ?thesis by (simp add: trigger_typed_def t)
qed

lemma compile_retry_typed: "compile_retry v = Inr r \<Longrightarrow> retry_typed r"
  using duration_of_typed
  by (auto simp: compile_retry_def split: option.splits proto_retry_policy.splits sum.splits if_splits) blast+

lemma compile_priority_typed: "compile_priority v q = Inr p \<Longrightarrow> q \<le> 10 \<Longrightarrow> p \<le> 10"
  by (auto simp: compile_priority_def priority_new_def split: option.splits sum.splits if_splits)

lemma compile_failure_typed:
  assumes "compile_failure v q = Inr p" "pred_option (\<lambda>n. n \<noteq> 0) (disable_after_consecutive_failures q)"
  shows "pred_option (\<lambda>n. n \<noteq> 0) (disable_after_consecutive_failures p)"
  using assms by (auto simp: compile_failure_def nonzero_def transpose_def split: option.splits sum.splits if_splits)

lemma nonzero_unat:
  assumes "transpose (\<lambda>n. nonzero n message) x = Inr y"
  shows "pred_option (\<lambda>n. 0 < n \<and> n < 2 ^ 32) (map_option unat y)"
  using assms by (rule transpose_cases)
    (use unsigned_less [where ?'b = 32 and ?'a = nat] in \<open>auto simp: nonzero_def unat_gt_0 split: if_splits\<close>)

lemma default_options_typed: "options_typed default_job_options"
  by (simp add: options_typed_def default_job_options_def priority_normal_def default_failure_policy_def)

lemma compile_options_typed:
  assumes "compile_options v = Inr opts"
  shows "options_typed opts"
proof (cases v)
  case None
  then show ?thesis using assms default_options_typed by (simp add: compile_options_def)
next
  case (Some w)
  obtain con prio coal cap retry failure where
    c: "transpose (\<lambda>n. nonzero n ''job concurrency must be greater than zero'') (po_concurrency w) = Inr con"
    "compile_priority (po_priority w) (opt_priority default_job_options) = Inr prio"
    "(case po_retry w of None \<Rightarrow> Inr (opt_retry default_job_options) | Some r \<Rightarrow> compile_retry r) = Inr retry"
    "compile_failure (po_failure w) (opt_failure default_job_options) = Inr failure"
    and opts: "opts = \<lparr>opt_concurrency = map_option unat con, opt_max_pending = map_option unat (po_max_pending w),
      opt_priority = prio, opt_coalescing = coal, opt_capacity = cap, opt_retry = retry, opt_failure = failure\<rparr>"
    using assms by (auto simp: compile_options_def Some split: sum.splits)
  have d: "opt_priority default_job_options \<le> 10" "retry_typed (opt_retry default_job_options)"
    "pred_option (\<lambda>n. n \<noteq> 0) (disable_after_consecutive_failures (opt_failure default_job_options))"
    using default_options_typed by (simp_all add: options_typed_def)
  have "retry_typed retry" using c(3) d(2) compile_retry_typed by (cases "po_retry w") auto
  moreover have "pred_option (\<lambda>n. n < 2 ^ 32) (map_option unat (po_max_pending w))"
    using unsigned_less [where ?'b = 32 and ?'a = nat] by (cases "po_max_pending w") simp_all
  ultimately show ?thesis
    using nonzero_unat [OF c(1)] compile_priority_typed [OF c(2) d(1)] compile_failure_typed [OF c(4) d(3)]
    by (simp add: options_typed_def opts)
qed

lemma build_task_kind:
  assumes "build_task f t = Inr b"
  shows "task_kind t = Some (tb_kind b)"
proof (cases t)
  case (Some u)
  then show ?thesis using assms by (cases u) (auto simp: build_task_def task_kind_def split: option.splits if_splits)
qed (use assms in \<open>simp add: build_task_def\<close>)



definition sample_wire_job :: "unit job_definition" where
  "sample_wire_job = \<lparr>jd_job_id = replicate 16 1, jd_revision = 3, jd_enabled = True,
     jd_trigger = Some \<lparr>pt_timeout = None, pt_misfire = Some \<lparr>pm_behavior = 1, pm_max_runs = 0\<rparr>,
       pt_schedule = Some (ProtoInterval (Some \<lparr>du_seconds = 60, du_nanos = 0\<rparr>) None)\<rparr>,
     jd_options = Some \<lparr>po_concurrency = Some 2, po_max_pending = None, po_priority = Some 7, po_coalescing = 2,
       po_capacity = 0, po_retry = Some (Some (ProtoExponential \<lparr>xr_max_attempts = 3,
         xr_initial_delay = Some \<lparr>du_seconds = 1, du_nanos = 0\<rparr>,
         xr_max_delay = Some \<lparr>du_seconds = 8, du_nanos = 0\<rparr>, xr_retry_on = None\<rparr>)), po_failure = None\<rparr>,
     jd_task = Some (Some TaskCpu)\<rparr>"

definition sample_factory :: "unit task_factory" where
  "sample_factory = \<lparr>tf_from_timestamp = (\<lambda>s n. Some (s * 1000000000 + uint n)), tf_timezone = (\<lambda>tz. tz = ''UTC''),
     tf_construct = (\<lambda>_. None)\<rparr>"

definition sample_compiled :: "unit compiled_job" where
  "sample_compiled = \<lparr>cj_definition = sample_wire_job, cj_id = uuid_of_bytes (replicate 16 1), cj_revision = 3,
     cj_enabled = True, cj_trigger = \<lparr>tr_schedule = Interval (secs 60) None, tr_misfire = Skip, tr_timeout = None\<rparr>,
     cj_options = \<lparr>opt_concurrency = Some 2, opt_max_pending = None, opt_priority = 7, opt_coalescing = Some KeepLatest,
       opt_capacity = None, opt_retry = Exponential 3 (secs 1) (secs 8) default_retry_condition,
       opt_failure = default_failure_policy\<rparr>,
     cj_task = \<lparr>tb_kind = ''smalux.collect.cpu.v1'', tb_mode = NonCancellable\<rparr>,
     cj_task_kind = ''smalux.collect.cpu.v1'', cj_plugin = None\<rparr>"

lemma sample_compiles: "compile_job sample_factory sample_wire_job = Inr sample_compiled"
  by (simp add: sample_wire_job_def sample_factory_def sample_compiled_def compile_job_def parse_uuid_def compile_trigger_def
      compile_schedule_def compile_misfire_def transpose_def duration_of_def Let_def compile_options_def nonzero_def
      compile_priority_def priority_new_def compile_coalescing_def compile_capacity_def compile_retry_def compile_failure_def
      default_job_options_def task_kind_def build_task_def plugin_of_def secs_def)


end
