(* ===== verification/Key_Rotation.thy ===== *)
theory Key_Rotation
  imports Prelude
begin

text \<open>
  The rotation of the long-term Noise keys (\<open>noise/identity.rs\<close> and \<open>noise/rotation.rs\<close>
  of smalux-protocol): the private keys of an Agent, the public keys the Server authorises
  for it, the key ring of the Server and the Server keys an Agent pins. The four machines
  share one discipline of transactions, the locale \<open>rotation_machine\<close>. BLAKE2s, which makes a
  key identifier from a public key, is a parameter, and so are freshly generated identities
  and transaction identifiers.
\<close>

section \<open>Keys and identifiers\<close>

type_synonym bytes = "u8 list"

datatype noise_error =
    InvalidKeyLength
  | InvalidPskLength
  | InvalidHandshakeType
  | InvalidFrame
  | AuthenticationFailed
  | MissingRemoteKey
  | UnknownKeyId
  | RotationAlreadyInProgress
  | NoPendingRotation
  | RotationIdMismatch
  | Crypto string
  | Encode string
  | MessageTooLarge
  | Random string

type_synonym 'a nresult = "noise_error + 'a"

datatype noise_public_key = NoisePublicKey (pk_bytes: bytes)
datatype key_id = KeyId (kid_bytes: bytes)
datatype rotation_id = RotationId (rid_bytes: bytes)

definition key_len :: nat where
  "key_len = 32"

definition rotation_id_len :: nat where
  "rotation_id_len = 16"

definition public_key_from_bytes :: "bytes \<Rightarrow> noise_public_key nresult" where
  "public_key_from_bytes b =
     (if length b = key_len then Inr (NoisePublicKey b) else Inl InvalidKeyLength)"

definition key_id_from_bytes :: "bytes \<Rightarrow> key_id nresult" where
  "key_id_from_bytes b = (if length b = key_len then Inr (KeyId b) else Inl InvalidKeyLength)"

definition rotation_id_from_bytes :: "bytes \<Rightarrow> rotation_id nresult" where
  "rotation_id_from_bytes b =
     (if length b = rotation_id_len then Inr (RotationId b) else Inl RotationIdMismatch)"

text \<open>\<open>blake\<close> stands for BLAKE2s-256.\<close>

definition key_id_of :: "(bytes \<Rightarrow> bytes) \<Rightarrow> noise_public_key \<Rightarrow> key_id" where
  "key_id_of blake k = KeyId (blake (pk_bytes k))"

record noise_identity =
  ni_private_key :: bytes
  ni_public_key :: noise_public_key

definition identity_from_parts :: "bytes \<Rightarrow> bytes \<Rightarrow> noise_identity nresult" where
  "identity_from_parts priv pub =
     (if length priv \<noteq> key_len then Inl InvalidKeyLength
      else case public_key_from_bytes pub of
             Inl err \<Rightarrow> Inl err
           | Inr k \<Rightarrow> Inr \<lparr>ni_private_key = priv, ni_public_key = k\<rparr>)"

text \<open>The lengths the types \<open>[u8; 32]\<close> and \<open>[u8; 16]\<close> carry.\<close>

definition identity_typed :: "noise_identity \<Rightarrow> bool" where
  "identity_typed i \<longleftrightarrow> length (ni_private_key i) = key_len \<and> length (pk_bytes (ni_public_key i)) = key_len"

lemma identity_from_parts_iff:
  "identity_from_parts a b = Inr i \<longleftrightarrow> identity_typed i \<and> a = ni_private_key i \<and> b = pk_bytes (ni_public_key i)"
  by (cases i) (auto simp: identity_from_parts_def identity_typed_def public_key_from_bytes_def)

lemma identity_inj:
  fixes i j :: noise_identity
  shows "ni_private_key i = ni_private_key j \<Longrightarrow> pk_bytes (ni_public_key i) = pk_bytes (ni_public_key j) \<Longrightarrow> i = j"
  by (cases i; cases j) (auto intro: noise_public_key.expand)

lemma restore_export [simp]:
  assumes "identity_typed i"
  shows "identity_from_parts (ni_private_key i) (pk_bytes (ni_public_key i)) = Inr i"
  using assms by (cases i) (simp add: identity_from_parts_def identity_typed_def public_key_from_bytes_def)

text \<open>The fields of \<open>AgentKeyRotationRequest\<close> and of \<open>ServerKeyAnnouncement\<close>.\<close>

record key_announcement =
  ka_rotation_id :: bytes
  ka_new_public_key :: bytes
  ka_new_key_id :: bytes

section \<open>The private keys of an Agent\<close>

record agent_key_set =
  ak_current :: noise_identity
  ak_pending :: "noise_identity option"
  ak_rotation_id :: "rotation_id option"

definition agent_keys_new :: "noise_identity \<Rightarrow> agent_key_set" where
  "agent_keys_new i = \<lparr>ak_current = i, ak_pending = None, ak_rotation_id = None\<rparr>"

definition agent_keys_from_snapshot :: "agent_key_set \<Rightarrow> agent_key_set nresult" where
  "agent_keys_from_snapshot s =
     (if (ak_pending s \<noteq> None) \<noteq> (ak_rotation_id s \<noteq> None) then Inl NoPendingRotation else Inr s)"

definition announcement_for ::
  "(bytes \<Rightarrow> bytes) \<Rightarrow> rotation_id \<Rightarrow> noise_identity \<Rightarrow> key_announcement" where
  "announcement_for blake r i =
     \<lparr>ka_rotation_id = rid_bytes r, ka_new_public_key = pk_bytes (ni_public_key i),
      ka_new_key_id = kid_bytes (key_id_of blake (ni_public_key i))\<rparr>"

text \<open>The two arguments of type \<open>nresult\<close> are what \<open>NoiseIdentity::generate\<close> and
  \<open>RotationId::generate\<close> return.\<close>

definition agent_prepare_rotation ::
  "(bytes \<Rightarrow> bytes) \<Rightarrow> noise_identity nresult \<Rightarrow> rotation_id nresult \<Rightarrow> agent_key_set
   \<Rightarrow> (rotation_id \<times> noise_identity \<times> key_announcement) nresult \<times> agent_key_set" where
  "agent_prepare_rotation blake gi gr s =
     (if ak_pending s \<noteq> None then (Inl RotationAlreadyInProgress, s)
      else case gi of
             Inl err \<Rightarrow> (Inl err, s)
           | Inr i \<Rightarrow>
               (case gr of
                  Inl err \<Rightarrow> (Inl err, s)
                | Inr r \<Rightarrow>
                    (Inr (r, i, announcement_for blake r i),
                     s\<lparr>ak_pending := Some i, ak_rotation_id := Some r\<rparr>)))"

definition agent_candidates :: "agent_key_set \<Rightarrow> noise_identity list" where
  "agent_candidates s = (case ak_pending s of Some i \<Rightarrow> [i] | None \<Rightarrow> []) @ [ak_current s]"

definition agent_promote_pending :: "rotation_id \<Rightarrow> agent_key_set \<Rightarrow> unit nresult \<times> agent_key_set" where
  "agent_promote_pending r s =
     (if ak_rotation_id s \<noteq> Some r then (Inl RotationIdMismatch, s)
      else case ak_pending s of
             None \<Rightarrow> (Inl NoPendingRotation, s)
           | Some i \<Rightarrow> (Inr (), s\<lparr>ak_current := i, ak_pending := None, ak_rotation_id := None\<rparr>))"

definition agent_cancel_rotation :: "agent_key_set \<Rightarrow> unit nresult \<times> agent_key_set" where
  "agent_cancel_rotation s =
     (if ak_pending s = None then (Inl NoPendingRotation, s)
      else (Inr (), s\<lparr>ak_pending := None, ak_rotation_id := None\<rparr>))"

section \<open>The keys the Server authorises for an Agent\<close>

record agent_public_key_set =
  ap_current :: noise_public_key
  ap_pending :: "noise_public_key option"
  ap_rotation_id :: "rotation_id option"

definition public_keys_new :: "noise_public_key \<Rightarrow> agent_public_key_set" where
  "public_keys_new k = \<lparr>ap_current = k, ap_pending = None, ap_rotation_id = None\<rparr>"

definition public_keys_from_snapshot :: "agent_public_key_set \<Rightarrow> agent_public_key_set nresult" where
  "public_keys_from_snapshot s =
     (if (ap_pending s \<noteq> None) \<noteq> (ap_rotation_id s \<noteq> None) then Inl NoPendingRotation else Inr s)"

text \<open>The checks of both \<open>stage\<close> methods: lengths, and that the identifier belongs to the
  key.\<close>

definition parse_announcement ::
  "(bytes \<Rightarrow> bytes) \<Rightarrow> key_announcement \<Rightarrow> (rotation_id \<times> noise_public_key) nresult" where
  "parse_announcement blake a =
     (case rotation_id_from_bytes (ka_rotation_id a) of
        Inl err \<Rightarrow> Inl err
      | Inr r \<Rightarrow>
          (case public_key_from_bytes (ka_new_public_key a) of
             Inl err \<Rightarrow> Inl err
           | Inr k \<Rightarrow>
               (case key_id_from_bytes (ka_new_key_id a) of
                  Inl err \<Rightarrow> Inl err
                | Inr i \<Rightarrow> if key_id_of blake k \<noteq> i then Inl AuthenticationFailed else Inr (r, k))))"

definition public_keys_stage ::
  "(bytes \<Rightarrow> bytes) \<Rightarrow> key_announcement \<Rightarrow> agent_public_key_set
   \<Rightarrow> unit nresult \<times> agent_public_key_set" where
  "public_keys_stage blake a s =
     (if ap_pending s \<noteq> None then (Inl RotationAlreadyInProgress, s)
      else case parse_announcement blake a of
             Inl err \<Rightarrow> (Inl err, s)
           | Inr (r, k) \<Rightarrow> (Inr (), s\<lparr>ap_pending := Some k, ap_rotation_id := Some r\<rparr>))"

definition authorize :: "noise_public_key \<Rightarrow> agent_public_key_set \<Rightarrow> bool" where
  "authorize k s \<longleftrightarrow> ap_current s = k \<or> ap_pending s = Some k"

definition public_keys_promote ::
  "rotation_id \<Rightarrow> agent_public_key_set \<Rightarrow> unit nresult \<times> agent_public_key_set" where
  "public_keys_promote r s =
     (if ap_rotation_id s \<noteq> Some r then (Inl RotationIdMismatch, s)
      else case ap_pending s of
             None \<Rightarrow> (Inl NoPendingRotation, s)
           | Some k \<Rightarrow> (Inr (), s\<lparr>ap_current := k, ap_pending := None, ap_rotation_id := None\<rparr>))"

definition public_keys_cancel :: "agent_public_key_set \<Rightarrow> unit nresult \<times> agent_public_key_set" where
  "public_keys_cancel s =
     (if ap_pending s = None then (Inl NoPendingRotation, s)
      else (Inr (), s\<lparr>ap_pending := None, ap_rotation_id := None\<rparr>))"

section \<open>The key ring of the Server\<close>

record server_key_ring =
  sk_current :: noise_identity
  sk_next :: "noise_identity option"
  sk_previous :: "noise_identity option"
  sk_rotation_id :: "rotation_id option"

definition key_ring_new :: "noise_identity \<Rightarrow> server_key_ring" where
  "key_ring_new i = \<lparr>sk_current = i, sk_next = None, sk_previous = None, sk_rotation_id = None\<rparr>"

definition key_ring_from_snapshot :: "server_key_ring \<Rightarrow> server_key_ring nresult" where
  "key_ring_from_snapshot s =
     (if (sk_next s \<noteq> None) \<noteq> (sk_rotation_id s \<noteq> None) then Inl NoPendingRotation else Inr s)"

definition server_prepare_rotation ::
  "(bytes \<Rightarrow> bytes) \<Rightarrow> noise_identity nresult \<Rightarrow> rotation_id nresult \<Rightarrow> server_key_ring
   \<Rightarrow> (rotation_id \<times> noise_identity \<times> key_announcement) nresult \<times> server_key_ring" where
  "server_prepare_rotation blake gi gr s =
     (if sk_next s \<noteq> None \<or> sk_previous s \<noteq> None then (Inl RotationAlreadyInProgress, s)
      else case gi of
             Inl err \<Rightarrow> (Inl err, s)
           | Inr i \<Rightarrow>
               (case gr of
                  Inl err \<Rightarrow> (Inl err, s)
                | Inr r \<Rightarrow>
                    (Inr (r, i, announcement_for blake r i),
                     s\<lparr>sk_next := Some i, sk_rotation_id := Some r\<rparr>)))"

definition active_keys :: "server_key_ring \<Rightarrow> noise_identity list" where
  "active_keys s =
     [sk_current s] @ (case sk_next s of Some i \<Rightarrow> [i] | None \<Rightarrow> [])
       @ (case sk_previous s of Some i \<Rightarrow> [i] | None \<Rightarrow> [])"

definition find_active :: "(bytes \<Rightarrow> bytes) \<Rightarrow> key_id \<Rightarrow> server_key_ring \<Rightarrow> noise_identity option" where
  "find_active blake k s = find (\<lambda>i. key_id_of blake (ni_public_key i) = k) (active_keys s)"

definition promote_next :: "rotation_id \<Rightarrow> server_key_ring \<Rightarrow> unit nresult \<times> server_key_ring" where
  "promote_next r s =
     (if sk_rotation_id s \<noteq> Some r then (Inl RotationIdMismatch, s)
      else case sk_next s of
             None \<Rightarrow> (Inl NoPendingRotation, s)
           | Some i \<Rightarrow>
               (Inr (), s\<lparr>sk_next := None, sk_previous := Some (sk_current s), sk_current := i,
                          sk_rotation_id := None\<rparr>))"

definition retire_previous :: "server_key_ring \<Rightarrow> unit nresult \<times> server_key_ring" where
  "retire_previous s =
     (if sk_previous s = None then (Inl NoPendingRotation, s)
      else (Inr (), s\<lparr>sk_previous := None\<rparr>))"

definition server_cancel_rotation :: "server_key_ring \<Rightarrow> unit nresult \<times> server_key_ring" where
  "server_cancel_rotation s =
     (if sk_next s = None then (Inl NoPendingRotation, s)
      else (Inr (), s\<lparr>sk_next := None, sk_rotation_id := None\<rparr>))"

section \<open>The Server keys an Agent pins\<close>

record pinned_server_keys =
  ps_current :: noise_public_key
  ps_pending :: "noise_public_key option"
  ps_previous :: "noise_public_key option"
  ps_rotation_id :: "rotation_id option"

definition pinned_new :: "noise_public_key \<Rightarrow> pinned_server_keys" where
  "pinned_new k = \<lparr>ps_current = k, ps_pending = None, ps_previous = None, ps_rotation_id = None\<rparr>"

definition pinned_from_snapshot :: "pinned_server_keys \<Rightarrow> pinned_server_keys nresult" where
  "pinned_from_snapshot s =
     (if (ps_pending s \<noteq> None) \<noteq> (ps_rotation_id s \<noteq> None) then Inl NoPendingRotation else Inr s)"

definition pinned_stage ::
  "(bytes \<Rightarrow> bytes) \<Rightarrow> key_announcement \<Rightarrow> pinned_server_keys \<Rightarrow> unit nresult \<times> pinned_server_keys" where
  "pinned_stage blake a s =
     (case parse_announcement blake a of
        Inl err \<Rightarrow> (Inl err, s)
      | Inr (r, k) \<Rightarrow>
          if ps_pending s \<noteq> None
          then (if ps_rotation_id s = Some r \<and> ps_pending s = Some k then (Inr (), s)
                else (Inl RotationAlreadyInProgress, s))
          else if k = ps_current s \<or> ps_previous s = Some k then (Inr (), s)
          else (Inr (), s\<lparr>ps_pending := Some k, ps_rotation_id := Some r\<rparr>))"

definition pinned_candidates :: "pinned_server_keys \<Rightarrow> noise_public_key list" where
  "pinned_candidates s =
     (case ps_pending s of Some k \<Rightarrow> [k] | None \<Rightarrow> []) @ [ps_current s]
       @ (case ps_previous s of Some k \<Rightarrow> [k] | None \<Rightarrow> [])"

definition pinned_promote :: "rotation_id \<Rightarrow> pinned_server_keys \<Rightarrow> unit nresult \<times> pinned_server_keys" where
  "pinned_promote r s =
     (if ps_rotation_id s \<noteq> Some r then (Inl RotationIdMismatch, s)
      else case ps_pending s of
             None \<Rightarrow> (Inl NoPendingRotation, s)
           | Some k \<Rightarrow>
               (Inr (), s\<lparr>ps_pending := None, ps_previous := Some (ps_current s), ps_current := k,
                          ps_rotation_id := None\<rparr>))"

definition pinned_retire_previous :: "pinned_server_keys \<Rightarrow> unit nresult \<times> pinned_server_keys" where
  "pinned_retire_previous s =
     (if ps_previous s = None then (Inl NoPendingRotation, s)
      else (Inr (), s\<lparr>ps_previous := None\<rparr>))"

definition pinned_cancel :: "pinned_server_keys \<Rightarrow> unit nresult \<times> pinned_server_keys" where
  "pinned_cancel s =
     (if ps_pending s = None then (Inl NoPendingRotation, s)
      else (Inr (), s\<lparr>ps_pending := None, ps_rotation_id := None\<rparr>))"

section \<open>The discipline of a rotation\<close>

text \<open>
  What the four machines have in common: a key that waits and the transaction it waits for
  are there together; a promotion takes effect only for the transaction that is open, makes
  the waiting key the current one and closes the transaction; a cancellation closes it too.
\<close>

definition in_step :: "'k option \<Rightarrow> rotation_id option \<Rightarrow> bool" where
  "in_step waiting transaction \<longleftrightarrow> (waiting = None) = (transaction = None)"

locale rotation_machine =
  fixes current :: "'s \<Rightarrow> 'k"
    and waits :: "'s \<Rightarrow> 'k option"
    and txn :: "'s \<Rightarrow> rotation_id option"
    and restore :: "'s \<Rightarrow> 's nresult"
    and promote :: "rotation_id \<Rightarrow> 's \<Rightarrow> unit nresult \<times> 's"
    and cancel :: "'s \<Rightarrow> unit nresult \<times> 's"
  assumes restore_spec:
      "restore s = (if (waits s = None) = (txn s = None) then Inr s else Inl NoPendingRotation)"
    and promote_other: "txn s \<noteq> Some r \<Longrightarrow> promote r s = (Inl RotationIdMismatch, s)"
    and promote_open: "txn s = Some r \<Longrightarrow> waits s = Some k \<Longrightarrow>
      fst (promote r s) = Inr () \<and> current (snd (promote r s)) = k \<and>
      waits (snd (promote r s)) = None \<and> txn (snd (promote r s)) = None"
    and promote_empty: "waits s = None \<Longrightarrow> snd (promote r s) = s"
    and cancel_none: "waits s = None \<Longrightarrow> cancel s = (Inl NoPendingRotation, s)"
    and cancel_open: "waits s \<noteq> None \<Longrightarrow> fst (cancel s) = Inr () \<and>
      current (snd (cancel s)) = current s \<and> waits (snd (cancel s)) = None \<and> txn (snd (cancel s)) = None"
begin

abbreviation consistent :: "'s \<Rightarrow> bool" where
  "consistent s \<equiv> in_step (waits s) (txn s)"

lemma restore_consistent: "restore s = Inr t \<longleftrightarrow> t = s \<and> consistent s"
  by (auto simp: restore_spec in_step_def)

lemma promote_consistent:
  assumes "consistent s"
  shows "consistent (snd (promote r s))"
proof (cases "waits s")
  case None
  then show ?thesis using assms by (simp add: promote_empty)
next
  case (Some k)
  then show ?thesis
    using assms promote_other [of s r] promote_open [of s r k]
    by (cases "txn s = Some r") (auto simp: in_step_def)
qed

lemma cancel_consistent: "consistent s \<Longrightarrow> consistent (snd (cancel s))"
  using cancel_none [of s] cancel_open [of s] by (cases "waits s") (auto simp: in_step_def)

text \<open>A confirmation takes effect once: repeated, it is refused and changes nothing.\<close>

lemma promote_once:
  assumes "fst (promote r s) = Inr ()" and "consistent s"
  shows "promote r (snd (promote r s)) = (Inl RotationIdMismatch, snd (promote r s))"
proof -
  have "txn s = Some r" using assms(1) promote_other by fastforce
  moreover from this assms(2) obtain k where "waits s = Some k"
    by (auto simp: in_step_def)
  ultimately have "txn (snd (promote r s)) = None" using promote_open by blast
  then show ?thesis by (intro promote_other) simp
qed

lemma promote_spec:
  assumes "consistent s"
  shows "fst (promote r s) = Inr () \<longleftrightarrow> txn s = Some r"
    and "txn s \<noteq> Some r \<Longrightarrow> snd (promote r s) = s"
    and "txn s = Some r \<Longrightarrow> waits s = Some (current (snd (promote r s)))"
  using assms promote_open [of s r] promote_other [of s r]
  by (cases "txn s = Some r"; auto simp: in_step_def)+

end

interpretation agent_rotation:
  rotation_machine ak_current ak_pending ak_rotation_id agent_keys_from_snapshot
    agent_promote_pending agent_cancel_rotation
  by unfold_locales
    (auto simp: agent_keys_from_snapshot_def agent_promote_pending_def agent_cancel_rotation_def
      split: option.splits)

interpretation authorised_rotation:
  rotation_machine ap_current ap_pending ap_rotation_id public_keys_from_snapshot
    public_keys_promote public_keys_cancel
  by unfold_locales
    (auto simp: public_keys_from_snapshot_def public_keys_promote_def public_keys_cancel_def
      split: option.splits)

interpretation ring_rotation:
  rotation_machine sk_current sk_next sk_rotation_id key_ring_from_snapshot promote_next
    server_cancel_rotation
  by unfold_locales
    (auto simp: key_ring_from_snapshot_def promote_next_def server_cancel_rotation_def
      split: option.splits)

interpretation pinned_rotation:
  rotation_machine ps_current ps_pending ps_rotation_id pinned_from_snapshot pinned_promote
    pinned_cancel
  by unfold_locales
    (auto simp: pinned_from_snapshot_def pinned_promote_def pinned_cancel_def split: option.splits)


section \<open>A Server rotation seen from one Agent\<close>

text \<open>
  The key ring, the keys one Agent has pinned, and the announcements sent, which may arrive
  late, twice or never. The Server cancels only what the Agent has not connected with, and
  retires a key only when the Agent has saved the current one: both are the operator's
  part, the code has no such check. The Agent promotes a key it has just connected with.
\<close>

record rotation_system =
  rs_ring :: server_key_ring
  rs_pins :: pinned_server_keys
  rs_sent :: "key_announcement list"

definition ring_publics :: "server_key_ring \<Rightarrow> noise_public_key list" where
  "ring_publics s = map ni_public_key (active_keys s)"

inductive rotation_step :: "(bytes \<Rightarrow> bytes) \<Rightarrow> rotation_system \<Rightarrow> rotation_system \<Rightarrow> bool" for blake where
  prepares: "server_prepare_rotation blake gi gr (rs_ring s) = (Inr (r, i, a), ring) \<Longrightarrow>
    rotation_step blake s (s\<lparr>rs_ring := ring, rs_sent := a # rs_sent s\<rparr>)"
| delivers: "a \<in> set (rs_sent s) \<Longrightarrow>
    rotation_step blake s (s\<lparr>rs_pins := snd (pinned_stage blake a (rs_pins s))\<rparr>)"
| promotes: "rotation_step blake s (s\<lparr>rs_ring := snd (promote_next r (rs_ring s))\<rparr>)"
| cancels: "map_option ni_public_key (sk_next (rs_ring s)) \<noteq> Some (ps_current (rs_pins s)) \<Longrightarrow>
    rotation_step blake s (s\<lparr>rs_ring := snd (server_cancel_rotation (rs_ring s))\<rparr>)"
| retires: "ps_current (rs_pins s) = ni_public_key (sk_current (rs_ring s)) \<or>
    ps_pending (rs_pins s) = Some (ni_public_key (sk_current (rs_ring s))) \<Longrightarrow>
    rotation_step blake s (s\<lparr>rs_ring := snd (retire_previous (rs_ring s))\<rparr>)"
| connects: "ps_pending (rs_pins s) = Some k \<Longrightarrow> k \<in> set (ring_publics (rs_ring s)) \<Longrightarrow>
    ps_rotation_id (rs_pins s) = Some r \<Longrightarrow>
    rotation_step blake s (s\<lparr>rs_pins := snd (pinned_promote r (rs_pins s))\<rparr>)"

definition rotation_start :: "noise_identity \<Rightarrow> rotation_system" where
  "rotation_start i = \<lparr>rs_ring = key_ring_new i, rs_pins = pinned_new (ni_public_key i), rs_sent = []\<rparr>"

definition stable_publics :: "server_key_ring \<Rightarrow> noise_public_key list" where
  "stable_publics s = map ni_public_key ([sk_current s] @ (case sk_previous s of Some i \<Rightarrow> [i] | None \<Rightarrow> []))"

text \<open>The invariant: the current or the waiting key of the Agent is one the Server does not
  cancel, or the Agent is one key ahead and still holds the current one.\<close>

definition rotation_inv :: "rotation_system \<Rightarrow> bool" where
  "rotation_inv s \<longleftrightarrow>
     (let ring = rs_ring s; pins = rs_pins s
      in (sk_next ring \<noteq> None \<longrightarrow> sk_previous ring = None) \<and>
         ps_pending pins \<noteq> Some (ps_current pins) \<and>
         (ps_current pins \<in> set (stable_publics ring) \<or>
          (\<exists>k. ps_pending pins = Some k \<and> k \<in> set (stable_publics ring)) \<or>
          map_option ni_public_key (sk_next ring) = Some (ps_current pins) \<and>
          ps_previous pins = Some (ni_public_key (sk_current ring))))"

lemma stage_keeps:
  "ps_current (snd (pinned_stage blake a p)) = ps_current p"
  "ps_previous (snd (pinned_stage blake a p)) = ps_previous p"
  "ps_pending p = Some k \<Longrightarrow> ps_pending (snd (pinned_stage blake a p)) = Some k"
  "ps_pending p \<noteq> Some (ps_current p) \<Longrightarrow> ps_pending (snd (pinned_stage blake a p)) \<noteq> Some (ps_current p)"
  by (auto simp: pinned_stage_def split: sum.splits if_splits)

lemma rotation_inv_step:
  assumes "rotation_step blake s t" and "rotation_inv s"
  shows "rotation_inv t"
  using assms
proof (cases rule: rotation_step.cases)
  case (prepares gi gr r i a ring)
  then show ?thesis
    using assms(2)
    by (auto simp: rotation_inv_def Let_def server_prepare_rotation_def stable_publics_def
        split: if_splits sum.splits)
next
  case (delivers a)
  then show ?thesis
    using assms(2) stage_keeps [where blake = blake and a = a and p = "rs_pins s"]
    by (auto simp: rotation_inv_def Let_def)
next
  case (promotes r)
  then show ?thesis
    using assms(2)
    by (auto simp: rotation_inv_def Let_def promote_next_def stable_publics_def split: option.splits)
next
  case cancels
  then show ?thesis
    using assms(2)
    by (auto simp: rotation_inv_def Let_def server_cancel_rotation_def stable_publics_def split: option.splits)
next
  case retires
  then show ?thesis
    using assms(2)
    by (auto simp: rotation_inv_def Let_def retire_previous_def stable_publics_def split: option.splits)
next
  case (connects k r)
  then show ?thesis
    using assms(2)
    by (cases "sk_next (rs_ring s)"; cases "sk_previous (rs_ring s)")
      (auto simp: rotation_inv_def Let_def pinned_promote_def stable_publics_def ring_publics_def
        active_keys_def)
qed

lemma rotation_inv_reachable:
  assumes "(rotation_step blake)\<^sup>*\<^sup>* (rotation_start i) s"
  shows "rotation_inv s"
  using assms
proof (induction rule: rtranclp_induct)
  case base
  show ?case
    by (simp add: rotation_inv_def rotation_start_def key_ring_new_def pinned_new_def stable_publics_def)
next
  case (step s t)
  then show ?case using rotation_inv_step by blast
qed

section \<open>Properties\<close>

text \<open>
  the four rotation machines keep a waiting key and its transaction together, and restore
  exactly such states. Preparing, staging, promoting and cancelling preserve this; a
  promotion succeeds exactly for the open transaction, installs the key that waited, and
  succeeds once.
\<close>

theorem rotation_discipline:
  assumes ring: "in_step (sk_next s) (sk_rotation_id s)"
    and pins: "in_step (ps_pending p) (ps_rotation_id p)"
    and agent: "in_step (ak_pending a) (ak_rotation_id a)"
    and auth: "in_step (ap_pending u) (ap_rotation_id u)"
  shows "key_ring_from_snapshot s = Inr s \<and> pinned_from_snapshot p = Inr p \<and>
    agent_keys_from_snapshot a = Inr a \<and> public_keys_from_snapshot u = Inr u \<and>
    list_all (\<lambda>s. in_step (sk_next s) (sk_rotation_id s))
      [snd (server_prepare_rotation blake gi gr s), snd (promote_next r s),
       snd (server_cancel_rotation s), snd (retire_previous s)] \<and>
    list_all (\<lambda>p. in_step (ps_pending p) (ps_rotation_id p))
      [snd (pinned_stage blake m p), snd (pinned_promote r p), snd (pinned_cancel p),
       snd (pinned_retire_previous p)] \<and>
    list_all (\<lambda>a. in_step (ak_pending a) (ak_rotation_id a))
      [snd (agent_prepare_rotation blake gi gr a), snd (agent_promote_pending r a),
       snd (agent_cancel_rotation a)] \<and>
    list_all (\<lambda>u. in_step (ap_pending u) (ap_rotation_id u))
      [snd (public_keys_stage blake m u), snd (public_keys_promote r u), snd (public_keys_cancel u)] \<and>
    (fst (promote_next r s) = Inr () \<longleftrightarrow> sk_rotation_id s = Some r) \<and>
    (fst (promote_next r s) = Inr () \<longrightarrow>
      sk_next s = Some (sk_current (snd (promote_next r s))) \<and>
      promote_next r (snd (promote_next r s)) = (Inl RotationIdMismatch, snd (promote_next r s)))"
proof -
  have "in_step (sk_next (snd (server_prepare_rotation blake gi gr s)))
      (sk_rotation_id (snd (server_prepare_rotation blake gi gr s)))"
    and "in_step (sk_next (snd (retire_previous s))) (sk_rotation_id (snd (retire_previous s)))"
    using ring
    by (auto simp: in_step_def server_prepare_rotation_def retire_previous_def split: sum.splits)
  moreover have "in_step (ps_pending (snd (pinned_stage blake m p))) (ps_rotation_id (snd (pinned_stage blake m p)))"
    and "in_step (ps_pending (snd (pinned_retire_previous p))) (ps_rotation_id (snd (pinned_retire_previous p)))"
    using pins
    by (auto simp: in_step_def pinned_stage_def pinned_retire_previous_def split: sum.splits)
  moreover have "in_step (ak_pending (snd (agent_prepare_rotation blake gi gr a)))
      (ak_rotation_id (snd (agent_prepare_rotation blake gi gr a)))"
    using agent by (auto simp: in_step_def agent_prepare_rotation_def split: sum.splits)
  moreover have "in_step (ap_pending (snd (public_keys_stage blake m u)))
      (ap_rotation_id (snd (public_keys_stage blake m u)))"
    using auth by (auto simp: in_step_def public_keys_stage_def split: sum.splits)
  ultimately show ?thesis
    using assms ring_rotation.promote_once [OF _ ring, of r] ring_rotation.promote_spec [OF ring, of r]
    by (simp add: ring_rotation.restore_consistent pinned_rotation.restore_consistent
        agent_rotation.restore_consistent authorised_rotation.restore_consistent
        ring_rotation.promote_consistent ring_rotation.cancel_consistent
        pinned_rotation.promote_consistent pinned_rotation.cancel_consistent
        agent_rotation.promote_consistent agent_rotation.cancel_consistent
        authorised_rotation.promote_consistent authorised_rotation.cancel_consistent)
qed



definition sample_blake :: "bytes \<Rightarrow> bytes" where
  "sample_blake b = b"

definition sample_identity :: "u8 \<Rightarrow> noise_identity" where
  "sample_identity n = \<lparr>ni_private_key = replicate 32 n, ni_public_key = NoisePublicKey (replicate 32 n)\<rparr>"

definition sample_rotation :: "u8 \<Rightarrow> rotation_id" where
  "sample_rotation n = RotationId (replicate 16 n)"

theorem rotation_discipline_witness:
  "key_ring_from_snapshot (key_ring_new (sample_identity 1)) = Inr (key_ring_new (sample_identity 1))"
  using rotation_discipline [of "key_ring_new (sample_identity 1)" "pinned_new (NoisePublicKey [])"
      "agent_keys_new (sample_identity 1)" "public_keys_new (NoisePublicKey [])"]
  by (simp add: in_step_def key_ring_new_def pinned_new_def agent_keys_new_def public_keys_new_def)


text \<open>
  C37: a cancelled rotation strands an Agent that took part in it. Neither side tells the
  other of a cancellation. An Agent that has saved the cancelled key but not connected with
  it refuses the announcement of the next rotation as a second one; and an Agent that
  connected with two keys, each cancelled afterwards, holds no key the Server accepts.
\<close>

theorem cancelled_rotation_strands_agent:
  assumes "distinct [ni_public_key a, ni_public_key b, ni_public_key c]"
    and "parse_announcement blake (announcement_for blake r1 b) = Inr (r1, ni_public_key b)"
    and "parse_announcement blake (announcement_for blake r2 c) = Inr (r2, ni_public_key c)"
  shows "let p1 = snd (pinned_stage blake (announcement_for blake r1 b) (pinned_new (ni_public_key a)));
      p2 = snd (pinned_promote r1 p1);
      p3 = snd (pinned_promote r2 (snd (pinned_stage blake (announcement_for blake r2 c) p2)));
      s1 = snd (server_cancel_rotation (snd (server_prepare_rotation blake (Inr b) (Inr r1) (key_ring_new a))));
      s2 = snd (server_cancel_rotation (snd (server_prepare_rotation blake (Inr c) (Inr r2) s1)))
    in pinned_stage blake (announcement_for blake r2 c) p1 = (Inl RotationAlreadyInProgress, p1) \<and>
       fst (server_prepare_rotation blake (Inr c) (Inr r2) s1) = Inr (r2, c, announcement_for blake r2 c) \<and>
       \<not> list_ex (\<lambda>k. k \<in> set (ring_publics s2)) (pinned_candidates p3)"
  using assms
  by (auto simp: pinned_stage_def pinned_new_def pinned_promote_def server_cancel_rotation_def
      server_prepare_rotation_def key_ring_new_def ring_publics_def active_keys_def pinned_candidates_def
      split: if_splits)

theorem cancelled_rotation_strands_agent_witness:
  "fst (pinned_stage sample_blake
      (announcement_for sample_blake (sample_rotation 2) (sample_identity 3))
      (snd (pinned_stage sample_blake
        (announcement_for sample_blake (sample_rotation 1) (sample_identity 2))
        (pinned_new (ni_public_key (sample_identity 1)))))) = Inl RotationAlreadyInProgress"
proof -
  have "parse_announcement sample_blake (announcement_for sample_blake (sample_rotation n) (sample_identity m)) =
      Inr (sample_rotation n, ni_public_key (sample_identity m))" for n m
    by (simp add: parse_announcement_def announcement_for_def rotation_id_from_bytes_def
        public_key_from_bytes_def key_id_from_bytes_def key_id_of_def sample_rotation_def
        sample_identity_def sample_blake_def rotation_id_len_def key_len_def)
  moreover have "distinct [ni_public_key (sample_identity 1), ni_public_key (sample_identity 2),
      ni_public_key (sample_identity 3)]"
    by (simp add: sample_identity_def)
  ultimately show ?thesis
    using cancelled_rotation_strands_agent [of "sample_identity 1" "sample_identity 2" "sample_identity 3"
        sample_blake "sample_rotation 1" "sample_rotation 2"]
    by (simp add: Let_def)
qed

end
