(* ===== verification/Client_Error.thy ===== *)
theory Client_Error
  imports Key_Rotation
begin

text \<open>
  The errors of the transport and of the Agent client and which of them are temporary
  (\<open>tonic_transport.rs\<close>, \<open>client.rs\<close> and \<open>client/supervisor.rs\<close>). The supervisor, the
  first connection and the outboxes share this classification. Payloads that only carry a
  text or a foreign error are strings; the status codes are those of gRPC.
\<close>

datatype status_code =
    Code_Ok | Code_Cancelled | Code_Unknown | Code_InvalidArgument | Code_DeadlineExceeded
  | Code_NotFound | Code_AlreadyExists | Code_PermissionDenied | Code_ResourceExhausted
  | Code_FailedPrecondition | Code_Aborted | Code_OutOfRange | Code_Unimplemented | Code_Internal
  | Code_Unavailable | Code_DataLoss | Code_Unauthenticated

datatype secure_error_code =
    SecureUnspecified | SecureInvalidToken | SecureTokenAlreadyUsed | SecureAgentNotAuthorized
  | SecureAgentAlreadyRegistered | SecureInvalidMessage | SecureRotationConflict
  | SecureRotationIdMismatch | SecureInvalidRotationState | SecureInternal | SecureResourceExhausted

datatype transport_error =
    TransportNoise noise_error
  | TransportStatus status_code
  | TransportTransport string
  | TransportInvalidUri string
  | TransportTimeout string
  | TransportClosed
  | TransportUnknownKeyId
  | TransportRekeyRequired
  | TransportHeartbeatTimeout
  | TransportProtocol string
  | TransportRemoteProtocol string
  | TransportRemoteSecure secure_error_code string

datatype client_error =
    ClientTransport transport_error
  | ClientNoise noise_error
  | ClientStateStore string
  | RegistrationTokenRequired
  | InvalidRegistrationToken string
  | InconsistentPendingRegistration
  | AlreadyConnected
  | NotConnected
  | TemporarilyUnavailable
  | SupervisorStopped
  | ShutdownRequested

type_synonym 'a cresult = "client_error + 'a"

fun retryable_status :: "status_code \<Rightarrow> bool" where
  "retryable_status Code_Cancelled = True"
| "retryable_status Code_Unknown = True"
| "retryable_status Code_DeadlineExceeded = True"
| "retryable_status Code_ResourceExhausted = True"
| "retryable_status Code_Aborted = True"
| "retryable_status Code_Internal = True"
| "retryable_status Code_Unavailable = True"
| "retryable_status _ = False"

fun is_retryable :: "client_error \<Rightarrow> bool" where
  "is_retryable NotConnected = True"
| "is_retryable TemporarilyUnavailable = True"
| "is_retryable (ClientTransport (TransportTransport _)) = True"
| "is_retryable (ClientTransport (TransportTimeout _)) = True"
| "is_retryable (ClientTransport TransportClosed) = True"
| "is_retryable (ClientTransport TransportHeartbeatTimeout) = True"
| "is_retryable (ClientTransport (TransportStatus status)) = retryable_status status"
| "is_retryable _ = False"

end
