(* ===== verification/Agent_State.thy ===== *)
theory Agent_State
  imports Client_Error
begin

text \<open>
  What an Agent keeps of itself (\<open>client/state/model.rs\<close>) and how it keeps it in a file
  (\<open>client/state/file_store.rs\<close>): the stages of a registration, the stored document, and a
  store that writes a new file, moves the old one to a backup and moves the new one in place.
  JSON is a pair of parameters. Every call of the operating system is one step that may fail,
  and a save is given with all the states of the directory it passes through, so that a crash
  between any two steps can be talked about.
\<close>

section \<open>The state of an Agent\<close>

datatype registration_stage = StageIdentityPrepared | StageRegistrationPending | StageRegistered

datatype persisted_agent_state =
    IdentityPrepared noise_identity
  | RegistrationPending string noise_identity pinned_server_keys bytes
  | Registered string noise_identity pinned_server_keys bytes

datatype state_error =
    StateText string
  | StateNoise noise_error
  | StateIo string
  | StateJson

type_synonym 'a aresult = "state_error + 'a"

definition registration_pending ::
  "string \<Rightarrow> noise_identity \<Rightarrow> noise_public_key \<Rightarrow> bytes \<Rightarrow> persisted_agent_state" where
  "registration_pending agent_id i k rid = RegistrationPending agent_id i (pinned_new k) rid"

fun registered_from_pending :: "persisted_agent_state \<Rightarrow> persisted_agent_state aresult" where
  "registered_from_pending (RegistrationPending a i k r) = Inr (Registered a i k r)"
| "registered_from_pending _ = Inl (StateText ''only a pending Agent state can be marked registered'')"

fun stage_of :: "persisted_agent_state \<Rightarrow> registration_stage" where
  "stage_of (IdentityPrepared _) = StageIdentityPrepared"
| "stage_of (RegistrationPending _ _ _ _) = StageRegistrationPending"
| "stage_of (Registered _ _ _ _) = StageRegistered"

fun identity_of :: "persisted_agent_state \<Rightarrow> noise_identity" where
  "identity_of (IdentityPrepared i) = i"
| "identity_of (RegistrationPending _ i _ _) = i"
| "identity_of (Registered _ i _ _) = i"

fun agent_id_of :: "persisted_agent_state \<Rightarrow> string option" where
  "agent_id_of (IdentityPrepared _) = None"
| "agent_id_of (RegistrationPending a _ _ _) = Some a"
| "agent_id_of (Registered a _ _ _) = Some a"

fun server_key_snapshot :: "persisted_agent_state \<Rightarrow> pinned_server_keys option" where
  "server_key_snapshot (IdentityPrepared _) = None"
| "server_key_snapshot (RegistrationPending _ _ k _) = Some k"
| "server_key_snapshot (Registered _ _ k _) = Some k"

fun registration_id_of :: "persisted_agent_state \<Rightarrow> bytes option" where
  "registration_id_of (IdentityPrepared _) = None"
| "registration_id_of (RegistrationPending _ _ _ r) = Some r"
| "registration_id_of (Registered _ _ _ r) = Some r"

definition snapshot_candidates :: "pinned_server_keys \<Rightarrow> noise_public_key list" where
  "snapshot_candidates k =
     (case ps_pending k of Some p \<Rightarrow> [p] | None \<Rightarrow> []) @ [ps_current k]
       @ (case ps_previous k of Some p \<Rightarrow> [p] | None \<Rightarrow> [])"

definition server_key_candidates :: "persisted_agent_state \<Rightarrow> noise_public_key list" where
  "server_key_candidates s =
     (case server_key_snapshot s of None \<Rightarrow> [] | Some k \<Rightarrow> snapshot_candidates k)"

fun with_server_keys :: "persisted_agent_state \<Rightarrow> pinned_server_keys \<Rightarrow> persisted_agent_state" where
  "with_server_keys (IdentityPrepared i) k = IdentityPrepared i"
| "with_server_keys (RegistrationPending a i _ r) k = RegistrationPending a i k r"
| "with_server_keys (Registered a i _ r) k = Registered a i k r"

definition stage_server_key ::
  "(bytes \<Rightarrow> bytes) \<Rightarrow> key_announcement \<Rightarrow> persisted_agent_state \<Rightarrow> persisted_agent_state nresult" where
  "stage_server_key blake a s =
     (case server_key_snapshot s of
        None \<Rightarrow> Inl NoPendingRotation
      | Some k \<Rightarrow>
          (case pinned_from_snapshot k of
             Inl err \<Rightarrow> Inl err
           | Inr pinned \<Rightarrow>
               (case pinned_stage blake a pinned of
                  (Inl err, _) \<Rightarrow> Inl err
                | (Inr _, pinned) \<Rightarrow> Inr (with_server_keys s pinned))))"

definition promote_server_key :: "rotation_id \<Rightarrow> persisted_agent_state \<Rightarrow> persisted_agent_state nresult" where
  "promote_server_key r s =
     (case server_key_snapshot s of
        None \<Rightarrow> Inl NoPendingRotation
      | Some k \<Rightarrow>
          (case pinned_from_snapshot k of
             Inl err \<Rightarrow> Inl err
           | Inr pinned \<Rightarrow>
               (case pinned_promote r pinned of
                  (Inl err, _) \<Rightarrow> Inl err
                | (Inr _, pinned) \<Rightarrow> Inr (with_server_keys s pinned))))"

section \<open>The document\<close>

record stored_registration =
  sr_agent_id :: string
  sr_private_key :: bytes
  sr_public_key :: bytes
  sr_server_public_keys :: "bytes list"
  sr_server_pending_public_key :: "bytes option"
  sr_server_previous_public_key :: "bytes option"
  sr_server_rotation_id :: "bytes option"
  sr_registration_id :: bytes

datatype stored_agent_state =
    StoredIdentityPrepared bytes bytes
  | StoredRegistrationPending stored_registration
  | StoredRegistered stored_registration

record state_document =
  doc_version :: u32
  doc_state :: stored_agent_state

definition state_format_version :: u32 where
  "state_format_version = 1"

definition stored_registration_of ::
  "string \<Rightarrow> noise_identity \<Rightarrow> pinned_server_keys \<Rightarrow> bytes \<Rightarrow> stored_registration" where
  "stored_registration_of a i k r =
     \<lparr>sr_agent_id = a, sr_private_key = ni_private_key i, sr_public_key = pk_bytes (ni_public_key i),
      sr_server_public_keys = [pk_bytes (ps_current k)],
      sr_server_pending_public_key = map_option pk_bytes (ps_pending k),
      sr_server_previous_public_key = map_option pk_bytes (ps_previous k),
      sr_server_rotation_id = map_option rid_bytes (ps_rotation_id k),
      sr_registration_id = r\<rparr>"

fun stored_of :: "persisted_agent_state \<Rightarrow> stored_agent_state" where
  "stored_of (IdentityPrepared i) = StoredIdentityPrepared (ni_private_key i) (pk_bytes (ni_public_key i))"
| "stored_of (RegistrationPending a i k r) = StoredRegistrationPending (stored_registration_of a i k r)"
| "stored_of (Registered a i k r) = StoredRegistered (stored_registration_of a i k r)"

definition lift_noise :: "'a nresult \<Rightarrow> 'a aresult" where
  "lift_noise r = (case r of Inl err \<Rightarrow> Inl (StateNoise err) | Inr x \<Rightarrow> Inr x)"

definition transpose_noise :: "('a \<Rightarrow> 'b nresult) \<Rightarrow> 'a option \<Rightarrow> 'b option aresult" where
  "transpose_noise f x =
     (case x of None \<Rightarrow> Inr None
      | Some x \<Rightarrow> (case f x of Inl err \<Rightarrow> Inl (StateNoise err) | Inr y \<Rightarrow> Inr (Some y)))"

definition restore_server_keys ::
  "bytes list \<Rightarrow> bytes option \<Rightarrow> bytes option \<Rightarrow> bytes option \<Rightarrow> pinned_server_keys aresult" where
  "restore_server_keys values pending previous rotation =
     (case values of
        [] \<Rightarrow> Inl (StateText ''registered Agent state must contain a Server public key'')
      | v # vs \<Rightarrow>
     (case public_key_from_bytes v of
        Inl err \<Rightarrow> Inl (StateNoise err)
      | Inr current \<Rightarrow>
          if 2 < length values then Inl (StateText ''Agent state contains too many Server public keys'')
          else
     (case transpose_noise public_key_from_bytes pending of
        Inl err \<Rightarrow> Inl err
      | Inr pending \<Rightarrow>
     (case transpose_noise public_key_from_bytes
             (case previous of Some p \<Rightarrow> Some p | None \<Rightarrow> (case vs of [] \<Rightarrow> None | l # _ \<Rightarrow> Some l)) of
        Inl err \<Rightarrow> Inl err
      | Inr previous \<Rightarrow>
     (case transpose_noise rotation_id_from_bytes rotation of
        Inl err \<Rightarrow> Inl err
      | Inr rotation \<Rightarrow>
          let k = \<lparr>ps_current = current, ps_pending = pending, ps_previous = previous,
                   ps_rotation_id = rotation\<rparr>
          in (case pinned_from_snapshot k of Inl err \<Rightarrow> Inl (StateNoise err) | Inr _ \<Rightarrow> Inr k))))))"

definition registration_id_len :: nat where
  "registration_id_len = 16"

definition restore_registration ::
  "(string \<Rightarrow> noise_identity \<Rightarrow> pinned_server_keys \<Rightarrow> bytes \<Rightarrow> persisted_agent_state)
   \<Rightarrow> stored_registration \<Rightarrow> persisted_agent_state aresult" where
  "restore_registration mk d =
     (case identity_from_parts (sr_private_key d) (sr_public_key d) of
        Inl err \<Rightarrow> Inl (StateNoise err)
      | Inr i \<Rightarrow>
     (case restore_server_keys (sr_server_public_keys d) (sr_server_pending_public_key d)
             (sr_server_previous_public_key d) (sr_server_rotation_id d) of
        Inl err \<Rightarrow> Inl err
      | Inr k \<Rightarrow>
          if length (sr_registration_id d) = registration_id_len
          then Inr (mk (sr_agent_id d) i k (sr_registration_id d))
          else Inl (StateText ''registration ID must contain 16 bytes'')))"

fun restore_state :: "stored_agent_state \<Rightarrow> persisted_agent_state aresult" where
  "restore_state (StoredIdentityPrepared priv pub) =
     (case identity_from_parts priv pub of
        Inl err \<Rightarrow> Inl (StateNoise err) | Inr i \<Rightarrow> Inr (IdentityPrepared i))"
| "restore_state (StoredRegistrationPending d) = restore_registration RegistrationPending d"
| "restore_state (StoredRegistered d) = restore_registration Registered d"

section \<open>The files\<close>

record state_files =
  f_main :: "bytes option"
  f_new :: "bytes option"
  f_backup :: "bytes option"

text \<open>The calls of the operating system that can fail.\<close>

datatype file_call =
    ReadMain | ReadBackup | Metadata | CreateDir | CreateNew | WriteNew | SyncNew
  | RemoveBackup | ExistsMain | RenameMain | RenameNew | ExistsBackup | RestoreBackup
  | RemoveMain | RemoveNew

definition decode_state :: "(bytes \<Rightarrow> state_document option) \<Rightarrow> bytes \<Rightarrow> persisted_agent_state option aresult" where
  "decode_state from_json b =
     (case from_json b of
        None \<Rightarrow> Inl StateJson
      | Some d \<Rightarrow>
          if doc_version d \<noteq> state_format_version then Inl (StateText ''unsupported Agent state version'')
          else (case restore_state (doc_state d) of Inl err \<Rightarrow> Inl err | Inr s \<Rightarrow> Inr (Some s)))"

definition load_state ::
  "(bytes \<Rightarrow> state_document option) \<Rightarrow> (file_call \<Rightarrow> bool) \<Rightarrow> state_files \<Rightarrow> persisted_agent_state option aresult" where
  "load_state from_json fails fs =
     (if fails ReadMain then Inl (StateIo ''read'')
      else case f_main fs of
        Some b \<Rightarrow> if fails Metadata then Inl (StateIo ''metadata'') else decode_state from_json b
      | None \<Rightarrow>
          if fails ReadBackup then Inl (StateIo ''read'')
          else case f_backup fs of
                 None \<Rightarrow> Inr None
               | Some b \<Rightarrow> if fails Metadata then Inl (StateIo ''metadata'') else decode_state from_json b)"

text \<open>A step of a save, with the states of the directory it passes through after its start;
  the last of them is the one it leaves.\<close>

type_synonym io_step = "state_files \<Rightarrow> unit aresult \<times> state_files list"

definition and_then :: "io_step \<Rightarrow> io_step \<Rightarrow> io_step" where
  "and_then f g fs =
     (case f fs of
        (Inl err, trace) \<Rightarrow> (Inl err, trace)
      | (Inr _, trace) \<Rightarrow> (case g (last (fs # trace)) of (r, trace') \<Rightarrow> (r, trace @ trace')))"

definition must :: "(file_call \<Rightarrow> bool) \<Rightarrow> file_call \<Rightarrow> (state_files \<Rightarrow> state_files) \<Rightarrow> io_step" where
  "must fails call change fs =
     (if fails call then (Inl (StateIo ''save''), []) else (Inr (), [change fs]))"

definition try_to :: "(file_call \<Rightarrow> bool) \<Rightarrow> file_call \<Rightarrow> (state_files \<Rightarrow> state_files) \<Rightarrow> io_step" where
  "try_to fails call change fs = (Inr (), [if fails call then fs else change fs])"

text \<open>A write reaches the file byte by byte; a failed one has written \<open>wrote\<close> of them.\<close>

definition write_new :: "(file_call \<Rightarrow> bool) \<Rightarrow> nat \<Rightarrow> bytes \<Rightarrow> io_step" where
  "write_new fails wrote b fs =
     (let upto = (if fails WriteNew then min wrote (length b) else length b)
      in (if fails WriteNew then Inl (StateIo ''write'') else Inr (),
          map (\<lambda>n. fs\<lparr>f_new := Some (take n b)\<rparr>) [0..<Suc upto]))"

definition move_main :: "(file_call \<Rightarrow> bool) \<Rightarrow> io_step" where
  "move_main fails fs =
     (if fails ExistsMain then (Inl (StateIo ''exists''), [])
      else if f_main fs = None then (Inr (), [])
      else must fails RenameMain (\<lambda>fs. fs\<lparr>f_backup := f_main fs, f_main := None\<rparr>) fs)"

definition move_new :: "(file_call \<Rightarrow> bool) \<Rightarrow> io_step" where
  "move_new fails fs =
     (if \<not> fails RenameNew then (Inr (), [fs\<lparr>f_main := f_new fs, f_new := None\<rparr>])
      else if fails ExistsBackup then (Inl (StateIo ''exists''), [])
      else (Inl (StateIo ''rename''),
            if f_backup fs \<noteq> None \<and> \<not> fails RestoreBackup
            then [fs\<lparr>f_main := f_backup fs, f_backup := None\<rparr>] else []))"

definition replace_file :: "(file_call \<Rightarrow> bool) \<Rightarrow> nat \<Rightarrow> bytes \<Rightarrow> io_step" where
  "replace_file fails wrote b =
     and_then (must fails CreateDir id)
    (and_then (must fails CreateNew (\<lambda>fs. fs\<lparr>f_new := Some []\<rparr>))
    (and_then (write_new fails wrote b)
    (and_then (must fails SyncNew id)
    (and_then (try_to fails RemoveBackup (\<lambda>fs. fs\<lparr>f_backup := None\<rparr>))
    (and_then (move_main fails)
    (and_then (move_new fails)
      (try_to fails RemoveBackup (\<lambda>fs. fs\<lparr>f_backup := None\<rparr>))))))))"

definition save_state ::
  "(state_document \<Rightarrow> bytes) \<Rightarrow> (file_call \<Rightarrow> bool) \<Rightarrow> nat \<Rightarrow> persisted_agent_state \<Rightarrow> io_step" where
  "save_state to_json fails wrote s =
     replace_file fails wrote (to_json \<lparr>doc_version = state_format_version, doc_state = stored_of s\<rparr>)"

definition clear_state :: "(file_call \<Rightarrow> bool) \<Rightarrow> io_step" where
  "clear_state fails =
     and_then (must fails RemoveMain (\<lambda>fs. fs\<lparr>f_main := None\<rparr>))
    (and_then (must fails RemoveNew (\<lambda>fs. fs\<lparr>f_new := None\<rparr>))
      (must fails RemoveBackup (\<lambda>fs. fs\<lparr>f_backup := None\<rparr>)))"


section \<open>The document keeps the state\<close>

definition pinned_typed :: "pinned_server_keys \<Rightarrow> bool" where
  "pinned_typed k \<longleftrightarrow> length (pk_bytes (ps_current k)) = key_len \<and>
     pred_option (\<lambda>p. length (pk_bytes p) = key_len) (ps_pending k) \<and>
     pred_option (\<lambda>p. length (pk_bytes p) = key_len) (ps_previous k) \<and>
     pred_option (\<lambda>r. length (rid_bytes r) = rotation_id_len) (ps_rotation_id k)"

text \<open>The lengths of the types, and a pending key exactly with its transaction.\<close>

definition state_ok :: "persisted_agent_state \<Rightarrow> bool" where
  "state_ok s \<longleftrightarrow> identity_typed (identity_of s) \<and>
     pred_option (\<lambda>k. pinned_typed k \<and> in_step (ps_pending k) (ps_rotation_id k)) (server_key_snapshot s) \<and>
     pred_option (\<lambda>r. length r = registration_id_len) (registration_id_of s)"

lemma transpose_public_key:
  "pred_option (\<lambda>p. length (pk_bytes p) = key_len) x \<Longrightarrow>
   transpose_noise public_key_from_bytes (map_option pk_bytes x) = Inr x"
  by (cases x) (simp_all add: transpose_noise_def public_key_from_bytes_def)

lemma transpose_rotation_id:
  "pred_option (\<lambda>r. length (rid_bytes r) = rotation_id_len) x \<Longrightarrow>
   transpose_noise rotation_id_from_bytes (map_option rid_bytes x) = Inr x"
  by (cases x) (simp_all add: transpose_noise_def rotation_id_from_bytes_def)

lemma restore_stored_keys:
  assumes "pinned_typed k" and "in_step (ps_pending k) (ps_rotation_id k)"
  shows "restore_server_keys [pk_bytes (ps_current k)] (map_option pk_bytes (ps_pending k))
     (map_option pk_bytes (ps_previous k)) (map_option rid_bytes (ps_rotation_id k)) = Inr k"
proof -
  have "pinned_from_snapshot k = Inr k" using assms(2) by (simp add: pinned_rotation.restore_consistent)
  with assms(1) show ?thesis
    by (cases k; cases "ps_previous k")
      (simp_all add: restore_server_keys_def pinned_typed_def public_key_from_bytes_def
        transpose_public_key transpose_rotation_id Let_def transpose_noise_def [of _ "Some _"] transpose_noise_def [of _ None])
qed

lemma restore_stored:
  assumes "state_ok s"
  shows "restore_state (stored_of s) = Inr s"
  using assms
  by (cases s) (simp_all add: state_ok_def restore_registration_def stored_registration_of_def restore_stored_keys)

section \<open>A save that is cut short\<close>

text \<open>From a directory with \<open>P\<close> a step passes only through directories with \<open>safe\<close>, and if
  it succeeds it leaves one with \<open>Q\<close>.\<close>

definition io_rule :: "(state_files \<Rightarrow> bool) \<Rightarrow> (state_files \<Rightarrow> bool) \<Rightarrow> io_step \<Rightarrow> (state_files \<Rightarrow> bool) \<Rightarrow> bool" where
  "io_rule safe P f Q \<longleftrightarrow>
     (\<forall>fs. P fs \<longrightarrow> list_all safe (snd (f fs)) \<and> (\<not> isl (fst (f fs)) \<longrightarrow> Q (last (fs # snd (f fs)))))"

lemma io_rule_then:
  assumes "io_rule safe P f Q" and "io_rule safe Q g R"
  shows "io_rule safe P (and_then f g) R"
  unfolding io_rule_def
proof (intro allI impI)
  fix fs
  assume "P fs"
  obtain r tr where f: "f fs = (r, tr)" by fastforce
  then have tr: "list_all safe tr" and q: "\<not> isl r \<Longrightarrow> Q (last (fs # tr))"
    using assms(1) \<open>P fs\<close> by (auto simp: io_rule_def)
  show "list_all safe (snd (and_then f g fs)) \<and>
      (\<not> isl (fst (and_then f g fs)) \<longrightarrow> R (last (fs # snd (and_then f g fs))))"
  proof (cases r)
    case (Inl err)
    then show ?thesis using f tr by (simp add: and_then_def)
  next
    case (Inr u)
    obtain r' tr' where g: "g (last (fs # tr)) = (r', tr')" by fastforce
    then have "list_all safe tr' \<and> (\<not> isl r' \<longrightarrow> R (last (last (fs # tr) # tr')))"
      using assms(2) q Inr by (fastforce simp: io_rule_def)
    moreover have "last (last (fs # tr) # tr') = last (fs # tr @ tr')" by (cases tr' rule: rev_cases) auto
    ultimately show ?thesis using f g tr Inr by (simp add: and_then_def del: last.simps)
  qed
qed

lemma io_rule_must:
  assumes "\<And>fs. P fs \<Longrightarrow> safe (change fs) \<and> Q (change fs)"
  shows "io_rule safe P (must fails call change) Q"
  using assms by (simp add: io_rule_def must_def)

lemma io_rule_try:
  assumes "\<And>fs. P fs \<Longrightarrow> safe fs \<and> Q fs \<and> safe (change fs) \<and> Q (change fs)"
  shows "io_rule safe P (try_to fails call change) Q"
  using assms by (simp add: io_rule_def try_to_def)

text \<open>The bytes a load reads.\<close>

definition visible :: "state_files \<Rightarrow> bytes option" where
  "visible fs = (case f_main fs of Some b \<Rightarrow> Some b | None \<Rightarrow> f_backup fs)"

lemma load_visible:
  "load_state from_json (\<lambda>_. False) fs =
   (case visible fs of None \<Rightarrow> Inr None | Some b \<Rightarrow> decode_state from_json b)"
  by (simp add: load_state_def visible_def split: option.splits)

lemma replace_rule:
  assumes "main \<noteq> None \<or> backup = None"
  shows "io_rule (\<lambda>fs. visible fs = main \<or> visible fs = Some b) (\<lambda>fs. f_main fs = main \<and> f_backup fs = backup)
    (replace_file fails wrote b) (\<lambda>fs. f_main fs = Some b)"
proof -
  let ?safe = "\<lambda>fs. visible fs = main \<or> visible fs = Some b"
  let ?same = "\<lambda>fs. f_main fs = main \<and> f_backup fs = backup"
  let ?written = "\<lambda>fs. ?same fs \<and> f_new fs = Some b"
  let ?cleared = "\<lambda>fs. f_main fs = main \<and> (main = None \<longrightarrow> f_backup fs = None) \<and> f_new fs = Some b"
  let ?moved = "\<lambda>fs. f_main fs = None \<and> f_backup fs = main \<and> f_new fs = Some b"
  let ?placed = "\<lambda>fs. f_main fs = Some b"
  have same: "?safe fs" if "?same fs" for fs using that assms by (auto simp: visible_def split: option.splits)
  have "io_rule ?safe ?same (write_new fails wrote b) ?written"
    using assms by (auto simp: io_rule_def write_new_def Let_def visible_def list_all_iff split: option.splits)
  moreover have "io_rule ?safe ?cleared (move_main fails) ?moved"
    by (auto simp: io_rule_def move_main_def must_def visible_def split: option.splits)
  moreover have "io_rule ?safe ?moved (move_new fails) ?placed"
    by (auto simp: io_rule_def move_new_def visible_def split: option.splits)
  moreover have "io_rule ?safe ?placed (try_to fails RemoveBackup (\<lambda>fs. fs\<lparr>f_backup := None\<rparr>)) ?placed"
    by (rule io_rule_try) (simp add: visible_def)
  moreover have "io_rule ?safe ?written (try_to fails RemoveBackup (\<lambda>fs. fs\<lparr>f_backup := None\<rparr>)) ?cleared"
    using assms by (intro io_rule_try) (auto simp: visible_def split: option.splits)
  moreover have "io_rule ?safe ?same (must fails CreateDir id) ?same" "io_rule ?safe ?written (must fails SyncNew id) ?written"
    "io_rule ?safe ?same (must fails CreateNew (\<lambda>fs. fs\<lparr>f_new := Some []\<rparr>)) ?same"
    using same by (auto intro!: io_rule_must simp: visible_def split: option.splits)
  ultimately show ?thesis unfolding replace_file_def by (blast intro: io_rule_then)
qed

text \<open>
  C18: When a state is written over a directory whose main file is there, or that has no
  backup either, then whatever calls of the operating system fail and wherever the process
  is cut off, the next load returns the old state or the new one; and after a save that
  reports success it returns the new one. The law of JSON is used for the one document written.
\<close>

theorem save_survives_crash:
  assumes "from_json (to_json \<lparr>doc_version = state_format_version, doc_state = stored_of s\<rparr>) =
      Some \<lparr>doc_version = state_format_version, doc_state = stored_of s\<rparr>"
    and "state_ok s" and "f_main fs \<noteq> None \<or> f_backup fs = None"
    and "save_state to_json fails wrote s fs = (res, trace)"
  shows "list_all (\<lambda>cut. load_state from_json (\<lambda>_. False) cut = load_state from_json (\<lambda>_. False) fs \<or>
      load_state from_json (\<lambda>_. False) cut = Inr (Some s)) trace \<and>
    (isl res \<or> load_state from_json (\<lambda>_. False) (last (fs # trace)) = Inr (Some s))"
proof -
  let ?b = "to_json \<lparr>doc_version = state_format_version, doc_state = stored_of s\<rparr>"
  have dec: "decode_state from_json ?b = Inr (Some s)"
    using assms(1,2) by (simp add: decode_state_def restore_stored)
  have vis: "visible fs = f_main fs" using assms(3) by (auto simp: visible_def split: option.splits)
  have "list_all (\<lambda>cut. visible cut = visible fs \<or> visible cut = Some ?b) trace"
    and last: "\<not> isl res \<Longrightarrow> f_main (last (fs # trace)) = Some ?b"
    using replace_rule [OF assms(3), of ?b fails wrote] assms(4) vis by (auto simp: io_rule_def save_state_def)
  then have "list_all (\<lambda>cut. load_state from_json (\<lambda>_. False) cut = load_state from_json (\<lambda>_. False) fs \<or>
      load_state from_json (\<lambda>_. False) cut = Inr (Some s)) trace"
    using dec by (auto simp: list_all_iff load_visible)
  moreover have "isl res \<or> load_state from_json (\<lambda>_. False) (last (fs # trace)) = Inr (Some s)"
    using last dec by (cases "isl res") (simp_all add: load_visible visible_def del: last.simps)
  ultimately show ?thesis by simp
qed

lemma replace_trace:
  assumes "moved = (if f_main fs = None then [] else [fs\<lparr>f_new := Some b, f_backup := f_main fs, f_main := None\<rparr>])"
  shows "snd (replace_file (\<lambda>_. False) wrote b fs) =
    [fs, fs\<lparr>f_new := Some []\<rparr>] @ map (\<lambda>n. fs\<lparr>f_new := Some (take n b)\<rparr>) [0..<Suc (length b)] @
    [fs\<lparr>f_new := Some b\<rparr>, fs\<lparr>f_new := Some b, f_backup := None\<rparr>] @ moved @
    [fs\<lparr>f_new := None, f_backup := f_main fs, f_main := Some b\<rparr>, fs\<lparr>f_new := None, f_backup := None, f_main := Some b\<rparr>]"
  using assms
  by (simp add: replace_file_def and_then_def must_def try_to_def write_new_def move_main_def
      move_new_def Let_def)

text \<open>
  C34: A save over a complete directory passes through a moment where only the backup is left.
  A process cut off there starts again from the backup, but its next save deletes that backup
  before the new file has its place: cut off again there, the Agent loads no state at all and
  takes itself for a new one.
\<close>

theorem second_crash_forgets_agent:
  assumes "f_main fs = Some b"
  shows "list_ex (\<lambda>cut.
      load_state from_json (\<lambda>_. False) cut = load_state from_json (\<lambda>_. False) fs \<and>
      list_ex (\<lambda>again. load_state from_json (\<lambda>_. False) again = Inr None)
        (snd (save_state to_json (\<lambda>_. False) wrote' s' cut)))
    (snd (save_state to_json (\<lambda>_. False) wrote s fs))"
proof -
  let ?doc = "\<lambda>s. to_json \<lparr>doc_version = state_format_version, doc_state = stored_of s\<rparr>"
  let ?cut = "fs\<lparr>f_new := Some (?doc s), f_backup := Some b, f_main := None\<rparr>"
  let ?again = "?cut\<lparr>f_new := Some (?doc s'), f_backup := None\<rparr>"
  have "?cut \<in> set (snd (save_state to_json (\<lambda>_. False) wrote s fs))"
    using assms by (simp add: save_state_def replace_trace)
  moreover have "?again \<in> set (snd (save_state to_json (\<lambda>_. False) wrote' s' ?cut))"
    by (simp add: save_state_def replace_trace)
  ultimately show ?thesis
    using assms unfolding list_ex_iff
    by (intro bexI [of _ ?cut] conjI bexI [of _ ?again]) (simp_all add: load_visible visible_def)
qed

definition sample_document :: "u8 \<Rightarrow> state_document" where
  "sample_document n = \<lparr>doc_version = state_format_version, doc_state = stored_of (IdentityPrepared (sample_identity n))\<rparr>"

definition sample_to_json :: "state_document \<Rightarrow> bytes" where
  "sample_to_json d = (if d = sample_document 1 then [1, 1, 1] else [2, 2, 2])"

definition sample_from_json :: "bytes \<Rightarrow> state_document option" where
  "sample_from_json b =
     (if b = [1, 1, 1] then Some (sample_document 1) else if b = [2, 2, 2] then Some (sample_document 2) else None)"

definition sample_files :: state_files where
  "sample_files = \<lparr>f_main = Some [2, 2, 2], f_new = None, f_backup = None\<rparr>"

lemma sample_state_ok: "state_ok (IdentityPrepared (sample_identity n))"
  by (simp add: state_ok_def identity_typed_def sample_identity_def key_len_def)

theorem save_survives_crash_witness:
  "list_all (\<lambda>cut.
      load_state sample_from_json (\<lambda>_. False) cut = load_state sample_from_json (\<lambda>_. False) sample_files \<or>
      load_state sample_from_json (\<lambda>_. False) cut = Inr (Some (IdentityPrepared (sample_identity 1))))
    (snd (save_state sample_to_json (\<lambda>call. call = RenameNew) 2 (IdentityPrepared (sample_identity 1)) sample_files))"
  using save_survives_crash [OF _ sample_state_ok _ prod.collapse [symmetric],
      of sample_from_json sample_to_json 1 sample_files "\<lambda>call. call = RenameNew" 2]
  by (simp add: sample_to_json_def sample_from_json_def sample_files_def
      sample_document_def [of 1, symmetric, simplified stored_of.simps])

theorem second_crash_forgets_agent_witness:
  "list_ex (\<lambda>cut.
      load_state sample_from_json (\<lambda>_. False) cut = load_state sample_from_json (\<lambda>_. False) sample_files \<and>
      list_ex (\<lambda>again. load_state sample_from_json (\<lambda>_. False) again = Inr None)
        (snd (save_state sample_to_json (\<lambda>_. False) 0 (IdentityPrepared (sample_identity 3)) cut)))
    (snd (save_state sample_to_json (\<lambda>_. False) 0 (IdentityPrepared (sample_identity 1)) sample_files))"
  by (rule second_crash_forgets_agent [of _ "[2, 2, 2]"]) (simp add: sample_files_def)

end
