(* ===== verification/Remote_Policy.thy ===== *)
theory Remote_Policy
  imports Remote_Compiler Agent_State "HOL-Library.List_Lexorder" "HOL-Library.Char_ord"
begin

text \<open>
  The policy by which an Agent refuses Jobs of the Server (\<open>remote_jobs/policy.rs\<close>): a
  \<open>BTreeSet\<close> of names is the ordered list of its elements. The file is written like the state of
  the Agent, and read from its main place only; JSON is a pair of parameters.
\<close>

section \<open>The policy\<close>

datatype policy_denial = AllRemoteJobs | DeniedTaskKind string

record remote_job_policy =
  rj_revision :: u64
  rj_deny_all :: bool
  rj_denied_task_kinds :: "string list"

record policy_snapshot =
  py_revision :: u64
  py_deny_all :: bool
  py_denied_task_kinds :: "string list"

definition default_policy :: remote_job_policy where
  "default_policy = \<lparr>rj_revision = 0, rj_deny_all = False, rj_denied_task_kinds = []\<rparr>"

text \<open>\<open>insert\<close> and \<open>remove\<close> of a \<open>BTreeSet\<close> tell whether they changed it.\<close>

definition btree_insert :: "'a :: linorder \<Rightarrow> 'a list \<Rightarrow> bool \<times> 'a list" where
  "btree_insert x xs = (if x \<in> set xs then (False, xs) else (True, insort x xs))"

definition btree_remove :: "'a :: linorder \<Rightarrow> 'a list \<Rightarrow> bool \<times> 'a list" where
  "btree_remove x xs = (if x \<in> set xs then (True, filter (\<lambda>y. y \<noteq> x) xs) else (False, xs))"

definition btree_of :: "'a :: linorder list \<Rightarrow> 'a list" where
  "btree_of xs = sorted_list_of_set (set xs)"

definition policy_new :: "bool \<Rightarrow> string list \<Rightarrow> remote_job_policy" where
  "policy_new deny_all kinds =
     \<lparr>rj_revision = 0, rj_deny_all = deny_all, rj_denied_task_kinds = btree_of kinds\<rparr>"

definition check_definition :: "remote_job_policy \<Rightarrow> 'c job_definition \<Rightarrow> policy_denial + unit" where
  "check_definition p d =
     (if rj_deny_all p then Inl AllRemoteJobs
      else case Option.bind (jd_task d) task_kind of
             Some kind \<Rightarrow> if kind \<in> set (rj_denied_task_kinds p) then Inl (DeniedTaskKind kind) else Inr ()
           | None \<Rightarrow> Inr ())"

definition check_installed :: "remote_job_policy \<Rightarrow> string \<Rightarrow> policy_denial + unit" where
  "check_installed p kind =
     (if rj_deny_all p then Inl AllRemoteJobs
      else if kind \<in> set (rj_denied_task_kinds p) then Inl (DeniedTaskKind kind) else Inr ())"

definition policy_snapshot_of :: "remote_job_policy \<Rightarrow> policy_snapshot" where
  "policy_snapshot_of p =
     \<lparr>py_revision = rj_revision p, py_deny_all = rj_deny_all p, py_denied_task_kinds = rj_denied_task_kinds p\<rparr>"

function bisect :: "'a :: linorder list \<Rightarrow> 'a \<Rightarrow> nat \<Rightarrow> nat \<Rightarrow> bool" where
  "bisect xs x low high =
     (if low < high
      then (let mid = low + (high - low) div 2
            in if xs ! mid = x then True
               else if xs ! mid < x then bisect xs x (Suc mid) high else bisect xs x low mid)
      else False)"
  by pat_completeness auto

termination bisect
  by (relation "measure (\<lambda>(_, _, low, high). high - low)") auto

declare bisect.simps [simp del]

text \<open>\<open>binary_search_by(..).is_ok()\<close> on the ordered names.\<close>

definition policy_denies :: "policy_snapshot \<Rightarrow> string \<Rightarrow> bool" where
  "policy_denies s kind \<longleftrightarrow>
     py_deny_all s \<or> bisect (py_denied_task_kinds s) kind 0 (length (py_denied_task_kinds s))"

text \<open>Unicode white space within one byte.\<close>

definition blank :: "string \<Rightarrow> bool" where
  "blank s \<longleftrightarrow> list_all (\<lambda>c. c = CHR '' '' \<or> of_char c \<in> {9 ..< (14 :: nat)}) s"

definition policy_from_snapshot :: "policy_snapshot \<Rightarrow> remote_job_policy aresult" where
  "policy_from_snapshot s =
     (let kinds = btree_of (py_denied_task_kinds s)
      in if length kinds \<noteq> length (py_denied_task_kinds s)
         then Inl (StateText ''Agent Job policy contains duplicate Task kinds'')
         else if list_ex blank kinds
         then Inl (StateText ''Agent Job policy contains an empty Task kind'')
         else Inr \<lparr>rj_revision = py_revision s, rj_deny_all = py_deny_all s, rj_denied_task_kinds = kinds\<rparr>)"

section \<open>The manager and its file\<close>

datatype policy_change = AddTask string | RemoveTask string | DenyAll | AllowAll

record policy_update =
  pu_changed :: bool
  pu_snapshot :: policy_snapshot

record policy_document =
  pd_format_version :: u32
  pd_policy :: policy_snapshot

definition policy_format_version :: u32 where
  "policy_format_version = 1"

datatype policy_persistence = PolicyMemory | PolicyFile

record policy_manager =
  pm_persistence :: policy_persistence
  pm_policy :: remote_job_policy

definition decode_policy_document :: "(bytes \<Rightarrow> policy_document option) \<Rightarrow> bytes \<Rightarrow> remote_job_policy aresult" where
  "decode_policy_document from_json b =
     (case from_json b of
        None \<Rightarrow> Inl StateJson
      | Some d \<Rightarrow>
          if pd_format_version d \<noteq> policy_format_version
          then Inl (StateText ''unsupported Agent Job policy format version'')
          else policy_from_snapshot (pd_policy d))"

definition load_policy :: "(bytes \<Rightarrow> policy_document option) \<Rightarrow> (file_call \<Rightarrow> bool) \<Rightarrow> state_files \<Rightarrow> policy_manager aresult" where
  "load_policy from_json fails fs =
     (if fails ReadMain then Inl (StateIo ''read'')
      else case (case f_main fs of Some b \<Rightarrow> decode_policy_document from_json b | None \<Rightarrow> Inr default_policy) of
             Inl err \<Rightarrow> Inl err
           | Inr p \<Rightarrow> Inr \<lparr>pm_persistence = PolicyFile, pm_policy = p\<rparr>)"

definition persist_policy ::
  "(policy_document \<Rightarrow> bytes) \<Rightarrow> (file_call \<Rightarrow> bool) \<Rightarrow> nat \<Rightarrow> policy_manager \<Rightarrow> remote_job_policy \<Rightarrow> io_step" where
  "persist_policy to_json fails wrote m p fs =
     (case pm_persistence m of
        PolicyMemory \<Rightarrow> (Inr (), [])
      | PolicyFile \<Rightarrow>
          replace_file fails wrote
            (to_json \<lparr>pd_format_version = policy_format_version, pd_policy = policy_snapshot_of p\<rparr>) fs)"

text \<open>The candidate of a change, and whether it differs.\<close>

definition changed_policy :: "policy_change \<Rightarrow> remote_job_policy \<Rightarrow> bool \<times> remote_job_policy" where
  "changed_policy change p =
     (case change of
        AddTask kind \<Rightarrow>
          (case btree_insert kind (rj_denied_task_kinds p) of (c, ks) \<Rightarrow> (c, p\<lparr>rj_denied_task_kinds := ks\<rparr>))
      | RemoveTask kind \<Rightarrow>
          (case btree_remove kind (rj_denied_task_kinds p) of (c, ks) \<Rightarrow> (c, p\<lparr>rj_denied_task_kinds := ks\<rparr>))
      | DenyAll \<Rightarrow> (\<not> rj_deny_all p, p\<lparr>rj_deny_all := True\<rparr>)
      | AllowAll \<Rightarrow> (rj_deny_all p, p\<lparr>rj_deny_all := False\<rparr>))"

definition apply_policy ::
  "(policy_document \<Rightarrow> bytes) \<Rightarrow> (file_call \<Rightarrow> bool) \<Rightarrow> nat \<Rightarrow> policy_change \<Rightarrow> policy_manager \<Rightarrow> state_files
   \<Rightarrow> policy_update aresult \<times> policy_manager \<times> state_files list" where
  "apply_policy to_json fails wrote change m fs =
     (case changed_policy change (pm_policy m) of
        (False, _) \<Rightarrow> (Inr \<lparr>pu_changed = False, pu_snapshot = policy_snapshot_of (pm_policy m)\<rparr>, m, [])
      | (True, candidate) \<Rightarrow>
     (case checked_add_u64 (rj_revision candidate) 1 of
        None \<Rightarrow> (Inl (StateText ''Agent Job policy revision overflow''), m, [])
      | Some revision \<Rightarrow>
          let candidate = candidate\<lparr>rj_revision := revision\<rparr>
          in case persist_policy to_json fails wrote m candidate fs of
               (Inl err, trace) \<Rightarrow> (Inl err, m, trace)
             | (Inr _, trace) \<Rightarrow>
                 (Inr \<lparr>pu_changed = True, pu_snapshot = policy_snapshot_of candidate\<rparr>,
                  m\<lparr>pm_policy := candidate\<rparr>, trace)))"

text \<open>The unreadable file gets a name of its own, which is returned here by its contents.\<close>

definition repair_policy ::
  "(bytes \<Rightarrow> policy_document option) \<Rightarrow> (policy_document \<Rightarrow> bytes) \<Rightarrow> (file_call \<Rightarrow> bool) \<Rightarrow> nat \<Rightarrow> state_files
   \<Rightarrow> bytes option aresult \<times> state_files list" where
  "repair_policy from_json to_json fails wrote fs =
     (if fails ExistsMain then (Inl (StateIo ''exists''), [])
      else if f_main fs \<noteq> None \<and> fails RenameMain then (Inl (StateIo ''rename''), [])
      else
        let moved = fs\<lparr>f_main := None\<rparr>
        in case load_policy from_json fails moved of
             Inl err \<Rightarrow> (Inl err, [moved])
           | Inr m \<Rightarrow>
               (case persist_policy to_json fails wrote m default_policy moved of
                  (Inl err, trace) \<Rightarrow> (Inl err, moved # trace)
                | (Inr _, trace) \<Rightarrow> (Inr (f_main fs), moved # trace)))"

section \<open>Ordered names\<close>

definition policy_ok :: "remote_job_policy \<Rightarrow> bool" where
  "policy_ok p \<longleftrightarrow> sorted (rj_denied_task_kinds p) \<and> distinct (rj_denied_task_kinds p) \<and>
     \<not> list_ex blank (rj_denied_task_kinds p)"

lemma bisect_step:
  assumes "low < high" "mid = low + (high - low) div 2"
  shows "bisect xs x low high =
    (if xs ! mid = x then True else if xs ! mid < x then bisect xs x (Suc mid) high else bisect xs x low mid)"
  using assms by (subst bisect.simps) (simp add: Let_def)

lemma bisect_iff:
  assumes "sorted xs" "high \<le> length xs"
  shows "bisect xs x low high \<longleftrightarrow> (\<exists>i. low \<le> i \<and> i < high \<and> xs ! i = x)"
  using assms
proof (induction xs x low high rule: bisect.induct)
  case (1 xs x low high)
  show ?case
  proof (cases "low < high")
    case True
    define mid where "mid = low + (high - low) div 2"
    have mid: "low \<le> mid" "mid < high" "mid < length xs" using True "1.prems" by (auto simp: mid_def)
    note step = bisect_step [OF True mid_def, of xs x]
    have IH: "\<not> xs ! mid = x \<Longrightarrow> xs ! mid < x \<Longrightarrow> bisect xs x (Suc mid) high \<longleftrightarrow> (\<exists>i. Suc mid \<le> i \<and> i < high \<and> xs ! i = x)"
      "\<not> xs ! mid = x \<Longrightarrow> \<not> xs ! mid < x \<Longrightarrow> bisect xs x low mid \<longleftrightarrow> (\<exists>i. low \<le> i \<and> i < mid \<and> xs ! i = x)"
      using "1.IH" [OF True mid_def] "1.prems" mid by auto
    have mono: "xs ! i \<le> xs ! k" if "i \<le> k" "k < high" for i k
      using sorted_nth_mono [OF "1.prems"(1), of i k] that "1.prems"(2) by simp
    consider (hit) "xs ! mid = x" | (right) "xs ! mid < x" | (left) "x < xs ! mid" by fastforce
    then show ?thesis
    proof cases
      case right
      then have "mid < i" if "i < high" "xs ! i = x" for i using mono [of i mid] that mid by fastforce
      then have "Suc mid \<le> i \<and> i < high \<and> xs ! i = x \<longleftrightarrow> low \<le> i \<and> i < high \<and> xs ! i = x" for i using mid(1) by fastforce
      moreover have "bisect xs x low high \<longleftrightarrow> (\<exists>i. Suc mid \<le> i \<and> i < high \<and> xs ! i = x)" using step IH(1) right less_imp_neq [OF right] by simp
      ultimately show ?thesis by simp
    next
      case left
      then have "i < mid" if "i < high" "xs ! i = x" for i using mono [of mid i] that by fastforce
      then have "low \<le> i \<and> i < mid \<and> xs ! i = x \<longleftrightarrow> low \<le> i \<and> i < high \<and> xs ! i = x" for i using mid(2) by fastforce
      moreover have "bisect xs x low high \<longleftrightarrow> (\<exists>i. low \<le> i \<and> i < mid \<and> xs ! i = x)" using step IH(2) less_imp_neq [OF left] less_not_sym [OF left] by simp
      ultimately show ?thesis by simp
    qed (use step mid in \<open>auto intro: exI [of _ mid]\<close>)
  qed (subst bisect.simps, auto)
qed

lemma denies_installed:
  assumes "policy_ok p"
  shows "policy_denies (policy_snapshot_of p) kind \<longleftrightarrow> check_installed p kind \<noteq> Inr ()"
  using assms
  by (auto simp: policy_denies_def policy_snapshot_of_def check_installed_def policy_ok_def bisect_iff in_set_conv_nth)

lemma changed_policy_facts:
  assumes "policy_ok p" and "\<And>k. change = AddTask k \<Longrightarrow> \<not> blank k" and "changed_policy change p = (c, q)"
  shows "policy_ok q" and "rj_revision q = rj_revision p" and "\<not> c \<Longrightarrow> q = p"
  using assms
  by (auto simp: changed_policy_def btree_insert_def btree_remove_def policy_ok_def sorted_insort distinct_insort
      set_insort_key list_ex_iff sorted_wrt_filter split: policy_change.splits if_splits prod.splits)

lemma policy_restored:
  assumes "policy_ok p"
  shows "policy_from_snapshot (policy_snapshot_of p) = Inr p"
  using assms
  by (simp add: policy_from_snapshot_def policy_snapshot_of_def policy_ok_def btree_of_def Let_def
      sorted_list_of_set.idem_if_sorted_distinct)

section \<open>A change and its file\<close>

definition policy_bytes :: "(policy_document \<Rightarrow> bytes) \<Rightarrow> remote_job_policy \<Rightarrow> bytes" where
  "policy_bytes to_json p = to_json \<lparr>pd_format_version = policy_format_version, pd_policy = policy_snapshot_of p\<rparr>"

definition next_policy :: "policy_change \<Rightarrow> remote_job_policy \<Rightarrow> remote_job_policy" where
  "next_policy change p = (snd (changed_policy change p))\<lparr>rj_revision := rj_revision p + 1\<rparr>"

lemma load_policy_main:
  assumes "policy_ok p" "from_json (policy_bytes to_json p) =
      Some \<lparr>pd_format_version = policy_format_version, pd_policy = policy_snapshot_of p\<rparr>"
    and "f_main fs = Some (policy_bytes to_json p)"
  shows "load_policy from_json (\<lambda>_. False) fs = Inr \<lparr>pm_persistence = PolicyFile, pm_policy = p\<rparr>"
  using assms by (simp add: load_policy_def decode_policy_document_def policy_restored)


lemma replace_main:
  "io_rule (\<lambda>fs. f_main fs \<in> {Some a, None, Some b}) (\<lambda>fs. f_main fs = Some a) (replace_file fails wrote b)
    (\<lambda>fs. f_main fs = Some b)"
proof -
  let ?safe = "\<lambda>fs. f_main fs \<in> {Some a, None, Some b}"
  let ?same = "\<lambda>fs. f_main fs = Some a"
  let ?written = "\<lambda>fs. f_main fs = Some a \<and> f_new fs = Some b"
  let ?moved = "\<lambda>fs. f_main fs = None \<and> f_backup fs = Some a \<and> f_new fs = Some b"
  let ?placed = "\<lambda>fs. f_main fs = Some b"
  have "io_rule ?safe ?same (write_new fails wrote b) ?written"
    by (auto simp: io_rule_def write_new_def Let_def list_all_iff)
  moreover have "io_rule ?safe ?written (move_main fails) ?moved"
    by (auto simp: io_rule_def move_main_def must_def)
  moreover have "io_rule ?safe ?moved (move_new fails) ?placed"
    by (auto simp: io_rule_def move_new_def)
  moreover have "io_rule ?safe ?written (try_to fails RemoveBackup (\<lambda>fs. fs\<lparr>f_backup := None\<rparr>)) ?written"
    "io_rule ?safe ?placed (try_to fails RemoveBackup (\<lambda>fs. fs\<lparr>f_backup := None\<rparr>)) ?placed"
    by (auto intro!: io_rule_try)
  moreover have "io_rule ?safe ?same (must fails CreateDir id) ?same" "io_rule ?safe ?written (must fails SyncNew id) ?written"
    "io_rule ?safe ?same (must fails CreateNew (\<lambda>fs. fs\<lparr>f_new := Some []\<rparr>)) ?same"
    by (auto intro!: io_rule_must)
  ultimately show ?thesis unfolding replace_file_def by (blast intro: io_rule_then)
qed

lemma apply_policy_persists:
  assumes "fst (changed_policy change p)" "rj_revision p \<noteq> - 1" "policy_ok p" "\<And>k. change = AddTask k \<Longrightarrow> \<not> blank k"
    and "apply_policy to_json fails wrote change \<lparr>pm_persistence = PolicyFile, pm_policy = p\<rparr> fs = (res, m, trace)"
  shows "snd (replace_file fails wrote (policy_bytes to_json (next_policy change p)) fs) = trace"
    and "isl (fst (replace_file fails wrote (policy_bytes to_json (next_policy change p)) fs)) = isl res"
    and "policy_ok (next_policy change p)" and "\<not> isl res \<Longrightarrow> pm_policy m = next_policy change p" and "isl res \<Longrightarrow> pm_policy m = p"
proof -
  obtain q where q: "changed_policy change p = (True, q)" using assms(1) by (cases "changed_policy change p") auto
  have f: "policy_ok q" "rj_revision q = rj_revision p" using changed_policy_facts [OF assms(3,4) q] by auto
  have n: "next_policy change p = q\<lparr>rj_revision := rj_revision p + 1\<rparr>" by (simp add: next_policy_def q)
  show "policy_ok (next_policy change p)" using f(1) by (simp add: n policy_ok_def)
  show "snd (replace_file fails wrote (policy_bytes to_json (next_policy change p)) fs) = trace"
    "isl (fst (replace_file fails wrote (policy_bytes to_json (next_policy change p)) fs)) = isl res"
    "\<not> isl res \<Longrightarrow> pm_policy m = next_policy change p" "isl res \<Longrightarrow> pm_policy m = p"
    using assms(2,5) f(2)
    by (auto simp: apply_policy_def q n Let_def checked_add_u64_1 persist_policy_def policy_bytes_def split: prod.splits sum.splits)
qed

text \<open>
  C35: A change of the policy is either refused and leaves the Agent with the old policy, or the
  Agent has the new one, with the next revision, and reads it back at its next start. But the file
  is replaced in two renames and read from its main place only, so that a process cut off in
  between starts with the empty policy, which allows every Task of the Server; nothing else can be
  read after a cut than the old policy, the new one and the empty one.
\<close>

theorem policy_change_fails_open:
  assumes "policy_ok p" "fst (changed_policy change p)" "rj_revision p \<noteq> - 1" "\<And>k. change = AddTask k \<Longrightarrow> \<not> blank k"
    and "from_json (policy_bytes to_json p) = Some \<lparr>pd_format_version = policy_format_version, pd_policy = policy_snapshot_of p\<rparr>"
    and "from_json (policy_bytes to_json (next_policy change p)) =
      Some \<lparr>pd_format_version = policy_format_version, pd_policy = policy_snapshot_of (next_policy change p)\<rparr>"
    and "f_main fs = Some (policy_bytes to_json p)"
    and "apply_policy to_json fails wrote change \<lparr>pm_persistence = PolicyFile, pm_policy = p\<rparr> fs = (res, m, trace)"
  shows "pm_policy m = (if isl res then p else next_policy change p) \<and>
    (isl res \<or> load_policy from_json (\<lambda>_. False) (last (fs # trace)) = Inr \<lparr>pm_persistence = PolicyFile, pm_policy = next_policy change p\<rparr>) \<and>
    list_all (\<lambda>cut. load_policy from_json (\<lambda>_. False) cut \<in>
      (\<lambda>q. Inr \<lparr>pm_persistence = PolicyFile, pm_policy = q\<rparr>) ` {p, next_policy change p, default_policy}) trace \<and>
    (fails = (\<lambda>_. False) \<longrightarrow>
      list_ex (\<lambda>cut. load_policy from_json (\<lambda>_. False) cut = Inr \<lparr>pm_persistence = PolicyFile, pm_policy = default_policy\<rparr>) trace)"
proof -
  let ?q = "next_policy change p"
  let ?b = "policy_bytes to_json ?q"
  note ap = apply_policy_persists [OF assms(2,3,1,4,8)]
  have none: "load_policy from_json (\<lambda>_. False) cut = Inr \<lparr>pm_persistence = PolicyFile, pm_policy = default_policy\<rparr>"
    if "f_main cut = None" for cut using that by (simp add: load_policy_def)
  have old: "load_policy from_json (\<lambda>_. False) cut = Inr \<lparr>pm_persistence = PolicyFile, pm_policy = p\<rparr>"
    if "f_main cut = Some (policy_bytes to_json p)" for cut using load_policy_main [where to_json = to_json and from_json = from_json, OF assms(1,5) that] .
  have new: "load_policy from_json (\<lambda>_. False) cut = Inr \<lparr>pm_persistence = PolicyFile, pm_policy = ?q\<rparr>"
    if "f_main cut = Some ?b" for cut using load_policy_main [where to_json = to_json and from_json = from_json, OF ap(3) assms(6) that] .
  have rule: "list_all (\<lambda>cut. f_main cut \<in> {Some (policy_bytes to_json p), None, Some ?b}) trace"
    "\<not> isl res \<Longrightarrow> f_main (last (fs # trace)) = Some ?b"
    using replace_main [of "policy_bytes to_json p" ?b fails wrote] assms(7) ap(1,2) by (auto simp: io_rule_def)
  have "list_all (\<lambda>cut. load_policy from_json (\<lambda>_. False) cut \<in>
      (\<lambda>q. Inr \<lparr>pm_persistence = PolicyFile, pm_policy = q\<rparr>) ` {p, ?q, default_policy}) trace"
    using rule(1) none old new by (fastforce simp: list_all_iff)
  moreover have "list_ex (\<lambda>cut. load_policy from_json (\<lambda>_. False) cut = Inr \<lparr>pm_persistence = PolicyFile, pm_policy = default_policy\<rparr>) trace"
    if "fails = (\<lambda>_. False)"
  proof -
    have "fs\<lparr>f_new := Some ?b, f_backup := f_main fs, f_main := None\<rparr> \<in> set (snd (replace_file fails wrote ?b fs))"
      using assms(7) by (simp add: that replace_trace)
    then have "fs\<lparr>f_new := Some ?b, f_backup := f_main fs, f_main := None\<rparr> \<in> set trace" using ap(1) by simp
    then show ?thesis using none by (force simp: list_ex_iff)
  qed
  ultimately show ?thesis using ap(4,5) rule(2) new by (auto simp del: last.simps)
qed


definition sample_policy :: remote_job_policy where
  "sample_policy = \<lparr>rj_revision = 4, rj_deny_all = False, rj_denied_task_kinds = [''smalux.collect.process.v1'']\<rparr>"

definition sample_policy_document :: "remote_job_policy \<Rightarrow> policy_document" where
  "sample_policy_document p = \<lparr>pd_format_version = policy_format_version, pd_policy = policy_snapshot_of p\<rparr>"

definition sample_policy_to_json :: "policy_document \<Rightarrow> bytes" where
  "sample_policy_to_json d = (if py_deny_all (pd_policy d) then [1, 1] else [2, 2])"

definition sample_policy_from_json :: "bytes \<Rightarrow> policy_document option" where
  "sample_policy_from_json b =
     (if b = [1, 1] then Some (sample_policy_document (next_policy DenyAll sample_policy))
      else if b = [2, 2] then Some (sample_policy_document sample_policy) else None)"

definition sample_policy_files :: state_files where
  "sample_policy_files = \<lparr>f_main = Some [2, 2], f_new = None, f_backup = None\<rparr>"

text \<open>An operator denies all Jobs of the Server; cut off between the renames, the Agent allows them all.\<close>

theorem policy_change_fails_open_witness:
  "list_ex (\<lambda>cut. load_policy sample_policy_from_json (\<lambda>_. False) cut = Inr \<lparr>pm_persistence = PolicyFile, pm_policy = default_policy\<rparr>)
    (snd (snd (apply_policy sample_policy_to_json (\<lambda>_. False) 0 DenyAll
      \<lparr>pm_persistence = PolicyFile, pm_policy = sample_policy\<rparr> sample_policy_files)))"
proof -
  have "policy_ok sample_policy" by (simp add: policy_ok_def sample_policy_def blank_def)
  moreover have "fst (changed_policy DenyAll sample_policy)" "rj_revision sample_policy \<noteq> - 1"
    by (simp_all add: changed_policy_def sample_policy_def)
  moreover obtain res m trace where a: "apply_policy sample_policy_to_json (\<lambda>_. False) 0 DenyAll
      \<lparr>pm_persistence = PolicyFile, pm_policy = sample_policy\<rparr> sample_policy_files = (res, m, trace)" by (metis prod_cases3)
  moreover have json: "sample_policy_from_json (policy_bytes sample_policy_to_json q) = Some (sample_policy_document q)"
    if "q = sample_policy \<or> q = next_policy DenyAll sample_policy" for q
    using that by (auto simp: policy_bytes_def sample_policy_to_json_def sample_policy_from_json_def
        policy_snapshot_of_def next_policy_def changed_policy_def sample_policy_def)
  moreover have "f_main sample_policy_files = Some (policy_bytes sample_policy_to_json sample_policy)"
    by (simp add: sample_policy_files_def policy_bytes_def sample_policy_to_json_def policy_snapshot_of_def sample_policy_def)
  ultimately show ?thesis
    using policy_change_fails_open [where p = sample_policy and change = DenyAll and from_json = sample_policy_from_json and
        to_json = sample_policy_to_json and fs = sample_policy_files and fails = "\<lambda>_. False" and wrote = 0]
    by (simp add: sample_policy_document_def)
qed

end
