(* ===== verification/Ready_Queue.thy ===== *)
theory Ready_Queue
  imports Sched_Model
begin

text \<open>
  The queue of executions that are due and wait for a concurrency slot
  (\<open>scheduler/queue.rs\<close>): the timer entries, the pending executions, the sort key with
  its \<open>Ord\<close> instance, and \<open>ReadyQueue\<close> with every operation. The order of the keys is
  an instance of \<open>linorder\<close>, and the standard library's \<open>BinaryHeap\<close> is the interface
  \<open>max_heap\<close>, interpreted by lists that are sorted in descending order.
\<close>

section \<open>Timer entries and pending executions\<close>

datatype timer_kind =
    TimerNormal
  | TimerRunNow
  | TimerRetry (tk_run_id: run_id) (tk_scheduled_at: time) (tk_attempt: u32)

record timer_entry =
  te_job_id :: job_id
  te_version :: u64
  te_run_at :: time
  te_kind :: timer_kind

datatype pending_kind = PNormal | POnce | PRunNow | PRetry

definition is_replaceable_trigger :: "pending_kind \<Rightarrow> bool" where
  "is_replaceable_trigger k = (case k of PNormal \<Rightarrow> True | _ \<Rightarrow> False)"

record pending_execution =
  pe_job_id :: job_id
  pe_version :: u64
  pe_run_id :: run_id
  pe_attempt :: u32
  pe_scheduled_at :: time
  pe_kind :: pending_kind
  pe_priority :: job_priority
  pe_batch_id :: u64

section \<open>The sort key\<close>

datatype ready_key = ReadyKey
  (rk_batch_id: u64) (rk_priority: job_priority) (rk_scheduled_at: time)
  (rk_sequence: u64) (rk_run_id: run_id)

definition ready_key_cmp :: "ready_key \<Rightarrow> ready_key \<Rightarrow> ordering" where
  "ready_key_cmp a b =
     then_with (then_with (then_with (then_with
       (cmp (rk_batch_id b) (rk_batch_id a))
       (cmp (rk_priority a) (rk_priority b)))
       (cmp (rk_scheduled_at b) (rk_scheduled_at a)))
       (cmp (rk_sequence b) (rk_sequence a)))
       (cmp (rk_run_id a) (rk_run_id b))"

lemma lawful_ready_key_cmp: "lawful ready_key_cmp"
  unfolding ready_key_cmp_def [abs_def]
  by (intro lawful_then_with lawful_cmp lawful_cmp_rev)

lemma ready_key_cmp_Equal: "ready_key_cmp a b = Equal \<longleftrightarrow> a = b"
  by (auto simp: ready_key_cmp_def ready_key.expand)

instantiation ready_key :: linorder
begin

definition less_eq_ready_key :: "ready_key \<Rightarrow> ready_key \<Rightarrow> bool" where
  "less_eq_ready_key a b \<longleftrightarrow> ready_key_cmp a b \<noteq> Greater"

definition less_ready_key :: "ready_key \<Rightarrow> ready_key \<Rightarrow> bool" where
  "less_ready_key a b \<longleftrightarrow> ready_key_cmp a b = Less"

instance
proof
  fix a b c :: ready_key
  have flip: "ready_key_cmp b a = reverse_ordering (ready_key_cmp a b)"
    by (rule lawful_flip [OF lawful_ready_key_cmp])
  show "(a < b) = (a \<le> b \<and> \<not> b \<le> a)" and "a \<le> b \<or> b \<le> a"
    unfolding less_ready_key_def less_eq_ready_key_def flip
    by (cases "ready_key_cmp a b"; simp)+
  show "a \<le> a"
    by (simp add: less_eq_ready_key_def ready_key_cmp_Equal [THEN iffD2])
  show "a \<le> b \<Longrightarrow> b \<le> c \<Longrightarrow> a \<le> c"
    unfolding less_eq_ready_key_def by (rule lawful_not_greater_trans [OF lawful_ready_key_cmp])
  show "a \<le> b \<Longrightarrow> b \<le> a \<Longrightarrow> a = b"
    unfolding less_eq_ready_key_def flip
    by (cases "ready_key_cmp a b") (auto simp: ready_key_cmp_Equal)
qed

end

section \<open>BinaryHeap\<close>

text \<open>\<open>std::collections::BinaryHeap\<close> as the queue uses it: \<open>push\<close>, \<open>pop\<close> of a
  greatest element, \<open>extend\<close>, \<open>len\<close>. The model keeps the elements in descending order.\<close>

fun heap_push :: "'a::linorder \<Rightarrow> 'a list \<Rightarrow> 'a list" where
  "heap_push k [] = [k]"
| "heap_push k (x # h) = (if x \<le> k then k # x # h else x # heap_push k h)"

fun heap_pop :: "'a::linorder list \<Rightarrow> ('a \<times> 'a list) option" where
  "heap_pop [] = None"
| "heap_pop (x # h) = Some (x, h)"

definition heap_extend :: "'a::linorder list \<Rightarrow> 'a list \<Rightarrow> 'a list" where
  "heap_extend ks h = fold heap_push ks h"

locale max_heap =
  fixes empty :: "'h"
    and push :: "'a::linorder \<Rightarrow> 'h \<Rightarrow> 'h"
    and pop :: "'h \<Rightarrow> ('a \<times> 'h) option"
    and elems :: "'h \<Rightarrow> 'a multiset"
    and invar :: "'h \<Rightarrow> bool"
  assumes elems_empty: "elems empty = {#}"
    and elems_push: "invar h \<Longrightarrow> elems (push k h) = add_mset k (elems h)"
    and pop_None: "invar h \<Longrightarrow> pop h = None \<longleftrightarrow> elems h = {#}"
    and pop_elems: "invar h \<Longrightarrow> pop h = Some (k, h') \<Longrightarrow> elems h = add_mset k (elems h')"
    and pop_max: "invar h \<Longrightarrow> pop h = Some (k, h') \<Longrightarrow> x \<in># elems h' \<Longrightarrow> x \<le> k"
    and invar_empty: "invar empty"
    and invar_push: "invar h \<Longrightarrow> invar (push k h)"
    and invar_pop: "invar h \<Longrightarrow> pop h = Some (k, h') \<Longrightarrow> invar h'"
begin

lemma invar_fold_push: "invar h \<Longrightarrow> invar (fold push ks h)"
  by (induction ks arbitrary: h) (auto intro: invar_push)

lemma elems_fold_push: "invar h \<Longrightarrow> elems (fold push ks h) = mset ks + elems h"
  by (induction ks arbitrary: h) (auto simp: elems_push invar_push)

lemma pop_push_never_None: "invar h \<Longrightarrow> pop (push k h) \<noteq> None"
  by (simp add: pop_None invar_push elems_push)

end

abbreviation desc :: "'a::linorder list \<Rightarrow> bool" where
  "desc h \<equiv> sorted_wrt (\<ge>) h"

lemma mset_heap_push: "mset (heap_push k h) = add_mset k (mset h)"
  by (induction h) auto

lemma set_heap_push [simp]: "set (heap_push k h) = insert k (set h)"
  by (metis mset_heap_push set_mset_add_mset_insert set_mset_mset)

lemma desc_heap_push: "desc h \<Longrightarrow> desc (heap_push k h)"
  by (induction h) (auto intro: order.trans)

lemma length_heap_push [simp]: "length (heap_push k h) = Suc (length h)"
  by (induction h) auto

interpretation std_heap: max_heap "[]" heap_push heap_pop mset desc
proof (unfold_locales, goal_cases)
  case 2 show ?case by (rule mset_heap_push)
next
  case (3 h) then show ?case by (cases h) auto
next
  case (4 h k h') then show ?case by (cases h) auto
next
  case (5 h k h' x) then show ?case by (cases h) auto
next
  case 7 then show ?case by (rule desc_heap_push)
next
  case (8 h k h') then show ?case by (cases h) auto
qed simp_all

lemma desc_heap_extend: "desc h \<Longrightarrow> desc (heap_extend ks h)"
  unfolding heap_extend_def by (rule std_heap.invar_fold_push)

lemma mset_heap_extend: "desc h \<Longrightarrow> mset (heap_extend ks h) = mset ks + mset h"
  unfolding heap_extend_def by (rule std_heap.elems_fold_push)

lemma set_heap_extend [simp]: "set (heap_extend ks h) = set ks \<union> set h"
  unfolding heap_extend_def by (induction ks arbitrary: h) auto

section \<open>ReadyQueue\<close>

record ready_queue =
  rq_heap :: "ready_key list"
  rq_pending :: "(run_id \<times> pending_execution) list"
  rq_sequence :: u64

definition rq_new :: ready_queue where
  "rq_new = \<lparr>rq_heap = [], rq_pending = [], rq_sequence = 0\<rparr>"

definition rq_len :: "ready_queue \<Rightarrow> nat" where
  "rq_len q = length (rq_pending q)"

definition rq_is_empty :: "ready_queue \<Rightarrow> bool" where
  "rq_is_empty q \<longleftrightarrow> rq_pending q = []"

definition rq_values :: "ready_queue \<Rightarrow> pending_execution list" where
  "rq_values q = map snd (rq_pending q)"

definition rq_count_job :: "ready_queue \<Rightarrow> job_id \<Rightarrow> nat" where
  "rq_count_job q j = length (filter (\<lambda>p. pe_job_id p = j) (rq_values q))"

definition key_for :: "u64 \<Rightarrow> pending_execution \<Rightarrow> ready_key" where
  "key_for seq p =
     ReadyKey (pe_batch_id p) (pe_priority p) (pe_scheduled_at p) seq (pe_run_id p)"

text \<open>Rebuilding the heap numbers the pending executions again, in iteration order.\<close>

fun rebuild_heap :: "pending_execution list \<Rightarrow> u64 \<Rightarrow> ready_key list \<Rightarrow> ready_key list \<times> u64" where
  "rebuild_heap [] seq h = (h, seq)"
| "rebuild_heap (p # ps) seq h = rebuild_heap ps (seq + 1) (heap_push (key_for (seq + 1) p) h)"

definition compact_if_needed :: "ready_queue \<Rightarrow> ready_queue" where
  "compact_if_needed q =
     (if length (rq_heap q)
           \<le> usize_saturating_add (usize_saturating_mul (length (rq_pending q)) 2) 64
      then q
      else let (h, seq) = rebuild_heap (rq_values q) (rq_sequence q) []
           in q\<lparr>rq_heap := h, rq_sequence := seq\<rparr>)"

definition rq_insert :: "pending_execution \<Rightarrow> ready_queue \<Rightarrow> ready_queue" where
  "rq_insert p q =
     (let seq = rq_sequence q + 1
      in compact_if_needed
           (q\<lparr>rq_sequence := seq,
              rq_heap := heap_push (key_for seq p) (rq_heap q),
              rq_pending := AList.update (pe_run_id p) p (rq_pending q)\<rparr>))"

text \<open>
  The loop of \<open>pop_dispatchable\<close>. The keys that cannot run yet are collected and go back
  into the heap once a key that can run is found. Where the heap runs out first, the
  \<open>?\<close> after \<open>heap.pop()\<close> returns from the function at once.
\<close>

fun pop_loop ::
  "(pending_execution \<Rightarrow> bool) \<Rightarrow> (run_id \<times> pending_execution) list \<Rightarrow>
   ready_key list \<Rightarrow> ready_key list \<Rightarrow>
   pending_execution option \<times> ready_key list \<times> (run_id \<times> pending_execution) list" where
  "pop_loop can_run pend [] blocked = (None, [], pend)"
| "pop_loop can_run pend (key # h) blocked =
     (case map_of pend (rk_run_id key) of
        None \<Rightarrow> pop_loop can_run pend h blocked
      | Some p \<Rightarrow>
          if can_run p
          then (Some p, heap_extend blocked h, AList.delete (rk_run_id key) pend)
          else pop_loop can_run pend h (blocked @ [key]))"

definition pop_dispatchable ::
  "(pending_execution \<Rightarrow> bool) \<Rightarrow> ready_queue \<Rightarrow> pending_execution option \<times> ready_queue" where
  "pop_dispatchable can_run q =
     (let (selected, h, pend) = pop_loop can_run (rq_pending q) (rq_heap q) []
      in (selected, q\<lparr>rq_heap := h, rq_pending := pend\<rparr>))"

text \<open>\<open>Iterator::min_by_key\<close> returns the first of several minimal elements.\<close>

fun min_by_key :: "('a \<Rightarrow> 'b::linorder) \<Rightarrow> 'a list \<Rightarrow> 'a option" where
  "min_by_key f [] = None"
| "min_by_key f (x # xs) =
     Some (case min_by_key f xs of None \<Rightarrow> x | Some y \<Rightarrow> if f y < f x then y else x)"

definition remove_oldest_trigger ::
  "job_id \<Rightarrow> ready_queue \<Rightarrow> pending_execution option \<times> ready_queue" where
  "remove_oldest_trigger j q =
     (case min_by_key pe_scheduled_at
             (filter (\<lambda>p. pe_job_id p = j \<and> is_replaceable_trigger (pe_kind p)) (rq_values q)) of
        None \<Rightarrow> (None, q)
      | Some p \<Rightarrow> (map_of (rq_pending q) (pe_run_id p),
                   q\<lparr>rq_pending := AList.delete (pe_run_id p) (rq_pending q)\<rparr>))"

text \<open>\<open>HashMap::extract_if\<close>: the entries that satisfy the predicate leave the map.\<close>

definition rq_extract_if ::
  "(pending_execution \<Rightarrow> bool) \<Rightarrow> ready_queue \<Rightarrow> pending_execution list \<times> ready_queue" where
  "rq_extract_if P q =
     (filter P (rq_values q),
      q\<lparr>rq_pending := filter (\<lambda>(_, p). \<not> P p) (rq_pending q)\<rparr>)"

definition remove_normal_triggers ::
  "job_id \<Rightarrow> ready_queue \<Rightarrow> pending_execution list \<times> ready_queue" where
  "remove_normal_triggers j q =
     rq_extract_if (\<lambda>p. pe_job_id p = j \<and> is_replaceable_trigger (pe_kind p)) q"

definition remove_job :: "job_id \<Rightarrow> ready_queue \<Rightarrow> pending_execution list \<times> ready_queue" where
  "remove_job j q = rq_extract_if (\<lambda>p. pe_job_id p = j) q"

definition migrate_pending ::
  "job_id \<Rightarrow> u64 \<Rightarrow> job_priority \<Rightarrow> pending_execution \<Rightarrow> pending_execution" where
  "migrate_pending j v pr p =
     (if pe_job_id p = j then p\<lparr>pe_version := v, pe_priority := pr\<rparr> else p)"

fun push_keys :: "run_id list \<Rightarrow> ready_queue \<Rightarrow> ready_queue" where
  "push_keys [] q = q"
| "push_keys (r # rs) q =
     push_keys rs
       (case map_of (rq_pending q) r of
          None \<Rightarrow> q
        | Some p \<Rightarrow>
            q\<lparr>rq_sequence := rq_sequence q + 1,
              rq_heap := heap_push
                (ReadyKey (pe_batch_id p) (pe_priority p) (pe_scheduled_at p) (rq_sequence q + 1) r)
                (rq_heap q)\<rparr>)"

definition migrate_job :: "job_id \<Rightarrow> u64 \<Rightarrow> job_priority \<Rightarrow> ready_queue \<Rightarrow> ready_queue" where
  "migrate_job j v pr q =
     (let run_ids = map pe_run_id (filter (\<lambda>p. pe_job_id p = j) (rq_values q));
          q1 = q\<lparr>rq_pending := map (\<lambda>(r, p). (r, migrate_pending j v pr p)) (rq_pending q)\<rparr>
      in compact_if_needed (push_keys run_ids q1))"

definition rq_clear :: "ready_queue \<Rightarrow> ready_queue" where
  "rq_clear q = q\<lparr>rq_heap := [], rq_pending := []\<rparr>"

section \<open>Invariants of the queue\<close>

text \<open>The heap is ordered, the map is a map, and an entry is filed under its own run.\<close>

definition rq_inv :: "ready_queue \<Rightarrow> bool" where
  "rq_inv q \<longleftrightarrow>
     desc (rq_heap q) \<and> wf_map (rq_pending q) \<and>
     (\<forall>(r, p) \<in> set (rq_pending q). pe_run_id p = r)"

text \<open>Every pending execution has a key in the heap, so that a dispatch can find it.\<close>

definition rq_indexed :: "ready_queue \<Rightarrow> bool" where
  "rq_indexed q \<longleftrightarrow>
     fst ` set (rq_pending q) \<subseteq> rk_run_id ` set (rq_heap q)"

text \<open>The keys of a pending execution carry its batch, priority and planned time.\<close>

definition key_matches :: "ready_key \<Rightarrow> pending_execution \<Rightarrow> bool" where
  "key_matches k p \<longleftrightarrow>
     rk_batch_id k = pe_batch_id p \<and> rk_priority k = pe_priority p \<and>
     rk_scheduled_at k = pe_scheduled_at p"

definition rq_current :: "ready_queue \<Rightarrow> bool" where
  "rq_current q \<longleftrightarrow>
     (\<forall>k \<in> set (rq_heap q). \<forall>p. map_of (rq_pending q) (rk_run_id k) = Some p \<longrightarrow> key_matches k p)"

text \<open>The order the queue is meant to serve: older batches first, then higher priority,
  then the earlier planned time.\<close>

definition served_before :: "pending_execution \<Rightarrow> pending_execution \<Rightarrow> bool" where
  "served_before p p' \<longleftrightarrow>
     pe_batch_id p < pe_batch_id p' \<or>
     pe_batch_id p = pe_batch_id p' \<and> pe_priority p' < pe_priority p \<or>
     pe_batch_id p = pe_batch_id p' \<and> pe_priority p = pe_priority p' \<and>
       pe_scheduled_at p < pe_scheduled_at p'"

lemma served_before_key:
  assumes "key_matches k p" and "key_matches k' p'" and "served_before p p'"
  shows "k' < k"
  using assms
  by (auto simp: key_matches_def served_before_def less_ready_key_def ready_key_cmp_def)

section \<open>Taking an execution\<close>

lemma pop_loop_Some:
  "pop_loop f pend h bl = (Some p, h', pend') \<Longrightarrow>
     \<exists>pre k post. h = pre @ k # post \<and> map_of pend (rk_run_id k) = Some p \<and> f p \<and>
       (\<forall>x \<in> set pre. \<forall>p'. map_of pend (rk_run_id x) = Some p' \<longrightarrow> \<not> f p') \<and>
       h' = heap_extend (bl @ filter (\<lambda>x. map_of pend (rk_run_id x) \<noteq> None) pre) post \<and>
       pend' = AList.delete (rk_run_id k) pend"
proof (induction f pend h bl rule: pop_loop.induct)
  case (2 can_run pend key h blocked)
  show ?case
  proof (cases "map_of pend (rk_run_id key)")
    case None
    with "2.prems" have "pop_loop can_run pend h blocked = (Some p, h', pend')" by simp
    from "2.IH"(1) [OF None this] obtain pre k post where
      "h = pre @ k # post \<and> map_of pend (rk_run_id k) = Some p \<and> can_run p \<and>
       (\<forall>x \<in> set pre. \<forall>p'. map_of pend (rk_run_id x) = Some p' \<longrightarrow> \<not> can_run p') \<and>
       h' = heap_extend (blocked @ filter (\<lambda>x. map_of pend (rk_run_id x) \<noteq> None) pre) post \<and>
       pend' = AList.delete (rk_run_id k) pend" by blast
    with None show ?thesis by (intro exI [of _ "key # pre"]) auto
  next
    case (Some p0)
    show ?thesis
    proof (cases "can_run p0")
      case True
      with Some "2.prems" show ?thesis by (intro exI [of _ "[]"]) auto
    next
      case False
      with Some "2.prems" have "pop_loop can_run pend h (blocked @ [key]) = (Some p, h', pend')"
        by simp
      from "2.IH"(2) [OF Some False this] obtain pre k post where
        "h = pre @ k # post \<and> map_of pend (rk_run_id k) = Some p \<and> can_run p \<and>
         (\<forall>x \<in> set pre. \<forall>p'. map_of pend (rk_run_id x) = Some p' \<longrightarrow> \<not> can_run p') \<and>
         h' = heap_extend ((blocked @ [key]) @
                filter (\<lambda>x. map_of pend (rk_run_id x) \<noteq> None) pre) post \<and>
         pend' = AList.delete (rk_run_id k) pend" by blast
      with Some False show ?thesis by (intro exI [of _ "key # pre"]) auto
    qed
  qed
qed simp

lemma pop_loop_None:
  "pop_loop f pend h bl = (None, h', pend') \<longleftrightarrow>
     (\<forall>x \<in> set h. \<forall>p. map_of pend (rk_run_id x) = Some p \<longrightarrow> \<not> f p) \<and> h' = [] \<and> pend' = pend"
  by (induction f pend h bl rule: pop_loop.induct) (auto split: option.splits)

lemma pop_dispatchable_SomeE:
  assumes "pop_dispatchable f q = (Some p, q')"
  obtains pre k post where
    "rq_heap q = pre @ k # post" "map_of (rq_pending q) (rk_run_id k) = Some p" "f p"
    "\<forall>x \<in> set pre. \<forall>p'. map_of (rq_pending q) (rk_run_id x) = Some p' \<longrightarrow> \<not> f p'"
    "q' = q\<lparr>rq_heap := heap_extend
              (filter (\<lambda>x. map_of (rq_pending q) (rk_run_id x) \<noteq> None) pre) post,
            rq_pending := AList.delete (rk_run_id k) (rq_pending q)\<rparr>"
proof -
  obtain h pend where l: "pop_loop f (rq_pending q) (rq_heap q) [] = (Some p, h, pend)"
    and q': "q' = q\<lparr>rq_heap := h, rq_pending := pend\<rparr>"
    using assms by (auto simp: pop_dispatchable_def split: prod.splits)
  from pop_loop_Some [OF l] q' that show ?thesis by auto
qed

lemma pop_dispatchable_None:
  "pop_dispatchable f q = (None, q') \<longleftrightarrow>
     (\<forall>x \<in> set (rq_heap q). \<forall>p. map_of (rq_pending q) (rk_run_id x) = Some p \<longrightarrow> \<not> f p) \<and>
     q' = q\<lparr>rq_heap := []\<rparr>"
proof (cases "pop_loop f (rq_pending q) (rq_heap q) []")
  case (fields a b c)
  have "a = None \<longleftrightarrow>
      (\<forall>x \<in> set (rq_heap q). \<forall>p. map_of (rq_pending q) (rk_run_id x) = Some p \<longrightarrow> \<not> f p)"
    and "a = None \<Longrightarrow> b = [] \<and> c = rq_pending q"
    using fields pop_loop_None [of f "rq_pending q" "rq_heap q" "[]" b c]
      pop_loop_None [of f "rq_pending q" "rq_heap q" "[]" "[]" "rq_pending q"] by auto
  then show ?thesis using fields by (auto simp: pop_dispatchable_def)
qed

lemma rq_inv_run_id:
  "rq_inv q \<Longrightarrow> map_of (rq_pending q) r = Some p \<Longrightarrow> pe_run_id p = r"
  by (auto simp: rq_inv_def dest: map_of_SomeD)

lemma rq_values_map_of:
  "rq_inv q \<Longrightarrow> p \<in> set (rq_values q) \<longleftrightarrow> map_of (rq_pending q) (pe_run_id p) = Some p"
  unfolding rq_inv_def rq_values_def by (force simp: image_iff)

lemma pop_Some_pending:
  assumes "rq_inv q" and "pop_dispatchable f q = (Some p, q')"
  shows "map_of (rq_pending q) (pe_run_id p) = Some p" and "f p"
    and "rq_pending q' = AList.delete (pe_run_id p) (rq_pending q)"
  using assms by (auto elim!: pop_dispatchable_SomeE simp: rq_inv_run_id)

lemma pop_Some_len:
  assumes "rq_inv q" and "pop_dispatchable f q = (Some p, q')"
  shows "rq_len q' < rq_len q"
proof -
  have "pe_run_id p \<in> fst ` set (rq_pending q)"
    using pop_Some_pending(1) [OF assms] by (metis map_of_SomeD fst_conv image_eqI)
  then show ?thesis
    using pop_Some_pending(3) [OF assms] by (simp add: rq_len_def length_delete_less)
qed

text \<open>The number of pending executions drops even without the invariant: the key of the
  selected entry is in the map.\<close>

lemma pop_Some_len_any:
  assumes "pop_dispatchable f q = (Some p, q')"
  shows "rq_len q' < rq_len q"
  using assms
proof (rule pop_dispatchable_SomeE)
  fix pre k post
  assume "map_of (rq_pending q) (rk_run_id k) = Some p"
    and q': "q' = q\<lparr>rq_heap := heap_extend
              (filter (\<lambda>x. map_of (rq_pending q) (rk_run_id x) \<noteq> None) pre) post,
            rq_pending := AList.delete (rk_run_id k) (rq_pending q)\<rparr>"
  then have "rk_run_id k \<in> fst ` set (rq_pending q)"
    by (metis map_of_SomeD fst_conv image_eqI)
  then show ?thesis by (simp add: q' rq_len_def length_delete_less)
qed

section \<open>Every operation keeps the invariants\<close>

lemma rebuild_heap_spec:
  assumes "rebuild_heap ps seq h = (h', seq')" and "desc h"
  shows "desc h'" and "length h' = length ps + length h"
    and "rk_run_id ` set h' = pe_run_id ` set ps \<union> rk_run_id ` set h"
    and "\<And>k. k \<in> set h' \<Longrightarrow> k \<in> set h \<or> (\<exists>p \<in> set ps. \<exists>n. k = key_for n p)"
  using assms
proof (induction ps arbitrary: seq h)
  case (Cons p ps)
  {
    case 1 then show ?case by (auto intro: Cons.IH(1) desc_heap_push)
  next
    case 2 then show ?case by (auto dest: Cons.IH(2) simp: desc_heap_push)
  next
    case 3 then show ?case
      using Cons.IH(3) [of "seq + 1" "heap_push (key_for (seq + 1) p) h"]
      by (simp add: desc_heap_push key_for_def)
  next
    case (4 k)
    then have "rebuild_heap ps (seq + 1) (heap_push (key_for (seq + 1) p) h) = (h', seq')"
      and "desc (heap_push (key_for (seq + 1) p) h)" by (auto simp: desc_heap_push)
    from Cons.IH(4) [OF "4"(1) this] show ?case by auto
  }
qed auto

lemma compact_pending [simp]: "rq_pending (compact_if_needed q) = rq_pending q"
  by (auto simp: compact_if_needed_def split: prod.splits)

lemma compact_values [simp]: "rq_values (compact_if_needed q) = rq_values q"
  by (simp add: rq_values_def)

lemma compact_inv: "rq_inv q \<Longrightarrow> rq_inv (compact_if_needed q)"
  by (auto simp: compact_if_needed_def rq_inv_def dest: rebuild_heap_spec(1) split: prod.splits)

lemma rq_inv_keys: "rq_inv q \<Longrightarrow> fst ` set (rq_pending q) = pe_run_id ` set (rq_values q)"
  by (force simp: rq_inv_def rq_values_def image_iff)

lemma compact_indexed: "rq_inv q \<Longrightarrow> rq_indexed q \<Longrightarrow> rq_indexed (compact_if_needed q)"
  by (auto simp: compact_if_needed_def rq_indexed_def rq_inv_keys dest!: rebuild_heap_spec(3)
      split: prod.splits simp del: split_paired_All)

lemma compact_current: "rq_inv q \<Longrightarrow> rq_current q \<Longrightarrow> rq_current (compact_if_needed q)"
  unfolding compact_if_needed_def rq_current_def
  by (auto simp: key_for_def key_matches_def rq_values_map_of dest!: rebuild_heap_spec(4)
      split: prod.splits)

lemma compact_bound:
  "length (rq_heap (compact_if_needed q)) \<le> 2 * rq_len q + 64"
  by (auto simp: compact_if_needed_def rq_len_def usize_saturating_add_def
      usize_saturating_mul_def rq_values_def dest!: rebuild_heap_spec(2) split: prod.splits)

lemma insert_inv: "rq_inv q \<Longrightarrow> rq_inv (rq_insert p q)"
  unfolding rq_insert_def Let_def
  by (rule compact_inv) (auto simp: rq_inv_def desc_heap_push set_update_wf)

lemma insert_pending [simp]:
  "rq_pending (rq_insert p q) = AList.update (pe_run_id p) p (rq_pending q)"
  by (simp add: rq_insert_def Let_def)

lemma insert_indexed:
  assumes "rq_inv q" and "rq_indexed q"
  shows "rq_indexed (rq_insert p q)"
  unfolding rq_insert_def Let_def
proof (rule compact_indexed)
  show "rq_inv (q\<lparr>rq_sequence := rq_sequence q + 1,
      rq_heap := heap_push (key_for (rq_sequence q + 1) p) (rq_heap q),
      rq_pending := AList.update (pe_run_id p) p (rq_pending q)\<rparr>)"
    using assms(1) by (auto simp: rq_inv_def desc_heap_push set_update_wf)
  show "rq_indexed (q\<lparr>rq_sequence := rq_sequence q + 1,
      rq_heap := heap_push (key_for (rq_sequence q + 1) p) (rq_heap q),
      rq_pending := AList.update (pe_run_id p) p (rq_pending q)\<rparr>)"
    using assms(2) by (auto simp: rq_indexed_def dom_update key_for_def)
qed

lemma insert_current:
  assumes "rq_inv q" and "rq_current q" and "pe_run_id p \<notin> rk_run_id ` set (rq_heap q)"
  shows "rq_current (rq_insert p q)"
  unfolding rq_insert_def Let_def
proof (rule compact_current)
  show "rq_inv (q\<lparr>rq_sequence := rq_sequence q + 1,
      rq_heap := heap_push (key_for (rq_sequence q + 1) p) (rq_heap q),
      rq_pending := AList.update (pe_run_id p) p (rq_pending q)\<rparr>)"
    using assms(1) by (auto simp: rq_inv_def desc_heap_push set_update_wf)
  show "rq_current (q\<lparr>rq_sequence := rq_sequence q + 1,
      rq_heap := heap_push (key_for (rq_sequence q + 1) p) (rq_heap q),
      rq_pending := AList.update (pe_run_id p) p (rq_pending q)\<rparr>)"
    using assms(2,3) by (force simp: rq_current_def key_for_def key_matches_def split: if_splits)
qed

text \<open>Removing entries from the map keeps the heap, so the other entries stay indexed.\<close>

lemma pending_subset_inv:
  assumes "rq_inv q" and "set m \<subseteq> set (rq_pending q)" and "wf_map m"
  shows "rq_inv (q\<lparr>rq_pending := m\<rparr>)"
  using assms by (auto simp: rq_inv_def)

lemma pending_subset_indexed:
  assumes "rq_indexed q" and "set m \<subseteq> set (rq_pending q)"
  shows "rq_indexed (q\<lparr>rq_pending := m\<rparr>)"
  using assms by (force simp: rq_indexed_def)

lemma extract_if_inv: "rq_inv q \<Longrightarrow> rq_inv (snd (rq_extract_if P q))"
  by (auto simp: rq_extract_if_def rq_inv_def intro!: pending_subset_inv)

lemma extract_if_indexed: "rq_indexed q \<Longrightarrow> rq_indexed (snd (rq_extract_if P q))"
  by (auto simp: rq_extract_if_def intro!: pending_subset_indexed)

lemma remove_oldest_inv: "rq_inv q \<Longrightarrow> rq_inv (snd (remove_oldest_trigger j q))"
  by (auto simp: remove_oldest_trigger_def rq_inv_def set_delete split: option.splits)

lemma remove_oldest_indexed: "rq_indexed q \<Longrightarrow> rq_indexed (snd (remove_oldest_trigger j q))"
  by (auto simp: remove_oldest_trigger_def set_delete intro!: pending_subset_indexed
      split: option.splits)

lemma pop_Some_inv:
  assumes "rq_inv q" and "pop_dispatchable f q = (Some p, q')"
  shows "rq_inv q'"
  using assms(2)
proof (rule pop_dispatchable_SomeE)
  fix pre k post
  assume h: "rq_heap q = pre @ k # post"
    and q': "q' = q\<lparr>rq_heap := heap_extend
              (filter (\<lambda>x. map_of (rq_pending q) (rk_run_id x) \<noteq> None) pre) post,
            rq_pending := AList.delete (rk_run_id k) (rq_pending q)\<rparr>"
  from assms(1) h have "desc post" by (auto simp: rq_inv_def sorted_wrt_append)
  with assms(1) show ?thesis
    by (auto simp: q' rq_inv_def set_delete intro: desc_heap_extend)
qed

lemma pop_Some_indexed:
  assumes "rq_indexed q" and "pop_dispatchable f q = (Some p, q')"
  shows "rq_indexed q'"
  using assms(2)
proof (rule pop_dispatchable_SomeE)
  fix pre k post
  assume h: "rq_heap q = pre @ k # post"
    and q': "q' = q\<lparr>rq_heap := heap_extend
              (filter (\<lambda>x. map_of (rq_pending q) (rk_run_id x) \<noteq> None) pre) post,
            rq_pending := AList.delete (rk_run_id k) (rq_pending q)\<rparr>"
  show ?thesis
    unfolding rq_indexed_def
  proof
    fix r
    assume r: "r \<in> fst ` set (rq_pending q')"
    then have "r \<noteq> rk_run_id k" and rp: "r \<in> fst ` set (rq_pending q)"
      by (auto simp: q' set_delete)
    moreover from rp assms(1) h have "r \<in> rk_run_id ` set (pre @ k # post)"
      by (auto simp: rq_indexed_def)
    moreover from rp have "map_of (rq_pending q) r \<noteq> None"
      by (auto simp: map_of_eq_None_iff)
    ultimately show "r \<in> rk_run_id ` set (rq_heap q')" by (auto simp: q')
  qed
qed

lemma push_keys_pending [simp]: "rq_pending (push_keys rs q) = rq_pending q"
  by (induction rs q rule: push_keys.induct) (auto split: option.splits)

lemma push_keys_inv: "rq_inv q \<Longrightarrow> rq_inv (push_keys rs q)"
  by (induction rs q rule: push_keys.induct)
    (auto split: option.splits simp: rq_inv_def desc_heap_push)

lemma push_keys_heap: "set (rq_heap q) \<subseteq> set (rq_heap (push_keys rs q))"
proof (induction rs q rule: push_keys.induct)
  case (2 r rs q)
  then show ?case by (cases "map_of (rq_pending q) r") auto
qed simp

lemma map_of_map_snd:
  "map_of (map (\<lambda>(r, p). (r, g p)) m) r = map_option g (map_of m r)"
  by (induction m) auto

lemma migrate_run_id [simp]: "pe_run_id (migrate_pending j v pr p) = pe_run_id p"
  by (simp add: migrate_pending_def)

lemma migrate_inv: "rq_inv q \<Longrightarrow> rq_inv (migrate_job j v pr q)"
  unfolding migrate_job_def Let_def
  by (intro compact_inv push_keys_inv) (auto simp: rq_inv_def o_def case_prod_beta')

lemma migrate_indexed:
  assumes "rq_inv q" and "rq_indexed q"
  shows "rq_indexed (migrate_job j v pr q)"
proof -
  let ?q1 = "q\<lparr>rq_pending := map (\<lambda>(r, p). (r, migrate_pending j v pr p)) (rq_pending q)\<rparr>"
  let ?q2 = "push_keys (map pe_run_id (filter (\<lambda>p. pe_job_id p = j) (rq_values q))) ?q1"
  have "rq_inv ?q1"
    using assms(1) by (auto simp: rq_inv_def o_def case_prod_beta')
  then have "rq_inv ?q2" by (rule push_keys_inv)
  moreover have "rq_indexed ?q2"
  proof -
    have "fst ` set (rq_pending ?q2) = fst ` set (rq_pending q)"
      by (force simp: image_iff)
    moreover have "set (rq_heap q) \<subseteq> set (rq_heap ?q2)"
      using push_keys_heap [of ?q1] by simp
    ultimately show ?thesis using assms(2) unfolding rq_indexed_def by blast
  qed
  ultimately show ?thesis
    unfolding migrate_job_def Let_def by (rule compact_indexed)
qed

text \<open>With an index that is complete the search only fails when nothing can run.\<close>

lemma pop_None_blocked:
  assumes "rq_inv q" and "rq_indexed q" and "pop_dispatchable f q = (None, q')"
    and "p \<in> set (rq_values q)"
  shows "\<not> f p"
proof -
  have m: "map_of (rq_pending q) (pe_run_id p) = Some p"
    using assms(1,4) by (simp add: rq_values_map_of)
  then have "pe_run_id p \<in> fst ` set (rq_pending q)"
    by (metis map_of_SomeD fst_conv image_eqI)
  with assms(2) obtain k where "k \<in> set (rq_heap q)" "rk_run_id k = pe_run_id p"
    by (force simp: rq_indexed_def)
  with m assms(3) show ?thesis by (fastforce simp: pop_dispatchable_None)
qed

section \<open>The contract the scheduler relies on\<close>

text \<open>
  What the Actor uses of the queue: it keeps executions by their run, hands out one that
  may run, and lets a group go. A fact about every waiting execution survives each
  operation, and the length grows by one at most.
\<close>

locale pending_store =
  fixes inv :: "'q \<Rightarrow> bool"
    and vals :: "'q \<Rightarrow> pending_execution list"
    and put :: "pending_execution \<Rightarrow> 'q \<Rightarrow> 'q"
    and release :: "(pending_execution \<Rightarrow> bool) \<Rightarrow> 'q \<Rightarrow> pending_execution list \<times> 'q"
    and pop :: "(pending_execution \<Rightarrow> bool) \<Rightarrow> 'q \<Rightarrow> pending_execution option \<times> 'q"
  assumes put_inv: "inv q \<Longrightarrow> inv (put p q)"
    and put_vals: "inv q \<Longrightarrow>
      set (vals (put p q)) = insert p {x \<in> set (vals q). pe_run_id x \<noteq> pe_run_id p}"
    and put_length: "inv q \<Longrightarrow> length (vals (put p q)) \<le> Suc (length (vals q))"
    and release_inv: "inv q \<Longrightarrow> inv (snd (release P q))"
    and release_vals: "vals (snd (release P q)) = filter (\<lambda>p. \<not> P p) (vals q)"
    and pop_inv: "inv q \<Longrightarrow> pop f q = (r, q') \<Longrightarrow> inv q'"
    and pop_None: "pop f q = (None, q') \<Longrightarrow> vals q' = vals q"
    and pop_Some: "inv q \<Longrightarrow> pop f q = (Some p, q') \<Longrightarrow>
      f p \<and> p \<in> set (vals q) \<and> set (vals q') = set (vals q) - {p} \<and>
      length (vals q') < length (vals q)"
begin

lemma all_put:
  "inv q \<Longrightarrow> \<forall>x \<in> set (vals q). P x \<Longrightarrow> P p \<Longrightarrow> \<forall>x \<in> set (vals (put p q)). P x"
  by (simp add: put_vals)

lemma all_release: "\<forall>x \<in> set (vals q). P x \<Longrightarrow> \<forall>x \<in> set (vals (snd (release R q))). P x"
  by (simp add: release_vals)

lemma all_pop:
  "inv q \<Longrightarrow> pop f q = (r, q') \<Longrightarrow> \<forall>x \<in> set (vals q). P x \<Longrightarrow> \<forall>x \<in> set (vals q'). P x"
  by (cases r) (auto dest: pop_None pop_Some)

lemma pop_length: "inv q \<Longrightarrow> pop f q = (r, q') \<Longrightarrow> length (vals q') \<le> length (vals q)"
  by (cases r) (auto dest: pop_None pop_Some less_imp_le)

lemma release_length: "length (vals (snd (release P q))) \<le> length (vals q)"
  by (simp add: release_vals)

end

lemma extract_values [simp]:
  "rq_values (snd (rq_extract_if P q)) = filter (\<lambda>p. \<not> P p) (rq_values q)"
  by (simp add: rq_extract_if_def rq_values_def filter_map comp_def case_prod_unfold)

lemma insert_values:
  assumes "rq_inv q"
  shows "set (rq_values (rq_insert p q)) =
    insert p {x \<in> set (rq_values q). pe_run_id x \<noteq> pe_run_id p}"
  using assms unfolding rq_inv_def rq_values_def
  by (auto simp: set_update_wf image_iff case_prod_beta)

lemma insert_values_length:
  "length (rq_values (rq_insert p q)) \<le> Suc (length (rq_values q))"
  by (simp add: rq_values_def)
    (metis le_Suc_eq length_update_new length_update_old order_refl)

lemma delete_values:
  assumes "rq_inv q" and "map_of (rq_pending q) r = Some p"
  shows "set (map snd (AList.delete r (rq_pending q))) = set (rq_values q) - {p}"
proof (rule set_eqI)
  fix x
  have inv: "rq_inv (q\<lparr>rq_pending := AList.delete r (rq_pending q)\<rparr>)"
    using assms(1) by (intro pending_subset_inv) (auto simp: set_delete rq_inv_def)
  have "x \<in> set (map snd (AList.delete r (rq_pending q))) \<longleftrightarrow>
      pe_run_id x \<noteq> r \<and> map_of (rq_pending q) (pe_run_id x) = Some x"
    using rq_values_map_of [OF inv, of x] by (simp add: rq_values_def)
  also have "\<dots> \<longleftrightarrow> x \<in> set (rq_values q) - {p}"
    using rq_values_map_of [OF assms(1), of x] rq_inv_run_id [OF assms] assms(2) by auto
  finally show "x \<in> set (map snd (AList.delete r (rq_pending q))) \<longleftrightarrow> x \<in> set (rq_values q) - {p}" .
qed

lemma pop_None_values:
  "pop_dispatchable f q = (None, q') \<Longrightarrow> rq_values q' = rq_values q \<and> (rq_inv q \<longrightarrow> rq_inv q')"
  by (auto simp: rq_values_def rq_inv_def pop_dispatchable_None)

interpretation ready_store: pending_store rq_inv rq_values rq_insert rq_extract_if pop_dispatchable
proof
  fix q p f r q' P
  show "rq_inv q \<Longrightarrow> rq_inv (rq_insert p q)" by (rule insert_inv)
  show "rq_inv q \<Longrightarrow> set (rq_values (rq_insert p q)) =
      insert p {x \<in> set (rq_values q). pe_run_id x \<noteq> pe_run_id p}"
    by (rule insert_values)
  show "length (rq_values (rq_insert p q)) \<le> Suc (length (rq_values q))"
    by (rule insert_values_length)
  show "rq_inv q \<Longrightarrow> rq_inv (snd (rq_extract_if P q))" by (rule extract_if_inv)
  show "rq_values (snd (rq_extract_if P q)) = filter (\<lambda>p. \<not> P p) (rq_values q)" by simp
  show "rq_inv q'" if "rq_inv q" "pop_dispatchable f q = (r, q')"
    using that pop_None_values [of f q q'] pop_Some_inv [of q f _ q'] by (cases r) simp_all
  show "rq_values q' = rq_values q" if "pop_dispatchable f q = (None, q')"
    using pop_None_values [OF that] by simp
  show "f p \<and> p \<in> set (rq_values q) \<and> set (rq_values q') = set (rq_values q) - {p} \<and>
      length (rq_values q') < length (rq_values q)"
    if "rq_inv q" "pop_dispatchable f q = (Some p, q')"
  proof -
    note popped = pop_Some_pending [OF that]
    have "p \<in> set (rq_values q)" using popped(1) rq_values_map_of [OF that(1)] by simp
    moreover have "set (rq_values q') = set (rq_values q) - {p}"
      using delete_values [OF that(1) popped(1)] popped(3) by (simp add: rq_values_def)
    moreover have "length (rq_values q') < length (rq_values q)"
      using pop_Some_len [OF that] by (simp add: rq_len_def rq_values_def)
    ultimately show ?thesis using popped(2) by simp
  qed
qed

section \<open>Properties\<close>

text \<open>Concrete executions used by the witnesses.\<close>

definition sample_pending :: "job_id \<Rightarrow> run_id \<Rightarrow> job_priority \<Rightarrow> u64 \<Rightarrow> pending_execution" where
  "sample_pending j r pr b =
     \<lparr>pe_job_id = j, pe_version = 1, pe_run_id = r, pe_attempt = 1, pe_scheduled_at = 0,
      pe_kind = PNormal, pe_priority = pr, pe_batch_id = b\<rparr>"

definition sample_queue :: ready_queue where
  "sample_queue = rq_insert (sample_pending 2 20 5 2) (rq_insert (sample_pending 1 10 3 1) rq_new)"

lemmas queue_evals = sample_queue_def sample_pending_def rq_insert_def rq_new_def
  compact_if_needed_def usize_saturating_add_def usize_saturating_mul_def usize_max_def
  key_for_def less_eq_ready_key_def less_ready_key_def ready_key_cmp_def then_with_def cmp_def
  pop_dispatchable_def rq_values_def heap_extend_def

lemma sample_queue_eval:
  "sample_queue =
     \<lparr>rq_heap = [ReadyKey 1 3 0 1 10, ReadyKey 2 5 0 2 20],
      rq_pending = [(10, sample_pending 1 10 3 1), (20, sample_pending 2 20 5 2)],
      rq_sequence = 2\<rparr>"
  by (simp add: queue_evals)

lemma sample_queue_inv: "rq_inv sample_queue" "rq_indexed sample_queue" "rq_current sample_queue"
  by (simp_all add: sample_queue_eval rq_inv_def rq_indexed_def rq_current_def key_matches_def
      sample_pending_def less_eq_ready_key_def ready_key_cmp_def then_with_def cmp_def)



text \<open>
  C31: as long as every pending execution has its key in the heap, a blocked job does not
  hide another one: when some pending execution can run, \<open>pop_dispatchable\<close> finds one.
\<close>

theorem pop_finds_runnable:
  assumes "rq_inv q" and "rq_indexed q" and "p \<in> set (rq_values q)" and "can_run p"
  shows "\<exists>p' q'. pop_dispatchable can_run q = (Some p', q') \<and> can_run p' \<and> rq_indexed q'"
proof -
  obtain p' q' where pop: "pop_dispatchable can_run q = (Some p', q')"
    using pop_None_blocked [OF assms(1,2) _ assms(3)] assms(4)
    by (cases "pop_dispatchable can_run q"; cases "fst (pop_dispatchable can_run q)") auto
  with pop_Some_pending(2) [OF assms(1) pop] pop_Some_indexed [OF assms(2) pop] show ?thesis
    by blast
qed

theorem pop_finds_runnable_witness:
  "\<exists>p' q'. pop_dispatchable (\<lambda>p. pe_job_id p \<noteq> 1) sample_queue = (Some p', q') \<and>
     pe_job_id p' \<noteq> 1 \<and> rq_indexed q'"
  using pop_finds_runnable [OF sample_queue_inv(1,2), of "sample_pending 2 20 5 2" "\<lambda>p. pe_job_id p \<noteq> 1"]
  by (simp add: sample_queue_eval rq_values_def sample_pending_def)

text \<open>
  C40: when no pending execution can run, \<open>pop_dispatchable\<close> returns through the \<open>?\<close>
  before the collected keys go back into the heap. The executions stay in the map without
  a key, and no later call finds any of them, whatever can run by then.
\<close>

theorem blocked_pop_strands_pending:
  assumes "rq_inv q" and "\<forall>p \<in> set (rq_values q). \<not> can_run p"
  shows "fst (pop_dispatchable can_run q) = None \<and>
    rq_pending (snd (pop_dispatchable can_run q)) = rq_pending q \<and>
    (\<forall>can_run'. fst (pop_dispatchable can_run' (snd (pop_dispatchable can_run q))) = None)"
proof -
  have "\<forall>x \<in> set (rq_heap q). \<forall>p. map_of (rq_pending q) (rk_run_id x) = Some p \<longrightarrow> \<not> can_run p"
    using assms(2) by (force simp: rq_values_def dest: map_of_SomeD)
  then have pop: "pop_dispatchable can_run q = (None, q\<lparr>rq_heap := []\<rparr>)"
    by (simp add: pop_dispatchable_None)
  then show ?thesis by (simp add: pop_dispatchable_def)
qed

theorem blocked_pop_strands_pending_witness:
  "rq_len sample_queue = 2 \<and>
   fst (pop_dispatchable (\<lambda>_. True) (snd (pop_dispatchable (\<lambda>_. False) sample_queue))) = None"
  using blocked_pop_strands_pending [OF sample_queue_inv(1), of "\<lambda>_. False"]
  by (simp add: sample_queue_eval rq_len_def)



text \<open>
  C35: the keys of removed executions do not pile up: after every \<open>insert\<close> and every
  \<open>migrate_job\<close> the heap holds at most twice as many keys as there are pending
  executions, plus 64.
\<close>

theorem heap_stays_bounded:
  "length (rq_heap (rq_insert p q)) \<le> 2 * rq_len (rq_insert p q) + 64 \<and>
   length (rq_heap (migrate_job j v pr q)) \<le> 2 * rq_len (migrate_job j v pr q) + 64"
proof -
  have "length (rq_heap (compact_if_needed x)) \<le> 2 * rq_len (compact_if_needed x) + 64" for x
    using compact_bound [of x] by (simp add: rq_len_def)
  then show ?thesis by (simp only: rq_insert_def migrate_job_def Let_def)
qed

text \<open>
  C40: \<open>migrate_job\<close> writes a key with the new priority but leaves the old key in the heap,
  and the old key still leads to the execution. Lowering the priority of a pending job
  therefore has no effect on its turn: it is served before an execution of the same batch
  that now has precedence over it.
\<close>

theorem migrate_keeps_old_turn:
  assumes "pe_batch_id a = pe_batch_id b" and "pe_priority b < pe_priority a"
    and "pr < pe_priority b" and "pe_job_id a \<noteq> pe_job_id b" and "pe_run_id a \<noteq> pe_run_id b"
  shows "fst (pop_dispatchable (\<lambda>_. True)
           (migrate_job (pe_job_id a) v pr (rq_insert b (rq_insert a rq_new)))) =
         Some (a\<lparr>pe_version := v, pe_priority := pr\<rparr>) \<and>
         served_before b (a\<lparr>pe_version := v, pe_priority := pr\<rparr>)"
proof -
  have q: "rq_insert b (rq_insert a rq_new) =
      \<lparr>rq_heap = [key_for 1 a, key_for 2 b],
       rq_pending = [(pe_run_id a, a), (pe_run_id b, b)], rq_sequence = 2\<rparr>"
    using assms
    by (simp add: rq_insert_def rq_new_def compact_if_needed_def usize_saturating_add_def
        usize_saturating_mul_def usize_max_def key_for_def less_eq_ready_key_def
        ready_key_cmp_def)
  have "ReadyKey (pe_batch_id a) pr (pe_scheduled_at a) 3 (pe_run_id a) < key_for 1 a"
    using assms order.strict_trans [OF assms(3,2)]
    by (simp add: less_ready_key_def ready_key_cmp_def key_for_def)
  then have heap: "heap_push (ReadyKey (pe_batch_id a) pr (pe_scheduled_at a) 3 (pe_run_id a))
      [key_for 1 a, key_for 2 b] = key_for 1 a #
      heap_push (ReadyKey (pe_batch_id a) pr (pe_scheduled_at a) 3 (pe_run_id a)) [key_for 2 b]"
    by (auto dest: leD)
  have "fst (pop_dispatchable (\<lambda>_. True)
      (migrate_job (pe_job_id a) v pr (rq_insert b (rq_insert a rq_new))))
      = Some (a\<lparr>pe_version := v, pe_priority := pr\<rparr>)"
    using assms
    by (simp add: q heap migrate_job_def rq_values_def migrate_pending_def compact_if_needed_def
        usize_saturating_add_def usize_saturating_mul_def usize_max_def pop_dispatchable_def
        del: heap_push.simps) (simp add: key_for_def)
  then show ?thesis using assms by (auto simp: served_before_def)
qed

theorem migrate_keeps_old_turn_witness:
  "fst (pop_dispatchable (\<lambda>_. True)
      (migrate_job 1 2 0 (rq_insert (sample_pending 2 20 5 1)
        (rq_insert (sample_pending 1 10 10 1) rq_new)))) =
   Some ((sample_pending 1 10 10 1)\<lparr>pe_version := 2, pe_priority := 0\<rparr>)"
  using migrate_keeps_old_turn [of "sample_pending 1 10 10 1" "sample_pending 2 20 5 1" 0 2]
  by (simp add: sample_pending_def)

end
