(* ===== verification/Sched_Timing.thy ===== *)
theory Sched_Timing
  imports Sched_Model
begin

text \<open>
  When a Job runs (\<open>scheduler/runtime/timing.rs\<close>): validation of triggers and of the
  configuration, the first run, the executions a late timer produces under the misfire
  policies, the next occurrence, and the conversion of wall-clock instants to deadlines
  of the monotonic clock.

  The lemmas show that the next occurrence is always in the future, that an interval
  keeps its phase however late the timer is and that the closed formula finds the first
  occurrence that repeated addition would find, that catching up is bounded and in order,
  and that the saturating conversion returns the latest deadline the platform supports.
\<close>

section \<open>Policies and validation\<close>

definition effective_queue_policies ::
  "trigger \<Rightarrow> job_options \<Rightarrow> trigger_coalescing \<times> capacity_policy" where
  "effective_queue_policies tr opts =
     (let lossless = (is_once (tr_schedule tr) \<or> is_CatchUp (tr_misfire tr));
          coalescing = (case opt_coalescing opts of
             Some c \<Rightarrow> c | None \<Rightarrow> if lossless then KeepAll else KeepLatest);
          capacity = (case opt_capacity opts of
             Some c \<Rightarrow> c | None \<Rightarrow> if lossless then Backpressure else ReplaceOldestTrigger)
      in (coalescing, capacity))"

definition validate_config :: "scheduler_config \<Rightarrow> unit sresult" where
  "validate_config c =
     (if global_max_pending c = 0 \<or> default_job_max_pending c = 0 \<or> max_jobs c = 0
        \<or> event_channel_capacity c = 0 \<or> command_channel_capacity c = 0
        \<or> minimum_interval c = 0 \<or> minimum_retry_delay c = 0
        \<or> maximum_catch_up c = 0 \<or> maximum_retry_attempts c = 0
      then Inl (ActorError ''scheduler capacities and safety limits must be greater than zero'')
      else Inr ())"

text \<open>The three checks of \<open>validate_trigger\<close> after the one of the pending capacity, in
  the order of the code.\<close>

definition validate_schedule :: "env \<Rightarrow> schedule \<Rightarrow> scheduler_config \<Rightarrow> unit sresult" where
  "validate_schedule e sch c =
     (case sch of
        Interval ev _ \<Rightarrow>
          if ev < minimum_interval c
          then Inl (InvalidTrigger (IntervalBelow (minimum_interval c))) else Inr ()
      | Cron ex _ \<Rightarrow>
          (case cron_parse e ex of
             Some msg \<Rightarrow> Inl (InvalidTrigger (CronError msg)) | None \<Rightarrow> Inr ())
      | Once _ \<Rightarrow> Inr ())"

definition validate_misfire :: "trigger \<Rightarrow> job_options \<Rightarrow> scheduler_config \<Rightarrow> unit sresult" where
  "validate_misfire tr opts c =
     (case tr_misfire tr of
        CatchUp n \<Rightarrow>
          if maximum_catch_up c < n
          then Inl (InvalidTrigger (CatchUpExceeds (maximum_catch_up c)))
          else if effective_queue_policies tr opts \<noteq> (KeepAll, Backpressure)
          then Inl (InvalidTrigger CatchUpNeedsLossless)
          else Inr ()
      | _ \<Rightarrow> Inr ())"

definition validate_retry :: "execution_retry_policy \<Rightarrow> scheduler_config \<Rightarrow> unit sresult" where
  "validate_retry r c =
     (case r of
        Exponential ma idl mdl _ \<Rightarrow>
          if maximum_retry_attempts c < ma \<or> idl < minimum_retry_delay c \<or> mdl < idl
          then Inl InvalidRetry else Inr ()
      | RetryNone \<Rightarrow> Inr ())"

definition validate_trigger ::
  "env \<Rightarrow> trigger \<Rightarrow> job_options \<Rightarrow> scheduler_config \<Rightarrow> unit sresult" where
  "validate_trigger e tr opts c =
     (if opt_max_pending opts = Some 0 then Inl (InvalidTrigger PendingCapacityZero)
      else case validate_schedule e (tr_schedule tr) c of
        Inl err \<Rightarrow> Inl err
      | Inr _ \<Rightarrow>
          (case validate_misfire tr opts c of
             Inl err \<Rightarrow> Inl err
           | Inr _ \<Rightarrow> validate_retry (opt_retry opts) c))"

section \<open>Occurrences\<close>

definition next_after :: "env \<Rightarrow> schedule \<Rightarrow> time \<Rightarrow> time option sresult" where
  "next_after e sch after =
     (case sch of
        Once _ \<Rightarrow> Inr None
      | Interval ev _ \<Rightarrow>
          if delta_max e < ev then Inl (InvalidTrigger DeltaOutOfRange)
          else if datetime_ok e (after + int ev) then Inr (Some (after + int ev))
          else Inl (InvalidTrigger NextIntervalOverflowed)
      | Cron ex tz \<Rightarrow>
          (case cron_parse e ex of
             Some msg \<Rightarrow> Inl (InvalidTrigger (CronError msg))
           | None \<Rightarrow>
               (case cron_next e ex tz after of
                  Inl msg \<Rightarrow> Inl (InvalidTrigger (CronError msg))
                | Inr t \<Rightarrow> Inr (Some t))))"

definition first_run_at :: "env \<Rightarrow> trigger \<Rightarrow> time \<Rightarrow> time sresult" where
  "first_run_at e tr now =
     (case tr_schedule tr of
        Once at \<Rightarrow> Inr (max at now)
      | Interval _ start \<Rightarrow> Inr (case start of Some s \<Rightarrow> s | None \<Rightarrow> now)
      | Cron ex tz \<Rightarrow>
          (case next_after e (Cron ex tz) now of
             Inl err \<Rightarrow> Inl err
           | Inr None \<Rightarrow> Inl (InvalidTrigger CronNoFuture)
           | Inr (Some t) \<Rightarrow> Inr t))"

text \<open>Whole seconds and the nanoseconds within the second, as chrono stores an instant.\<close>

definition datetime_nanos :: "time \<Rightarrow> int" where
  "datetime_nanos t = (t div nanos_per_sec) * nanos_per_sec + t mod nanos_per_sec"

definition datetime_from_nanos :: "env \<Rightarrow> int \<Rightarrow> time sresult" where
  "datetime_from_nanos e v =
     (let seconds = v div nanos_per_sec; nanoseconds = v mod nanos_per_sec
      in if \<not> i64_ok seconds then Inl (InvalidTrigger FutureIntervalOverflowed)
         else if datetime_ok e (seconds * nanos_per_sec + nanoseconds)
         then Inr (seconds * nanos_per_sec + nanoseconds)
         else Inl (InvalidTrigger FutureIntervalOutOfRange))"

definition i128_saturating_sub :: "int \<Rightarrow> int \<Rightarrow> int" where
  "i128_saturating_sub a b = max (- (2 ^ 127)) (min (2 ^ 127 - 1) (a - b))"

definition next_future_occurrence :: "env \<Rightarrow> schedule \<Rightarrow> time \<Rightarrow> time \<Rightarrow> time option sresult" where
  "next_future_occurrence e sch anchor now =
     (case sch of
        Once _ \<Rightarrow> Inr None
      | Cron _ _ \<Rightarrow> next_after e sch now
      | Interval ev _ \<Rightarrow>
          if \<not> i128_ok (int ev) then Inl (InvalidTrigger IntervalTooLarge)
          else if ev = 0 then Inl (InvalidTrigger IntervalZero)
          else
            let anchor_nanos = datetime_nanos anchor;
                now_nanos = datetime_nanos now;
                elapsed = max (i128_saturating_sub now_nanos anchor_nanos) 0;
                steps = elapsed div int ev + 1
            in if \<not> i128_ok (steps * int ev) \<or> \<not> i128_ok (anchor_nanos + steps * int ev)
               then Inl (InvalidTrigger FutureIntervalOverflowed)
               else case datetime_from_nanos e (anchor_nanos + steps * int ev) of
                      Inl err \<Rightarrow> Inl err | Inr t \<Rightarrow> Inr (Some t))"

record due_schedule =
  ds_occurrences :: "time list"
  ds_next :: "time option"

text \<open>The loop of the \<open>CatchUp\<close> branch.\<close>

function catch_up_loop ::
  "env \<Rightarrow> schedule \<Rightarrow> time \<Rightarrow> nat \<Rightarrow> time list \<Rightarrow> time option \<Rightarrow> (time list \<times> time option) sresult" where
  "catch_up_loop e sch now limit occ nxt =
     (case nxt of
        Some v \<Rightarrow>
          if length occ < limit \<and> v \<le> now
          then (case next_after e sch v of
                  Inl err \<Rightarrow> Inl err
                | Inr n \<Rightarrow> catch_up_loop e sch now limit (occ @ [v]) n)
          else Inr (occ, nxt)
      | None \<Rightarrow> Inr (occ, nxt))"
  by pat_completeness auto
termination
  by (relation "measure (\<lambda>(e, sch, now, limit, occ, nxt). limit - length occ)") auto

declare catch_up_loop.simps [simp del]

definition past_due :: "time option \<Rightarrow> time \<Rightarrow> bool" where
  "past_due nxt now = (case nxt of Some v \<Rightarrow> v \<le> now | None \<Rightarrow> False)"

definition due_occurrences ::
  "env \<Rightarrow> trigger \<Rightarrow> time \<Rightarrow> time \<Rightarrow> u32 \<Rightarrow> due_schedule sresult" where
  "due_occurrences e tr scheduled_at now max_catch_up =
     (if is_once (tr_schedule tr)
      then Inr \<lparr>ds_occurrences = [scheduled_at], ds_next = None\<rparr>
      else case next_after e (tr_schedule tr) scheduled_at of
        Inl err \<Rightarrow> Inl err
      | Inr nxt \<Rightarrow>
          if \<not> past_due nxt now
          then Inr \<lparr>ds_occurrences = [scheduled_at], ds_next = nxt\<rparr>
          else
            (case tr_misfire tr of
               Skip \<Rightarrow>
                 (case next_future_occurrence e (tr_schedule tr) scheduled_at now of
                    Inl err \<Rightarrow> Inl err
                  | Inr n \<Rightarrow> Inr \<lparr>ds_occurrences = [], ds_next = n\<rparr>)
             | FireOnce \<Rightarrow>
                 (case next_future_occurrence e (tr_schedule tr) scheduled_at now of
                    Inl err \<Rightarrow> Inl err
                  | Inr n \<Rightarrow> Inr \<lparr>ds_occurrences = [now], ds_next = n\<rparr>)
             | CatchUp runs \<Rightarrow>
                 (case catch_up_loop e (tr_schedule tr) now (unat (min runs max_catch_up))
                         [scheduled_at] nxt of
                    Inl err \<Rightarrow> Inl err
                  | Inr (occ, n) \<Rightarrow>
                      if past_due n now
                      then (case next_future_occurrence e (tr_schedule tr) scheduled_at now of
                              Inl err \<Rightarrow> Inl err
                            | Inr n' \<Rightarrow> Inr \<lparr>ds_occurrences = occ, ds_next = n'\<rparr>)
                      else Inr \<lparr>ds_occurrences = occ, ds_next = n\<rparr>)))"

section \<open>Deadlines\<close>

text \<open>\<open>Instant::checked_add\<close> fails beyond the last instant of the platform.\<close>

definition instant_checked_add :: "env \<Rightarrow> instant \<Rightarrow> dur \<Rightarrow> instant option" where
  "instant_checked_add e t d = (if t + int d \<le> instant_max e then Some (t + int d) else None)"

function latest_search :: "env \<Rightarrow> instant \<Rightarrow> nat \<Rightarrow> nat \<Rightarrow> nat" where
  "latest_search e now lower upper =
     (if lower < upper
      then let middle = lower + (upper - lower + 1) div 2
           in if instant_checked_add e now (secs middle) \<noteq> None
              then latest_search e now middle upper
              else latest_search e now lower (middle - 1)
      else lower)"
  by pat_completeness auto
termination
  by (relation "measure (\<lambda>(e, now, lower, upper). upper - lower)") auto

declare latest_search.simps [simp del]

definition latest_supported_instant :: "env \<Rightarrow> instant \<Rightarrow> dur \<Rightarrow> instant" where
  "latest_supported_instant e now requested =
     (case instant_checked_add e now
             (secs (latest_search e now 0 (requested div 1000000000))) of
        Some t \<Rightarrow> t | None \<Rightarrow> now)"

definition to_instant :: "env \<Rightarrow> time \<Rightarrow> instant" where
  "to_instant e run_at =
     (let delay = nat (run_at - utc_now e)
      in case instant_checked_add e (instant_now e) delay of
           Some t \<Rightarrow> t
         | None \<Rightarrow> latest_supported_instant e (instant_now e) delay)"

section \<open>Arithmetic of the next occurrence\<close>

lemma datetime_nanos_id [simp]: "datetime_nanos t = t"
  by (simp add: datetime_nanos_def)

lemma datetime_from_nanos_Inr:
  "datetime_from_nanos e v = Inr t \<longleftrightarrow> i64_ok (v div nanos_per_sec) \<and> datetime_ok e v \<and> t = v"
  by (auto simp: datetime_from_nanos_def Let_def)

lemma first_multiple_after:
  fixes d n :: int
  assumes "0 < d" and "0 \<le> n"
  shows "n < (n div d + 1) * d" and "(n div d) * d \<le> n"
proof -
  have "n div d * d + n mod d = n" by (rule div_mult_mod_eq)
  moreover have "0 \<le> n mod d" "n mod d < d" using assms(1) by auto
  moreover have "(n div d + 1) * d = n div d * d + d" by (simp add: distrib_right)
  ultimately show "n < (n div d + 1) * d" and "(n div d) * d \<le> n"
    by linarith+
qed

text \<open>For an interval the closed formula lands on the first point of the grid
  \<open>anchor + k * every\<close> (\<open>k\<close> at least one) that lies after \<open>now\<close>.\<close>

lemma next_future_interval:
  assumes "next_future_occurrence e (Interval ev st) anchor now = Inr (Some t)"
    and "i128_ok (now - anchor)"
  shows "\<exists>k > 0. t = anchor + int k * int ev \<and> now < t \<and>
    (\<forall>j. 0 < j \<and> j < k \<longrightarrow> anchor + int j * int ev \<le> now)"
proof -
  let ?n = "max (now - anchor) 0"
  have sub: "i128_saturating_sub now anchor = now - anchor"
    using assms(2) by (auto simp: i128_saturating_sub_def i128_ok_def)
  have ev: "0 < int ev" and t: "t = anchor + (?n div int ev + 1) * int ev"
    using assms(1)
    by (auto simp: next_future_occurrence_def Let_def sub datetime_from_nanos_Inr
        split: if_splits sum.splits)
  define k where "k = nat (?n div int ev + 1)"
  have q: "0 \<le> ?n div int ev" using ev by (simp add: pos_imp_zdiv_nonneg_iff)
  then have k: "int k = ?n div int ev + 1" by (simp add: k_def)
  have bounds: "?n < (?n div int ev + 1) * int ev" "(?n div int ev) * int ev \<le> ?n"
    using first_multiple_after [OF ev, of ?n] by auto
  show ?thesis
  proof (intro exI [of _ k] conjI allI impI)
    show "0 < k" using k q by linarith
    show "t = anchor + int k * int ev" using t k by simp
    show "now < t" using t bounds(1) by linarith
    fix j
    assume j: "0 < j \<and> j < k"
    then have "int j \<le> ?n div int ev" using k by linarith
    then have le: "int j * int ev \<le> ?n div int ev * int ev"
      by (rule mult_right_mono) (use ev in simp)
    have "0 < int j * int ev" using j ev by simp
    with le bounds(2) show "anchor + int j * int ev \<le> now" by linarith
  qed
qed

lemma next_after_strict:
  assumes "cron_strict e" and "next_after e sch t = Inr (Some t')"
    and "\<And>ev st. sch = Interval ev st \<Longrightarrow> 0 < ev"
  shows "t < t'"
  using assms
  by (cases sch) (auto simp: next_after_def cron_strict_def split: if_splits option.splits sum.splits)

lemma next_future_after:
  assumes "cron_strict e" and "next_future_occurrence e sch anchor now = Inr (Some t)"
    and "i128_ok (now - anchor)"
  shows "now < t"
proof (cases sch)
  case (Interval ev st)
  with next_future_interval [of e ev st anchor now t] assms show ?thesis by auto
next
  case (Cron ex tz)
  with assms next_after_strict [OF assms(1), of sch now t] show ?thesis
    by (simp add: next_future_occurrence_def)
qed (use assms in \<open>simp add: next_future_occurrence_def\<close>)

section \<open>Catching up\<close>

text \<open>The occurrences a catch-up adds form a chain of \<open>next_after\<close> steps.\<close>

fun chain :: "env \<Rightarrow> schedule \<Rightarrow> time list \<Rightarrow> bool" where
  "chain e sch (x # y # ys) \<longleftrightarrow> next_after e sch x = Inr (Some y) \<and> chain e sch (y # ys)"
| "chain e sch _ \<longleftrightarrow> True"

lemma chain_snoc:
  "chain e sch (xs @ [x]) \<Longrightarrow> next_after e sch x = Inr (Some y) \<Longrightarrow> chain e sch (xs @ [x, y])"
proof (induction xs)
  case (Cons a xs)
  then show ?case by (cases xs) auto
qed simp

lemma catch_up_loop_spec:
  assumes "catch_up_loop e sch now limit occ nxt = Inr (occ', nxt')"
    and "occ = ini @ [x]" and "next_after e sch x = Inr nxt" and "chain e sch occ"
  shows "\<exists>more. occ' = occ @ more \<and> (\<forall>v \<in> set more. v \<le> now) \<and> chain e sch occ' \<and>
    length occ' \<le> max (length occ) limit \<and>
    next_after e sch (last occ') = Inr nxt' \<and>
    (past_due nxt' now \<longrightarrow> limit \<le> length occ')"
  using assms
proof (induction e sch now limit occ nxt arbitrary: ini x rule: catch_up_loop.induct)
  case (1 e sch now limit occ nxt)
  show ?case
  proof (cases "\<exists>v. nxt = Some v \<and> length occ < limit \<and> v \<le> now")
    case True
    then obtain v where v: "nxt = Some v" "length occ < limit" "v \<le> now" by blast
    with "1.prems"(1) obtain n where n: "next_after e sch v = Inr n"
      and rec: "catch_up_loop e sch now limit (occ @ [v]) n = Inr (occ', nxt')"
      by (subst (asm) catch_up_loop.simps) (auto split: sum.splits)
    have "chain e sch (occ @ [v])"
      using "1.prems"(2,3,4) v(1) chain_snoc [of e sch ini x v] by simp
    from "1.IH" [OF v(1) _ n rec _ n this] v obtain more where
      "occ' = (occ @ [v]) @ more \<and> (\<forall>v \<in> set more. v \<le> now) \<and> chain e sch occ' \<and>
       length occ' \<le> max (length (occ @ [v])) limit \<and>
       next_after e sch (last occ') = Inr nxt' \<and> (past_due nxt' now \<longrightarrow> limit \<le> length occ')"
      by blast
    with v show ?thesis by (intro exI [of _ "v # more"]) auto
  next
    case False
    with "1.prems"(1) have "occ' = occ \<and> nxt' = nxt"
      by (subst (asm) catch_up_loop.simps) (auto split: option.splits if_splits)
    with False "1.prems" show ?thesis
      by (auto simp: past_due_def not_less split: option.splits)
  qed
qed

lemma chain_sorted:
  assumes "chain e sch xs" and "\<And>t t'. next_after e sch t = Inr (Some t') \<Longrightarrow> t < t'"
  shows "sorted_wrt (<) xs"
  using assms
proof (induction e sch xs rule: chain.induct)
  case (1 e sch x y ys)
  then have "x < y" and "sorted_wrt (<) (y # ys)" by auto
  then show ?case by auto
qed auto

lemma chain_interval_nth:
  "chain e (Interval ev st) xs \<Longrightarrow> i < length xs \<Longrightarrow> xs ! i = hd xs + int i * int ev"
proof (induction e "Interval ev st" xs arbitrary: i rule: chain.induct)
  case (1 e x y ys)
  then have "y = x + int ev" by (auto simp: next_after_def split: if_splits)
  with 1 show ?case by (cases i) (auto simp: distrib_right)
qed auto

section \<open>The saturating conversion\<close>

lemma latest_search_spec:
  assumes "lower \<le> upper" and "now + int (secs lower) \<le> instant_max e"
    and "\<And>s. upper < s \<Longrightarrow> s \<le> bound \<Longrightarrow> instant_max e < now + int (secs s)"
  shows "lower \<le> latest_search e now lower upper \<and> latest_search e now lower upper \<le> upper \<and>
    now + int (secs (latest_search e now lower upper)) \<le> instant_max e \<and>
    (\<forall>s. latest_search e now lower upper < s \<and> s \<le> bound \<longrightarrow> instant_max e < now + int (secs s))"
  using assms
proof (induction e now lower upper rule: latest_search.induct)
  case (1 e now lower upper)
  show ?case
  proof (cases "lower < upper")
    case False
    then have "latest_search e now lower upper = lower"
      by (simp add: latest_search.simps [of e now lower upper])
    with False "1.prems" show ?thesis by auto
  next
    case True
    define mid where "mid = lower + (upper - lower + 1) div 2"
    have mid: "lower < mid" "mid \<le> upper" using True by (auto simp: mid_def)
    show ?thesis
    proof (cases "now + int (secs mid) \<le> instant_max e")
      case ok: True
      then have eq: "latest_search e now lower upper = latest_search e now mid upper"
        using True
        by (subst latest_search.simps) (simp add: Let_def mid_def instant_checked_add_def)
      have "instant_checked_add e now (secs mid) \<noteq> None"
        using ok by (simp add: instant_checked_add_def)
      from "1.IH"(1) [OF True mid_def this mid(2) ok "1.prems"(3)] mid show ?thesis
        unfolding eq by auto
    next
      case bad: False
      then have eq: "latest_search e now lower upper = latest_search e now lower (mid - 1)"
        using True
        by (subst latest_search.simps) (simp add: Let_def mid_def instant_checked_add_def)
      have beyond: "instant_max e < now + int (secs s)" if "mid - 1 < s" "s \<le> bound" for s
      proof -
        have "secs mid \<le> secs s" using that(1) by (simp add: secs_def)
        with bad show ?thesis by linarith
      qed
      have "\<not> instant_checked_add e now (secs mid) \<noteq> None"
        using bad by (simp add: instant_checked_add_def)
      moreover have "lower \<le> mid - 1" using mid(1) by simp
      ultimately show ?thesis
        using "1.IH"(2) [OF True mid_def _ _ "1.prems"(2) beyond] mid(2) unfolding eq by force
    qed
  qed
qed

section \<open>Properties\<close>

text \<open>A platform for the witnesses: no cron, clocks at zero, and chrono's ranges.\<close>

definition sample_env :: env where
  "sample_env =
     \<lparr>utc_now = 0, instant_now = 0, instant_max = 2 ^ 63 * 1000000000,
      cron_parse = (\<lambda>_. None), cron_next = (\<lambda>_ _ t. Inr (t + 60000000000)),
      datetime_ok = (\<lambda>t. \<bar>t\<bar> < 8000000000000 * 1000000000),
      delta_max = 9223372036854775807 * 1000000,
      new_v4 = (\<lambda>n. of_nat n), new_key = (\<lambda>ks. Suc (foldr max ks 0)),
      deadline_ok = (\<lambda>now t. t - now < 2 ^ 36 * 1000000)\<rparr>"

lemma sample_env_simps [simp]:
  "utc_now sample_env = 0" "instant_now sample_env = 0"
  "instant_max sample_env = 9223372036854775808000000000"
  "cron_parse sample_env = (\<lambda>_. None)"
  "cron_next sample_env = (\<lambda>_ _ t. Inr (t + 60000000000))"
  "datetime_ok sample_env = (\<lambda>t. \<bar>t\<bar> < 8000000000000000000000)"
  "delta_max sample_env = 9223372036854775807000000"
  "new_v4 sample_env = (\<lambda>n. of_nat n)" "new_key sample_env = (\<lambda>ks. Suc (foldr max ks 0))"
  "deadline_ok sample_env = (\<lambda>now t. t - now < 68719476736000000)"
  by (simp_all add: sample_env_def)

lemma sample_env_cron_strict: "cron_strict sample_env"
  by (auto simp: cron_strict_def)

lemma sample_next_future:
  assumes "0 \<le> anchor" and "anchor \<le> now" and "now < 4611686018427387904"
    and "0 < ev" and "ev < 4611686018427387904"
  shows "next_future_occurrence sample_env (Interval ev st) anchor now =
    Inr (Some (anchor + ((now - anchor) div int ev + 1) * int ev))"
proof -
  let ?n = "now - anchor" and ?v = "anchor + ((now - anchor) div int ev + 1) * int ev"
  have "?n div int ev * int ev \<le> ?n" "0 \<le> ?n div int ev * int ev"
    using first_multiple_after [of "int ev" ?n] assms by (auto simp: pos_imp_zdiv_nonneg_iff)
  then have le: "0 \<le> (?n div int ev + 1) * int ev" "(?n div int ev + 1) * int ev < 9223372036854775808"
    using assms by (auto simp: distrib_right)
  with assms have v: "0 \<le> ?v" "?v < 13835058055282163712" by auto
  then have "i64_ok (?v div nanos_per_sec)" by (auto simp: i64_ok_def)
  with v have "datetime_from_nanos sample_env ?v = Inr ?v" by (simp add: datetime_from_nanos_Inr)
  moreover have "i128_ok (int ev)" "i128_ok ((?n div int ev + 1) * int ev)" "i128_ok ?v"
    "i128_saturating_sub now anchor = ?n"
    using assms le v by (auto simp: i128_ok_def i128_saturating_sub_def)
  ultimately show ?thesis
    using assms by (simp add: next_future_occurrence_def)
qed

lemmas due_eval =
  due_occurrences_def is_once_def next_after_def past_due_def sample_next_future
  catch_up_loop.simps

lemma due_occurrences_cases:
  assumes "due_occurrences e tr at now mc = Inr ds" and "\<not> is_once (tr_schedule tr)"
  obtains (on_time) nxt where "next_after e (tr_schedule tr) at = Inr nxt" "\<not> past_due nxt now"
      "ds = \<lparr>ds_occurrences = [at], ds_next = nxt\<rparr>"
  | (skip) nxt n where "next_after e (tr_schedule tr) at = Inr nxt" "past_due nxt now"
      "tr_misfire tr = Skip" "next_future_occurrence e (tr_schedule tr) at now = Inr n"
      "ds = \<lparr>ds_occurrences = [], ds_next = n\<rparr>"
  | (fire_once) nxt n where "next_after e (tr_schedule tr) at = Inr nxt" "past_due nxt now"
      "tr_misfire tr = FireOnce" "next_future_occurrence e (tr_schedule tr) at now = Inr n"
      "ds = \<lparr>ds_occurrences = [now], ds_next = n\<rparr>"
  | (catch_up) nxt runs occ n n' where "next_after e (tr_schedule tr) at = Inr nxt"
      "past_due nxt now" "tr_misfire tr = CatchUp runs"
      "catch_up_loop e (tr_schedule tr) now (unat (min runs mc)) [at] nxt = Inr (occ, n)"
      "if past_due n now then next_future_occurrence e (tr_schedule tr) at now = Inr n' else n' = n"
      "ds = \<lparr>ds_occurrences = occ, ds_next = n'\<rparr>"
  using assms
  by (auto simp: due_occurrences_def split: sum.splits if_splits misfire_policy.splits prod.splits)

text \<open>
  a timer that fires, however late, leaves the job with a next run that lies strictly
  in the future, for every kind of schedule and every misfire policy.
\<close>

theorem next_run_in_future:
  assumes "cron_strict e" and "due_occurrences e tr at now mc = Inr ds"
    and "ds_next ds = Some t" and "i128_ok (now - at)"
  shows "now < t"
proof (cases "is_once (tr_schedule tr)")
  case True
  with assms(2,3) show ?thesis by (auto simp: due_occurrences_def)
next
  case False
  with assms(2) show ?thesis
    by (cases rule: due_occurrences_cases)
      (use assms(3) next_future_after [OF assms(1) _ assms(4)]
       in \<open>auto simp: past_due_def split: if_splits\<close>)
qed

theorem next_run_in_future_witness:
  "\<exists>ds t. due_occurrences sample_env (trigger_interval 1000) 0 10500 5 = Inr ds \<and>
     ds_next ds = Some t \<and> 10500 < t"
proof -
  have "due_occurrences sample_env (trigger_interval 1000) 0 10500 5 =
      Inr \<lparr>ds_occurrences = [], ds_next = Some 11000\<rparr>"
    by (simp add: due_eval trigger_interval_def)
  with next_run_in_future [OF sample_env_cron_strict this] show ?thesis
    by (simp add: i128_ok_def)
qed

text \<open>
  C32: an interval keeps its phase. Whatever the misfire policy does with the missed runs,
  the next one is the first point of the grid \<open>scheduled_at + k * every\<close> after the
  present moment, the point that adding the interval again and again would reach.
\<close>

theorem interval_keeps_phase:
  assumes "due_occurrences e tr at now mc = Inr ds" and "tr_schedule tr = Interval ev st"
    and "0 < ev" and "i128_ok (now - at)"
  shows "\<exists>k > 0. ds_next ds = Some (at + int k * int ev) \<and> now < at + int k * int ev \<and>
    (\<forall>j. 0 < j \<and> j < k \<longrightarrow> at + int j * int ev \<le> now)"
proof -
  have future: "\<exists>k > 0. n = Some (at + int k * int ev) \<and> now < at + int k * int ev \<and>
      (\<forall>j. 0 < j \<and> j < k \<longrightarrow> at + int j * int ev \<le> now)"
    if "next_future_occurrence e (Interval ev st) at now = Inr n" for n
  proof (cases n)
    case None
    with that show ?thesis
      by (auto simp: next_future_occurrence_def Let_def split: if_splits sum.splits)
  next
    case (Some t)
    with next_future_interval [of e ev st at now t] that assms(4) show ?thesis by auto
  qed
  have step: "n = Some (t + int ev)" if "next_after e (Interval ev st) t = Inr n" for n t
    using that by (auto simp: next_after_def split: if_splits)
  have "\<not> is_once (tr_schedule tr)" using assms(2) by (simp add: is_once_def)
  with assms(1) show ?thesis
  proof (cases rule: due_occurrences_cases)
    case (on_time nxt)
    with step assms(2) have "nxt = Some (at + int ev)" by auto
    with on_time show ?thesis by (intro exI [of _ 1]) (auto simp: past_due_def)
  next
    case (catch_up nxt runs occ n n')
    show ?thesis
    proof (cases "past_due n now")
      case True
      with catch_up(5) assms(2) have "next_future_occurrence e (Interval ev st) at now = Inr n'"
        by simp
      from future [OF this] catch_up(6) show ?thesis by simp
    next
      case False
      from catch_up(1) catch_up_loop_spec [OF catch_up(4), of "[]" at] obtain more where
        more: "occ = at # more" "\<forall>v \<in> set more. v \<le> now" "chain e (tr_schedule tr) occ"
          "next_after e (tr_schedule tr) (last occ) = Inr n"
        by auto
      have nth: "occ ! i = at + int i * int ev" if "i < length occ" for i
        using chain_interval_nth [of e ev st occ i] more(1,3) assms(2) that by simp
      have last_occ: "last occ = at + int (length more) * int ev"
        using nth [of "length more"] last_conv_nth [of occ] more(1)
        by (metis diff_Suc_1 length_Cons lessI list.discI)
      have "n = Some (last occ + int ev)" using step more(4) assms(2) by simp
      then have n: "n = Some (at + int (length occ) * int ev)"
        unfolding last_occ using more(1) by (simp add: distrib_right)
      have "at + int j * int ev \<le> now" if "0 < j" "j < length occ" for j
      proof -
        have "occ ! j \<in> set more" using that more(1) by (cases j) auto
        with more(2) nth [OF that(2)] show ?thesis by auto
      qed
      moreover have "now < at + int (length occ) * int ev" and "ds_next ds = n"
        using n False catch_up(5,6) by (simp_all add: past_due_def)
      ultimately show ?thesis
        using n more(1) by (intro exI [of _ "length occ"]) simp
    qed
  next
    case (skip nxt n)
    with future [of n] assms(2) show ?thesis by simp
  next
    case (fire_once nxt n)
    with future [of n] assms(2) show ?thesis by simp
  qed
qed

theorem interval_keeps_phase_witness:
  "\<exists>ds k. due_occurrences sample_env ((trigger_interval 1000)\<lparr>tr_misfire := FireOnce\<rparr>) 0 10500 5 =
      Inr ds \<and> 0 < k \<and> ds_next ds = Some (int k * 1000) \<and> 10500 < int k * 1000"
proof -
  have run: "due_occurrences sample_env ((trigger_interval 1000)\<lparr>tr_misfire := FireOnce\<rparr>) 0 10500 5 =
      Inr \<lparr>ds_occurrences = [10500], ds_next = Some 11000\<rparr>"
    by (simp add: due_eval trigger_interval_def)
  from interval_keeps_phase [OF run, of 1000 None] obtain k :: nat where
    "0 < k" "ds_next \<lparr>ds_occurrences = [10500], ds_next = Some 11000\<rparr> = Some (0 + int k * int 1000)"
    "10500 < 0 + int k * int 1000"
    by (simp add: trigger_interval_def i128_ok_def)
  with run show ?thesis by (intro exI conjI) (rule run, auto)
qed

text \<open>
  catching up is bounded, ordered and complete. The executions are the scheduled one
  followed by the next occurrences one after the other, in strictly increasing order and
  none of them in the future; there are at most as many as the policy and the
  configuration allow (and always the scheduled one); and when occurrences are given up
  the limit was reached.
\<close>

theorem catch_up_replays_in_order:
  assumes "cron_strict e" and "tr_misfire tr = CatchUp runs" and "\<not> is_once (tr_schedule tr)"
    and "\<forall>ev st. tr_schedule tr = Interval ev st \<longrightarrow> 0 < ev"
    and "due_occurrences e tr at now mc = Inr ds"
  shows "\<exists>more nxt. ds_occurrences ds = at # more \<and> (\<forall>t \<in> set more. t \<le> now) \<and>
    sorted_wrt (<) (ds_occurrences ds) \<and> chain e (tr_schedule tr) (ds_occurrences ds) \<and>
    length (ds_occurrences ds) \<le> max 1 (unat (min runs mc)) \<and>
    next_after e (tr_schedule tr) (last (ds_occurrences ds)) = Inr nxt \<and>
    (past_due nxt now \<longrightarrow> unat (min runs mc) \<le> length (ds_occurrences ds))"
proof -
  have strict: "t < t'" if "next_after e (tr_schedule tr) t = Inr (Some t')" for t t'
    using next_after_strict [OF assms(1) that] assms(4) by blast
  from assms(5,3) show ?thesis
  proof (cases rule: due_occurrences_cases)
    case (on_time nxt)
    then show ?thesis by simp
  next
    case (catch_up nxt runs' occ n n')
    from catch_up(1) catch_up_loop_spec [OF catch_up(4), of "[]" at] obtain more where
      more: "occ = at # more" "\<forall>v \<in> set more. v \<le> now" "chain e (tr_schedule tr) occ"
        "length occ \<le> max 1 (unat (min runs' mc))"
        "next_after e (tr_schedule tr) (last occ) = Inr n"
        "past_due n now \<longrightarrow> unat (min runs' mc) \<le> length occ"
      by auto
    moreover have "sorted_wrt (<) occ" by (rule chain_sorted [OF more(3) strict])
    moreover have "runs' = runs" using catch_up(3) assms(2) by simp
    ultimately show ?thesis
      using catch_up(6) by (intro exI [of _ more] exI [of _ n]) simp
  qed (use assms(2) in simp_all)
qed

theorem catch_up_replays_in_order_witness:
  "\<exists>ds more. due_occurrences sample_env ((trigger_interval 1000)\<lparr>tr_misfire := CatchUp 3\<rparr>) 0 10500 5 =
      Inr ds \<and> ds_occurrences ds = 0 # more \<and> sorted_wrt (<) (ds_occurrences ds)"
proof -
  let ?tr = "(trigger_interval 1000)\<lparr>tr_misfire := CatchUp 3\<rparr>"
  obtain ds where run: "due_occurrences sample_env ?tr 0 10500 5 = Inr ds"
    by (simp add: due_eval trigger_interval_def)
  from catch_up_replays_in_order [OF sample_env_cron_strict _ _ _ run, of 3]
  obtain more where "ds_occurrences ds = 0 # more" "sorted_wrt (<) (ds_occurrences ds)"
    by (auto simp: trigger_interval_def is_once_def)
  with run show ?thesis by blast
qed

text \<open>
  the deadline of a timer never lies before the present reading of the monotonic clock
  nor beyond the last instant of the platform. When the exact deadline exists it is the one used;
  otherwise the deadline is the latest one, in whole seconds, that the platform supports.
\<close>

theorem to_instant_saturates:
  assumes "instant_now e \<le> instant_max e"
  shows "instant_now e \<le> to_instant e run_at \<and> to_instant e run_at \<le> instant_max e \<and>
    (let delay = nat (run_at - utc_now e) in
      if instant_now e + int delay \<le> instant_max e
      then to_instant e run_at = instant_now e + int delay
      else \<exists>s. to_instant e run_at = instant_now e + int (secs s) \<and>
        (\<forall>s'. s < s' \<and> secs s' \<le> delay \<longrightarrow> instant_max e < instant_now e + int (secs s')))"
proof -
  define delay where "delay = nat (run_at - utc_now e)"
  define s where "s = latest_search e (instant_now e) 0 (delay div 1000000000)"
  have search: "instant_now e + int (secs s) \<le> instant_max e \<and>
      (\<forall>s'. s < s' \<and> s' \<le> delay div 1000000000 \<longrightarrow> instant_max e < instant_now e + int (secs s'))"
    using latest_search_spec [of 0 "delay div 1000000000" "instant_now e" e "delay div 1000000000"]
      assms
    unfolding s_def by (simp add: secs_def)
  show ?thesis
  proof (cases "instant_now e + int delay \<le> instant_max e")
    case True
    then have "to_instant e run_at = instant_now e + int delay"
      by (simp add: to_instant_def instant_checked_add_def delay_def)
    with True show ?thesis by (simp add: delay_def [symmetric])
  next
    case False
    have "to_instant e run_at = latest_supported_instant e (instant_now e) delay"
      using False by (simp add: to_instant_def instant_checked_add_def delay_def)
    then have eq: "to_instant e run_at = instant_now e + int (secs s)"
      using search by (simp add: latest_supported_instant_def s_def instant_checked_add_def)
    have "s' \<le> delay div 1000000000" if "secs s' \<le> delay" for s'
      using that by (simp add: secs_def less_eq_div_iff_mult_less_eq)
    with search have "\<forall>s'. s < s' \<and> secs s' \<le> delay \<longrightarrow> instant_max e < instant_now e + int (secs s')"
      by blast
    with search eq False show ?thesis
      unfolding delay_def [symmetric] Let_def by (simp del: of_nat_mult) blast
  qed
qed

theorem to_instant_saturates_witness:
  "instant_now sample_env \<le> instant_max sample_env \<and>
   instant_now sample_env \<le> to_instant sample_env 500 \<and>
   to_instant sample_env 500 = 500"
  using to_instant_saturates [of sample_env 500] by simp

end
