(* ===== verification/Sched_State.thy ===== *)
theory Sched_State
  imports Ready_Queue Sched_Timing
begin

text \<open>
  The state of the scheduler Actor (\<open>scheduler/runtime/engine.rs\<close>) and the operations
  every handler shares: publishing events, the timers with their reverse indexes
  (\<open>engine/timers.rs\<close>), cancelling the runs of a version and switching a Job off.

  The Actor is one thread that owns its state, so an operation is a function from state to
  state. The \<open>DelayQueue\<close> is a map from keys to entries with their deadlines; the
  \<open>JoinSet\<close> is the list of wrapper tasks in flight; a \<open>CancellationToken\<close> is a number,
  shared by the index of running executions and the wrapper, and the list of cancelled
  numbers is part of the state. Published events are appended to a list.

  A call of a library that panics sets the flag \<open>act_panicked\<close>; the run loop then ends
  without a next state, so nothing computed after the panic is ever observed.
\<close>

section \<open>State\<close>

record job_entry =
  je_id :: job_id
  je_version :: u64
  je_task :: string
  je_cancellation_mode :: cancellation_mode
  je_trigger :: trigger
  je_concurrency :: "nat option"
  je_max_pending :: "nat option"
  je_priority :: job_priority
  je_coalescing :: trigger_coalescing
  je_capacity :: capacity_policy
  je_retry :: execution_retry_policy
  je_failure :: failure_policy
  je_state :: job_state
  je_normal_timer_key :: "dq_key option"
  je_next_run_at :: "time option"
  je_blocked :: "pending_execution list"
  je_running_count :: nat
  je_consecutive_failures :: u32
  je_last_started_at :: "time option"
  je_last_finished_at :: "time option"
  je_last_outcome :: "string option"
  je_last_fired_at :: "time option"
  je_created_at :: time
  je_updated_at :: time

type_synonym token = nat

record running_execution =
  re_job_id :: job_id
  re_version :: u64
  re_cancellation :: token

record retry_timer =
  rt_job_id :: job_id
  rt_key :: dq_key
  rt_run_at :: time

datatype completion_outcome =
    Finished task_run_result
  | TimedOut
  | Panicked string
  | CancelledOutcome

record task_completion =
  tc_job_id :: job_id
  tc_version :: u64
  tc_run_id :: run_id
  tc_attempt :: u32
  tc_scheduled_at :: time
  tc_elapsed :: dur
  tc_outcome :: completion_outcome

record execution_metadata =
  em_job_id :: job_id
  em_version :: u64
  em_run_id :: run_id
  em_attempt :: u32
  em_scheduled_at :: time

definition metadata :: "task_completion \<Rightarrow> execution_metadata" where
  "metadata c =
     \<lparr>em_job_id = tc_job_id c, em_version = tc_version c, em_run_id = tc_run_id c,
      em_attempt = tc_attempt c, em_scheduled_at = tc_scheduled_at c\<rparr>"

datatype failure_class = Transient | Permanent | Timeout | Panic

text \<open>What the wrapper future of a started execution holds.\<close>

record wrapper =
  wr_job_id :: job_id
  wr_version :: u64
  wr_run_id :: run_id
  wr_attempt :: u32
  wr_scheduled_at :: time
  wr_timeout :: "dur option"
  wr_mode :: cancellation_mode
  wr_token :: token

record actor =
  act_config :: scheduler_config
  act_config_revision :: u64
  act_jobs :: "(job_id \<times> job_entry) list"
  act_timers :: "(dq_key \<times> (timer_entry \<times> instant)) list"
  act_retry_timers :: "(run_id \<times> retry_timer) list"
  act_ready :: ready_queue
  act_tasks :: "wrapper list"
  act_running :: "(run_id \<times> running_execution) list"
  act_total_running :: nat
  act_events :: "scheduler_event list"
  act_status :: scheduler_status
  act_event_sequence :: u64
  act_batch_sequence :: u64
  act_shutdown_response :: bool
  act_uuids :: nat
  act_tokens :: nat
  act_cancelled :: "token list"
  act_panicked :: bool

definition actor_new :: "scheduler_config \<Rightarrow> actor" where
  "actor_new c =
     \<lparr>act_config = c, act_config_revision = 0, act_jobs = [], act_timers = [],
      act_retry_timers = [], act_ready = rq_new, act_tasks = [], act_running = [],
      act_total_running = 0, act_events = [], act_status = Running,
      act_event_sequence = 0, act_batch_sequence = 0, act_shutdown_response = False,
      act_uuids = 0, act_tokens = 0, act_cancelled = [], act_panicked = False\<rparr>"

section \<open>Events and cancellation\<close>

definition emit :: "env \<Rightarrow> scheduler_event_kind \<Rightarrow> actor \<Rightarrow> actor" where
  "emit e k s =
     (let n = act_event_sequence s + 1
      in s\<lparr>act_event_sequence := n,
           act_events := act_events s @ [\<lparr>ev_sequence = n, ev_emitted_at = utc_now e, ev_kind = k\<rparr>]\<rparr>)"

definition cancel_job_version :: "job_id \<Rightarrow> u64 \<Rightarrow> actor \<Rightarrow> actor" where
  "cancel_job_version j v s =
     s\<lparr>act_cancelled := act_cancelled s @
         [re_cancellation r. (_, r) \<leftarrow> act_running s, re_job_id r = j \<and> re_version r = v]\<rparr>"

section \<open>Timers\<close>

definition timers_insert_at :: "env \<Rightarrow> timer_entry \<Rightarrow> actor \<Rightarrow> dq_key \<times> actor" where
  "timers_insert_at e t s =
     (let deadline = to_instant e (te_run_at t); key = new_key e (keys_of (act_timers s))
      in (key, s\<lparr>act_timers := (key, t, deadline) # act_timers s,
                 act_panicked := act_panicked s \<or> \<not> deadline_ok e (instant_now e) deadline\<rparr>))"

definition timers_try_remove :: "dq_key option \<Rightarrow> actor \<Rightarrow> actor" where
  "timers_try_remove key s =
     (case key of Some k \<Rightarrow> s\<lparr>act_timers := AList.delete k (act_timers s)\<rparr> | None \<Rightarrow> s)"

definition timers_reset_at :: "env \<Rightarrow> dq_key \<Rightarrow> time \<Rightarrow> actor \<Rightarrow> actor" where
  "timers_reset_at e key run_at s =
     (let deadline = to_instant e run_at
      in s\<lparr>act_timers := modify key (\<lambda>(t, _). (t, deadline)) (act_timers s),
           act_panicked := act_panicked s \<or> key \<notin> set (keys_of (act_timers s))
             \<or> \<not> deadline_ok e (instant_now e) deadline\<rparr>)"

definition schedule_normal :: "env \<Rightarrow> job_id \<Rightarrow> time \<Rightarrow> timer_kind \<Rightarrow> actor \<Rightarrow> actor" where
  "schedule_normal e j run_at kind s =
     (case map_of (act_jobs s) j of
        None \<Rightarrow> s
      | Some job \<Rightarrow>
          let s = timers_try_remove (je_normal_timer_key job) s;
              version = je_version job;
              (key, s) = timers_insert_at e
                \<lparr>te_job_id = j, te_version = version, te_run_at = run_at, te_kind = kind\<rparr> s;
              s = s\<lparr>act_jobs := modify j
                (\<lambda>job. job\<lparr>je_normal_timer_key := Some key, je_next_run_at := Some run_at\<rparr>)
                (act_jobs s)\<rparr>
          in emit e (TriggerScheduled j version run_at) s)"

definition schedule_retry ::
  "env \<Rightarrow> job_id \<Rightarrow> u64 \<Rightarrow> run_id \<Rightarrow> time \<Rightarrow> u32 \<Rightarrow> time \<Rightarrow> actor \<Rightarrow> actor" where
  "schedule_retry e j version run scheduled_at attempt run_at s =
     (let previous = map_of (act_retry_timers s) run;
          s = s\<lparr>act_retry_timers := AList.delete run (act_retry_timers s)\<rparr>;
          s = timers_try_remove (map_option rt_key previous) s;
          (key, s) = timers_insert_at e
            \<lparr>te_job_id = j, te_version = version, te_run_at = run_at,
             te_kind = TimerRetry run scheduled_at attempt\<rparr> s;
          s = s\<lparr>act_retry_timers :=
                  AList.update run \<lparr>rt_job_id = j, rt_key = key, rt_run_at = run_at\<rparr>
                    (act_retry_timers s)\<rparr>
      in emit e (RetryScheduled j version run attempt run_at) s)"

definition remove_retry_timer :: "run_id \<Rightarrow> actor \<Rightarrow> actor" where
  "remove_retry_timer run s =
     (case map_of (act_retry_timers s) run of
        None \<Rightarrow> s
      | Some t \<Rightarrow> timers_try_remove (Some (rt_key t))
          (s\<lparr>act_retry_timers := AList.delete run (act_retry_timers s)\<rparr>))"

definition clear_retry_timers :: "job_id \<Rightarrow> actor \<Rightarrow> actor" where
  "clear_retry_timers j s =
     fold remove_retry_timer [run. (run, t) \<leftarrow> act_retry_timers s, rt_job_id t = j] s"

definition reanchor_job :: "env \<Rightarrow> job_entry \<Rightarrow> actor \<Rightarrow> actor" where
  "reanchor_job e job s =
     (case (je_normal_timer_key job, je_next_run_at job) of
        (Some key, Some run_at) \<Rightarrow> timers_reset_at e key run_at s
      | _ \<Rightarrow> s)"

definition reanchor_timers :: "env \<Rightarrow> actor \<Rightarrow> actor" where
  "reanchor_timers e s =
     fold (\<lambda>t. timers_reset_at e (rt_key t) (rt_run_at t)) (map snd (act_retry_timers s))
       (fold (reanchor_job e) (map snd (act_jobs s)) s)"

section \<open>Switching a Job off\<close>

definition force_disable :: "env \<Rightarrow> job_id \<Rightarrow> reason \<Rightarrow> actor \<Rightarrow> unit sresult \<times> actor" where
  "force_disable e j why s =
     (case map_of (act_jobs s) j of
        None \<Rightarrow> (Inl (JobNotFound j), s)
      | Some job \<Rightarrow>
          (case checked_add_u64 (je_version job) 1 of
             None \<Rightarrow> (Inl (VersionOverflow j), s)
           | Some version \<Rightarrow>
               let s = timers_try_remove (je_normal_timer_key job) s;
                   s = s\<lparr>act_jobs := modify j
                     (\<lambda>job. job\<lparr>je_version := version, je_normal_timer_key := None,
                       je_next_run_at := None, je_blocked := [], je_state := Disabled why,
                       je_updated_at := utc_now e\<rparr>) (act_jobs s)\<rparr>;
                   s = clear_retry_timers j s;
                   s = s\<lparr>act_ready := snd (remove_job j (act_ready s))\<rparr>;
                   s = cancel_job_version j (je_version job) s
               in (Inr (), emit e (JobDisabled j version why) s)))"

section \<open>What the operations leave alone\<close>

text \<open>One fact per operation and untouched field, so that the simplifier sees through
  the handlers to the fields a lemma is about.\<close>

lemma emit_frame [simp]:
  "act_config (emit e k s) = act_config s"
  "act_config_revision (emit e k s) = act_config_revision s"
  "act_jobs (emit e k s) = act_jobs s"
  "act_timers (emit e k s) = act_timers s"
  "act_retry_timers (emit e k s) = act_retry_timers s"
  "act_ready (emit e k s) = act_ready s"
  "act_tasks (emit e k s) = act_tasks s"
  "act_running (emit e k s) = act_running s"
  "act_total_running (emit e k s) = act_total_running s"
  "act_status (emit e k s) = act_status s"
  "act_batch_sequence (emit e k s) = act_batch_sequence s"
  "act_shutdown_response (emit e k s) = act_shutdown_response s"
  "act_uuids (emit e k s) = act_uuids s"
  "act_tokens (emit e k s) = act_tokens s"
  "act_cancelled (emit e k s) = act_cancelled s"
  "act_panicked (emit e k s) = act_panicked s"
  by (simp_all add: emit_def Let_def)

lemma emit_events [simp]:
  "act_event_sequence (emit e k s) = act_event_sequence s + 1"
  "act_events (emit e k s) = act_events s @
     [\<lparr>ev_sequence = act_event_sequence s + 1, ev_emitted_at = utc_now e, ev_kind = k\<rparr>]"
  by (simp_all add: emit_def Let_def)

lemma cancel_frame [simp]:
  "act_config (cancel_job_version j v s) = act_config s"
  "act_config_revision (cancel_job_version j v s) = act_config_revision s"
  "act_jobs (cancel_job_version j v s) = act_jobs s"
  "act_timers (cancel_job_version j v s) = act_timers s"
  "act_retry_timers (cancel_job_version j v s) = act_retry_timers s"
  "act_ready (cancel_job_version j v s) = act_ready s"
  "act_tasks (cancel_job_version j v s) = act_tasks s"
  "act_running (cancel_job_version j v s) = act_running s"
  "act_total_running (cancel_job_version j v s) = act_total_running s"
  "act_events (cancel_job_version j v s) = act_events s"
  "act_status (cancel_job_version j v s) = act_status s"
  "act_event_sequence (cancel_job_version j v s) = act_event_sequence s"
  "act_batch_sequence (cancel_job_version j v s) = act_batch_sequence s"
  "act_shutdown_response (cancel_job_version j v s) = act_shutdown_response s"
  "act_uuids (cancel_job_version j v s) = act_uuids s"
  "act_tokens (cancel_job_version j v s) = act_tokens s"
  "act_panicked (cancel_job_version j v s) = act_panicked s"
  by (simp_all add: cancel_job_version_def)

lemma try_remove_frame [simp]:
  "act_config (timers_try_remove k s) = act_config s"
  "act_config_revision (timers_try_remove k s) = act_config_revision s"
  "act_jobs (timers_try_remove k s) = act_jobs s"
  "act_retry_timers (timers_try_remove k s) = act_retry_timers s"
  "act_ready (timers_try_remove k s) = act_ready s"
  "act_tasks (timers_try_remove k s) = act_tasks s"
  "act_running (timers_try_remove k s) = act_running s"
  "act_total_running (timers_try_remove k s) = act_total_running s"
  "act_events (timers_try_remove k s) = act_events s"
  "act_status (timers_try_remove k s) = act_status s"
  "act_event_sequence (timers_try_remove k s) = act_event_sequence s"
  "act_batch_sequence (timers_try_remove k s) = act_batch_sequence s"
  "act_shutdown_response (timers_try_remove k s) = act_shutdown_response s"
  "act_uuids (timers_try_remove k s) = act_uuids s"
  "act_tokens (timers_try_remove k s) = act_tokens s"
  "act_cancelled (timers_try_remove k s) = act_cancelled s"
  "act_panicked (timers_try_remove k s) = act_panicked s"
  by (simp_all add: timers_try_remove_def split: option.splits)

lemma insert_at_frame [simp]:
  "act_config (snd (timers_insert_at e t s)) = act_config s"
  "act_config_revision (snd (timers_insert_at e t s)) = act_config_revision s"
  "act_jobs (snd (timers_insert_at e t s)) = act_jobs s"
  "act_retry_timers (snd (timers_insert_at e t s)) = act_retry_timers s"
  "act_ready (snd (timers_insert_at e t s)) = act_ready s"
  "act_tasks (snd (timers_insert_at e t s)) = act_tasks s"
  "act_running (snd (timers_insert_at e t s)) = act_running s"
  "act_total_running (snd (timers_insert_at e t s)) = act_total_running s"
  "act_events (snd (timers_insert_at e t s)) = act_events s"
  "act_status (snd (timers_insert_at e t s)) = act_status s"
  "act_event_sequence (snd (timers_insert_at e t s)) = act_event_sequence s"
  "act_batch_sequence (snd (timers_insert_at e t s)) = act_batch_sequence s"
  "act_shutdown_response (snd (timers_insert_at e t s)) = act_shutdown_response s"
  "act_uuids (snd (timers_insert_at e t s)) = act_uuids s"
  "act_tokens (snd (timers_insert_at e t s)) = act_tokens s"
  "act_cancelled (snd (timers_insert_at e t s)) = act_cancelled s"
  by (simp_all add: timers_insert_at_def Let_def)

lemma reset_at_frame [simp]:
  "act_config (timers_reset_at e k t s) = act_config s"
  "act_config_revision (timers_reset_at e k t s) = act_config_revision s"
  "act_jobs (timers_reset_at e k t s) = act_jobs s"
  "act_retry_timers (timers_reset_at e k t s) = act_retry_timers s"
  "act_ready (timers_reset_at e k t s) = act_ready s"
  "act_tasks (timers_reset_at e k t s) = act_tasks s"
  "act_running (timers_reset_at e k t s) = act_running s"
  "act_total_running (timers_reset_at e k t s) = act_total_running s"
  "act_events (timers_reset_at e k t s) = act_events s"
  "act_status (timers_reset_at e k t s) = act_status s"
  "act_event_sequence (timers_reset_at e k t s) = act_event_sequence s"
  "act_batch_sequence (timers_reset_at e k t s) = act_batch_sequence s"
  "act_shutdown_response (timers_reset_at e k t s) = act_shutdown_response s"
  "act_uuids (timers_reset_at e k t s) = act_uuids s"
  "act_tokens (timers_reset_at e k t s) = act_tokens s"
  "act_cancelled (timers_reset_at e k t s) = act_cancelled s"
  by (simp_all add: timers_reset_at_def Let_def)

lemma remove_retry_frame [simp]:
  "act_config (remove_retry_timer r s) = act_config s"
  "act_config_revision (remove_retry_timer r s) = act_config_revision s"
  "act_jobs (remove_retry_timer r s) = act_jobs s"
  "act_ready (remove_retry_timer r s) = act_ready s"
  "act_tasks (remove_retry_timer r s) = act_tasks s"
  "act_running (remove_retry_timer r s) = act_running s"
  "act_total_running (remove_retry_timer r s) = act_total_running s"
  "act_events (remove_retry_timer r s) = act_events s"
  "act_status (remove_retry_timer r s) = act_status s"
  "act_event_sequence (remove_retry_timer r s) = act_event_sequence s"
  "act_batch_sequence (remove_retry_timer r s) = act_batch_sequence s"
  "act_shutdown_response (remove_retry_timer r s) = act_shutdown_response s"
  "act_uuids (remove_retry_timer r s) = act_uuids s"
  "act_tokens (remove_retry_timer r s) = act_tokens s"
  "act_cancelled (remove_retry_timer r s) = act_cancelled s"
  "act_panicked (remove_retry_timer r s) = act_panicked s"
  by (simp_all add: remove_retry_timer_def split: option.splits)

lemma fold_frame:
  assumes "\<And>x s. f (g x s) = f s"
  shows "f (fold g xs s) = f s"
  using assms by (induction xs arbitrary: s) simp_all

lemma clear_retry_frame [simp]:
  "act_config (clear_retry_timers j s) = act_config s"
  "act_config_revision (clear_retry_timers j s) = act_config_revision s"
  "act_jobs (clear_retry_timers j s) = act_jobs s"
  "act_ready (clear_retry_timers j s) = act_ready s"
  "act_tasks (clear_retry_timers j s) = act_tasks s"
  "act_running (clear_retry_timers j s) = act_running s"
  "act_total_running (clear_retry_timers j s) = act_total_running s"
  "act_events (clear_retry_timers j s) = act_events s"
  "act_status (clear_retry_timers j s) = act_status s"
  "act_event_sequence (clear_retry_timers j s) = act_event_sequence s"
  "act_batch_sequence (clear_retry_timers j s) = act_batch_sequence s"
  "act_shutdown_response (clear_retry_timers j s) = act_shutdown_response s"
  "act_uuids (clear_retry_timers j s) = act_uuids s"
  "act_tokens (clear_retry_timers j s) = act_tokens s"
  "act_cancelled (clear_retry_timers j s) = act_cancelled s"
  "act_panicked (clear_retry_timers j s) = act_panicked s"
  unfolding clear_retry_timers_def by (rule fold_frame, simp)+

lemma schedule_retry_frame [simp]:
  "act_config (schedule_retry e j v r t a u s) = act_config s"
  "act_config_revision (schedule_retry e j v r t a u s) = act_config_revision s"
  "act_jobs (schedule_retry e j v r t a u s) = act_jobs s"
  "act_ready (schedule_retry e j v r t a u s) = act_ready s"
  "act_tasks (schedule_retry e j v r t a u s) = act_tasks s"
  "act_running (schedule_retry e j v r t a u s) = act_running s"
  "act_total_running (schedule_retry e j v r t a u s) = act_total_running s"
  "act_status (schedule_retry e j v r t a u s) = act_status s"
  "act_batch_sequence (schedule_retry e j v r t a u s) = act_batch_sequence s"
  "act_shutdown_response (schedule_retry e j v r t a u s) = act_shutdown_response s"
  "act_uuids (schedule_retry e j v r t a u s) = act_uuids s"
  "act_tokens (schedule_retry e j v r t a u s) = act_tokens s"
  "act_cancelled (schedule_retry e j v r t a u s) = act_cancelled s"
  by (simp_all add: schedule_retry_def Let_def case_prod_beta)

lemma schedule_normal_frame [simp]:
  "act_config (schedule_normal e j t k s) = act_config s"
  "act_config_revision (schedule_normal e j t k s) = act_config_revision s"
  "act_retry_timers (schedule_normal e j t k s) = act_retry_timers s"
  "act_ready (schedule_normal e j t k s) = act_ready s"
  "act_tasks (schedule_normal e j t k s) = act_tasks s"
  "act_running (schedule_normal e j t k s) = act_running s"
  "act_total_running (schedule_normal e j t k s) = act_total_running s"
  "act_status (schedule_normal e j t k s) = act_status s"
  "act_batch_sequence (schedule_normal e j t k s) = act_batch_sequence s"
  "act_shutdown_response (schedule_normal e j t k s) = act_shutdown_response s"
  "act_uuids (schedule_normal e j t k s) = act_uuids s"
  "act_tokens (schedule_normal e j t k s) = act_tokens s"
  "act_cancelled (schedule_normal e j t k s) = act_cancelled s"
  by (simp_all add: schedule_normal_def Let_def case_prod_beta split: option.splits)

lemma reanchor_job_frame [simp]:
  "act_config (reanchor_job e job s) = act_config s"
  "act_config_revision (reanchor_job e job s) = act_config_revision s"
  "act_jobs (reanchor_job e job s) = act_jobs s"
  "act_retry_timers (reanchor_job e job s) = act_retry_timers s"
  "act_ready (reanchor_job e job s) = act_ready s"
  "act_tasks (reanchor_job e job s) = act_tasks s"
  "act_running (reanchor_job e job s) = act_running s"
  "act_total_running (reanchor_job e job s) = act_total_running s"
  "act_events (reanchor_job e job s) = act_events s"
  "act_status (reanchor_job e job s) = act_status s"
  "act_event_sequence (reanchor_job e job s) = act_event_sequence s"
  "act_batch_sequence (reanchor_job e job s) = act_batch_sequence s"
  "act_shutdown_response (reanchor_job e job s) = act_shutdown_response s"
  "act_uuids (reanchor_job e job s) = act_uuids s"
  "act_tokens (reanchor_job e job s) = act_tokens s"
  "act_cancelled (reanchor_job e job s) = act_cancelled s"
  by (simp_all add: reanchor_job_def split: option.splits)

lemma reanchor_frame [simp]:
  "act_config (reanchor_timers e s) = act_config s"
  "act_config_revision (reanchor_timers e s) = act_config_revision s"
  "act_jobs (reanchor_timers e s) = act_jobs s"
  "act_retry_timers (reanchor_timers e s) = act_retry_timers s"
  "act_ready (reanchor_timers e s) = act_ready s"
  "act_tasks (reanchor_timers e s) = act_tasks s"
  "act_running (reanchor_timers e s) = act_running s"
  "act_total_running (reanchor_timers e s) = act_total_running s"
  "act_events (reanchor_timers e s) = act_events s"
  "act_status (reanchor_timers e s) = act_status s"
  "act_event_sequence (reanchor_timers e s) = act_event_sequence s"
  "act_batch_sequence (reanchor_timers e s) = act_batch_sequence s"
  "act_shutdown_response (reanchor_timers e s) = act_shutdown_response s"
  "act_uuids (reanchor_timers e s) = act_uuids s"
  "act_tokens (reanchor_timers e s) = act_tokens s"
  "act_cancelled (reanchor_timers e s) = act_cancelled s"
  unfolding reanchor_timers_def by (rule trans [OF fold_frame fold_frame], simp, simp)+

lemma force_disable_frame [simp]:
  "act_config (snd (force_disable e j why s)) = act_config s"
  "act_config_revision (snd (force_disable e j why s)) = act_config_revision s"
  "act_tasks (snd (force_disable e j why s)) = act_tasks s"
  "act_running (snd (force_disable e j why s)) = act_running s"
  "act_total_running (snd (force_disable e j why s)) = act_total_running s"
  "act_status (snd (force_disable e j why s)) = act_status s"
  "act_batch_sequence (snd (force_disable e j why s)) = act_batch_sequence s"
  "act_shutdown_response (snd (force_disable e j why s)) = act_shutdown_response s"
  "act_uuids (snd (force_disable e j why s)) = act_uuids s"
  "act_tokens (snd (force_disable e j why s)) = act_tokens s"
  "act_panicked (snd (force_disable e j why s)) = act_panicked s"
  by (simp_all add: force_disable_def Let_def split: option.splits)

section \<open>The event stream\<close>

text \<open>\<open>extends s t\<close>: from \<open>s\<close> to \<open>t\<close> events were only appended, numbered on from
  the last one.\<close>

definition extends :: "actor \<Rightarrow> actor \<Rightarrow> bool" where
  "extends s t \<longleftrightarrow>
     (\<exists>new. act_events t = act_events s @ new \<and>
        act_event_sequence t = act_event_sequence s + of_nat (length new) \<and>
        map ev_sequence new = map (\<lambda>i. act_event_sequence s + of_nat (Suc i)) [0 ..< length new])"

lemma extends_refl [simp]: "extends s s"
  by (simp add: extends_def)

lemma extends_cong:
  "act_events t = act_events t' \<Longrightarrow> act_event_sequence t = act_event_sequence t' \<Longrightarrow>
   extends s t \<longleftrightarrow> extends s t'"
  by (simp add: extends_def)

lemma extends_emit [event_facts]:
  assumes "extends s t"
  shows "extends s (emit e k t)"
proof -
  from assms obtain new where new: "act_events t = act_events s @ new"
    "act_event_sequence t = act_event_sequence s + of_nat (length new)"
    "map ev_sequence new = map (\<lambda>i. act_event_sequence s + of_nat (Suc i)) [0 ..< length new]"
    by (auto simp: extends_def)
  then show ?thesis
    unfolding extends_def
    by (intro exI [of _ "new @ [\<lparr>ev_sequence = act_event_sequence t + 1,
          ev_emitted_at = utc_now e, ev_kind = k\<rparr>]"]) (simp add: add.assoc add.commute)
qed

lemma extends_trans:
  assumes "extends s t" and "extends t u"
  shows "extends s u"
proof -
  from assms obtain n1 n2 where
    n: "act_events t = act_events s @ n1"
    "act_event_sequence t = act_event_sequence s + of_nat (length n1)"
    "map ev_sequence n1 = map (\<lambda>i. act_event_sequence s + of_nat (Suc i)) [0 ..< length n1]"
    "act_events u = act_events t @ n2"
    "act_event_sequence u = act_event_sequence t + of_nat (length n2)"
    "map ev_sequence n2 = map (\<lambda>i. act_event_sequence t + of_nat (Suc i)) [0 ..< length n2]"
    by (auto simp: extends_def)
  have "map ev_sequence n2 =
      map (\<lambda>i. act_event_sequence s + of_nat (Suc i)) [length n1 ..< length n1 + length n2]"
    unfolding n(6) n(2) by (rule nth_equalityI) (simp_all add: algebra_simps)
  then show ?thesis
    unfolding extends_def using n
    by (intro exI [of _ "n1 @ n2"])
      (simp add: algebra_simps upt_add_eq_append [of 0 "length n1" "length n2"])
qed

lemma extends_fold [event_facts]:
  assumes "\<And>x t. extends s t \<Longrightarrow> extends s (f x t)" and "extends s t"
  shows "extends s (fold f xs t)"
  using assms(2) by (induction xs arbitrary: t) (simp_all add: assms(1))

lemma extends_update [simp]:
  "extends s (t\<lparr>act_config := x_config\<rparr>) = extends s t"
  "extends s (t\<lparr>act_config_revision := x_config_revision\<rparr>) = extends s t"
  "extends s (t\<lparr>act_jobs := x_jobs\<rparr>) = extends s t"
  "extends s (t\<lparr>act_timers := x_timers\<rparr>) = extends s t"
  "extends s (t\<lparr>act_retry_timers := x_retry_timers\<rparr>) = extends s t"
  "extends s (t\<lparr>act_ready := x_ready\<rparr>) = extends s t"
  "extends s (t\<lparr>act_tasks := x_tasks\<rparr>) = extends s t"
  "extends s (t\<lparr>act_running := x_running\<rparr>) = extends s t"
  "extends s (t\<lparr>act_total_running := x_total_running\<rparr>) = extends s t"
  "extends s (t\<lparr>act_status := x_status\<rparr>) = extends s t"
  "extends s (t\<lparr>act_batch_sequence := x_batch_sequence\<rparr>) = extends s t"
  "extends s (t\<lparr>act_shutdown_response := x_shutdown_response\<rparr>) = extends s t"
  "extends s (t\<lparr>act_uuids := x_uuids\<rparr>) = extends s t"
  "extends s (t\<lparr>act_tokens := x_tokens\<rparr>) = extends s t"
  "extends s (t\<lparr>act_cancelled := x_cancelled\<rparr>) = extends s t"
  "extends s (t\<lparr>act_panicked := x_panicked\<rparr>) = extends s t"
  by (simp_all add: extends_def)

lemma extends_quiet [simp]:
  "extends s (cancel_job_version j v t) = extends s t"
  "extends s (timers_try_remove k t) = extends s t"
  "extends s (snd (timers_insert_at e te t)) = extends s t"
  "extends s (clear_retry_timers j t) = extends s t"
  "extends s (reanchor_timers e t) = extends s t"
  by (simp_all add: extends_def)

lemma extends_schedule [event_facts]:
  assumes "extends s t"
  shows "extends s (schedule_normal e j r k t)" and "extends s (schedule_retry e j v i w a r t)"
    and "extends s (snd (force_disable e j why t))"
  using assms
  by (auto simp: schedule_normal_def schedule_retry_def force_disable_def Let_def case_prod_beta
      split: option.splits intro!: event_facts)

section \<open>What scheduling keeps of a Job\<close>

text \<open>Timers and executions held back come and go; \<open>cores\<close> is all the rest.\<close>

definition je_core :: "job_entry \<Rightarrow> job_entry" where
  "je_core job = job\<lparr>je_normal_timer_key := None, je_next_run_at := None, je_blocked := []\<rparr>"

definition cores :: "actor \<Rightarrow> (job_id \<times> job_entry) list" where
  "cores s = map (\<lambda>(j, job). (j, je_core job)) (act_jobs s)"

lemma je_core_update [simp]:
  "je_core (job\<lparr>je_normal_timer_key := k\<rparr>) = je_core job"
  "je_core (job\<lparr>je_next_run_at := t\<rparr>) = je_core job"
  "je_core (job\<lparr>je_blocked := b\<rparr>) = je_core job"
  by (simp_all add: je_core_def)

lemma je_core_fields:
  assumes "je_core job = je_core job'"
  shows "je_id job = je_id job'" "je_version job = je_version job'" "je_state job = je_state job'"
    "je_trigger job = je_trigger job'" "je_running_count job = je_running_count job'"
    "je_concurrency job = je_concurrency job'" "je_max_pending job = je_max_pending job'"
    "je_priority job = je_priority job'" "je_retry job = je_retry job'"
    "je_failure job = je_failure job'" "je_coalescing job = je_coalescing job'"
    "je_capacity job = je_capacity job'" "je_cancellation_mode job = je_cancellation_mode job'"
  using assms by (simp_all add: je_core_def) (cases job, cases job', simp)+

lemma cores_cong: "act_jobs s = act_jobs t \<Longrightarrow> cores s = cores t"
  by (simp add: cores_def)

lemma cores_modify [simp]:
  assumes "\<And>job. je_core (f job) = je_core job"
  shows "cores (s\<lparr>act_jobs := modify j f m\<rparr>) = cores (s\<lparr>act_jobs := m\<rparr>)"
  using assms by (auto simp: cores_def modify_def)

lemma cores_self [simp]: "cores (s\<lparr>act_jobs := act_jobs s\<rparr>) = cores s"
  by (simp add: cores_def)

lemma cores_lookup:
  assumes "cores s = cores t"
  shows "map_option je_core (map_of (act_jobs s) j) = map_option je_core (map_of (act_jobs t) j)"
proof -
  have "map_of (cores u) j = map_option je_core (map_of (act_jobs u) j)" for u
    by (simp add: cores_def map_of_map)
  with assms show ?thesis by metis
qed

lemma cores_lookupE:
  assumes "cores s = cores t" and "map_of (act_jobs s) j = Some job"
  obtains job' where "map_of (act_jobs t) j = Some job'" and "je_core job' = je_core job"
  using cores_lookup [OF assms(1), of j] assms(2) by (auto simp: map_option_case split: option.splits)

lemma cores_keys: "cores s = cores t \<Longrightarrow> keys_of (act_jobs s) = keys_of (act_jobs t)"
  by (drule arg_cong [of _ _ "map fst"]) (simp add: cores_def comp_def case_prod_beta)

lemma cores_length: "cores s = cores t \<Longrightarrow> length (act_jobs s) = length (act_jobs t)"
  by (metis cores_keys length_map)

lemma cores_update [simp]:
  "cores (t\<lparr>act_config := x_config\<rparr>) = cores t"
  "cores (t\<lparr>act_config_revision := x_config_revision\<rparr>) = cores t"
  "cores (t\<lparr>act_timers := x_timers\<rparr>) = cores t"
  "cores (t\<lparr>act_retry_timers := x_retry_timers\<rparr>) = cores t"
  "cores (t\<lparr>act_ready := x_ready\<rparr>) = cores t"
  "cores (t\<lparr>act_tasks := x_tasks\<rparr>) = cores t"
  "cores (t\<lparr>act_running := x_running\<rparr>) = cores t"
  "cores (t\<lparr>act_total_running := x_total_running\<rparr>) = cores t"
  "cores (t\<lparr>act_events := x_events\<rparr>) = cores t"
  "cores (t\<lparr>act_status := x_status\<rparr>) = cores t"
  "cores (t\<lparr>act_event_sequence := x_event_sequence\<rparr>) = cores t"
  "cores (t\<lparr>act_batch_sequence := x_batch_sequence\<rparr>) = cores t"
  "cores (t\<lparr>act_shutdown_response := x_shutdown_response\<rparr>) = cores t"
  "cores (t\<lparr>act_uuids := x_uuids\<rparr>) = cores t"
  "cores (t\<lparr>act_tokens := x_tokens\<rparr>) = cores t"
  "cores (t\<lparr>act_cancelled := x_cancelled\<rparr>) = cores t"
  "cores (t\<lparr>act_panicked := x_panicked\<rparr>) = cores t"
  by (simp_all add: cores_def)

lemma cores_quiet [simp]:
  "cores (emit e k t) = cores t"
  "cores (cancel_job_version j v t) = cores t"
  "cores (timers_try_remove key t) = cores t"
  "cores (snd (timers_insert_at e te t)) = cores t"
  "cores (clear_retry_timers j t) = cores t"
  "cores (reanchor_timers e t) = cores t"
  "cores (schedule_retry e j v i w a r t) = cores t"
  by (simp_all add: cores_def)

lemma cores_schedule_normal [simp]: "cores (schedule_normal e j r k t) = cores t"
  by (simp add: schedule_normal_def Let_def case_prod_beta split: option.splits)
    (simp add: cores_def)

end
