(* ===== verification/Sched_Admission.thy ===== *)
theory Sched_Admission
  imports Sched_State
begin

text \<open>
  Timers that expire and the admission of what they produce
  (\<open>engine/scheduling.rs\<close>): batches of expired timers, the check of version and state,
  the misfire policy, coalescing and capacity, and the return of executions held back.
\<close>

datatype admission = Accepted | Skipped | Blocked

section \<open>Admission\<close>

definition block :: "env \<Rightarrow> pending_execution \<Rightarrow> actor \<Rightarrow> actor" where
  "block e p s =
     emit e (BackpressureApplied (pe_job_id p) (pe_version p))
       (s\<lparr>act_jobs := modify (pe_job_id p)
            (\<lambda>job. job\<lparr>je_blocked := je_blocked job @ [p]\<rparr>) (act_jobs s)\<rparr>)"

text \<open>The branch of \<open>admit\<close> for \<open>KeepLatest\<close>: waiting triggers of the Job give way.\<close>

definition keep_latest :: "env \<Rightarrow> pending_execution \<Rightarrow> actor \<Rightarrow> actor" where
  "keep_latest e p s =
     (let j = pe_job_id p;
          (removed, ready) = remove_normal_triggers j (act_ready s);
          removed_blocked = (case map_of (act_jobs s) j of
             Some job \<Rightarrow> filter (\<lambda>q. is_replaceable_trigger (pe_kind q)) (je_blocked job)
           | None \<Rightarrow> []);
          s = s\<lparr>act_ready := ready,
                act_jobs := modify j
                  (\<lambda>job. job\<lparr>je_blocked :=
                    filter (\<lambda>q. \<not> is_replaceable_trigger (pe_kind q)) (je_blocked job)\<rparr>)
                  (act_jobs s)\<rparr>
      in fold (\<lambda>q. emit e (PendingReplaced j (pe_run_id q) (pe_run_id p)))
           (removed @ removed_blocked) s)"

text \<open>An execution enters the ready queue, at the end of \<open>admit\<close> and in
  \<open>restore_blocked\<close>.\<close>

definition enqueue :: "env \<Rightarrow> job_id \<Rightarrow> pending_execution \<Rightarrow> actor \<Rightarrow> actor" where
  "enqueue e j p s =
     (let s = s\<lparr>act_ready := rq_insert p (act_ready s)\<rparr>
      in emit e (ExecutionQueued j (pe_version p) (pe_run_id p)
           (rq_count_job (act_ready s) j)) s)"

definition job_pending_limit :: "scheduler_config \<Rightarrow> job_entry \<Rightarrow> nat" where
  "job_pending_limit c job =
     (case je_max_pending job of Some n \<Rightarrow> n | None \<Rightarrow> default_job_max_pending c)"

definition admit :: "env \<Rightarrow> pending_execution \<Rightarrow> bool \<Rightarrow> actor \<Rightarrow> admission \<times> actor" where
  "admit e p force_backpressure s =
     (case map_of (act_jobs s) (pe_job_id p) of
        None \<Rightarrow> (Skipped, s)
      | Some job \<Rightarrow>
          let j = pe_job_id p;
              capacity = (if force_backpressure \<or> \<not> is_replaceable_trigger (pe_kind p)
                          then Backpressure else je_capacity job);
              job_limit = job_pending_limit (act_config s) job;
              s = (if je_coalescing job = KeepLatest \<and> is_replaceable_trigger (pe_kind p)
                   then keep_latest e p s else s);
              global_full = (global_max_pending (act_config s) \<le> rq_len (act_ready s));
              job_full = (job_limit \<le> rq_count_job (act_ready s) j)
          in if global_full \<or> job_full
             then (case capacity of
                     SkipNewest \<Rightarrow>
                       (Skipped, emit e (TriggerSkipped j (pe_version p) (pe_scheduled_at p)
                          ''pending capacity reached'') s)
                   | ReplaceOldestTrigger \<Rightarrow>
                       (case remove_oldest_trigger j (act_ready s) of
                          (Some old, ready) \<Rightarrow>
                            (Accepted, enqueue e j p
                               (emit e (PendingReplaced j (pe_run_id old) (pe_run_id p))
                                 (s\<lparr>act_ready := ready\<rparr>)))
                        | (None, _) \<Rightarrow> (Blocked, block e p s))
                   | Backpressure \<Rightarrow> (Blocked, block e p s))
             else (Accepted, enqueue e j p s))"

section \<open>Expired timers\<close>

text \<open>The loop over the occurrences that are due; every one gets a fresh run identifier.\<close>

fun admit_occurrences ::
  "env \<Rightarrow> (run_id \<Rightarrow> time \<Rightarrow> pending_execution) \<Rightarrow> bool \<Rightarrow> time list \<Rightarrow> actor \<Rightarrow> bool \<times> actor" where
  "admit_occurrences e mk once [] s = (False, s)"
| "admit_occurrences e mk once (t # ts) s =
     (let run = new_v4 e (act_uuids s);
          (a, s) = admit e (mk run t) once (s\<lparr>act_uuids := act_uuids s + 1\<rparr>);
          (blocked, s) = admit_occurrences e mk once ts s
      in (a = Blocked \<or> blocked, s))"

definition handle_normal_trigger ::
  "env \<Rightarrow> job_id \<Rightarrow> time \<Rightarrow> u64 \<Rightarrow> bool \<Rightarrow> actor \<Rightarrow> actor" where
  "handle_normal_trigger e j scheduled_at batch_id run_now s =
     (case map_of (act_jobs s) j of
        None \<Rightarrow> s
      | Some job \<Rightarrow>
          let now = utc_now e;
              tr = je_trigger job;
              version = je_version job;
              once = is_once (tr_schedule tr);
              due = (if run_now
                     then Inr \<lparr>ds_occurrences = [now],
                               ds_next = (case next_after e (tr_schedule tr) now of
                                            Inr n \<Rightarrow> n | Inl _ \<Rightarrow> None)\<rparr>
                     else due_occurrences e tr scheduled_at now
                            (maximum_catch_up (act_config s)))
          in case due of
               Inl err \<Rightarrow> snd (force_disable e j (ErrorText err) s)
             | Inr ds \<Rightarrow>
                 let s = (if ds_occurrences ds = []
                          then emit e (TriggerSkipped j version scheduled_at
                                 ''misfire policy skipped expired occurrences'') s
                          else s);
                     mk = (\<lambda>run t.
                       \<lparr>pe_job_id = j, pe_version = version, pe_run_id = run, pe_attempt = 1,
                        pe_scheduled_at = t,
                        pe_kind = (if once then POnce else if run_now then PRunNow else PNormal),
                        pe_priority = je_priority job, pe_batch_id = batch_id\<rparr>);
                     (blocked, s) = admit_occurrences e mk once (ds_occurrences ds) s
                 in case ds_next ds of
                      Some n \<Rightarrow> if blocked then s else schedule_normal e j n TimerNormal s
                    | None \<Rightarrow> s)"

definition handle_timer :: "env \<Rightarrow> u64 \<Rightarrow> timer_entry \<Rightarrow> actor \<Rightarrow> actor" where
  "handle_timer e batch_id t s =
     (case map_of (act_jobs s) (te_job_id t) of
        None \<Rightarrow> s
      | Some job \<Rightarrow>
          if je_version job \<noteq> te_version t \<or> je_state job \<noteq> Enabled then s
          else case te_kind t of
                 TimerRetry run scheduled_at attempt \<Rightarrow>
                   snd (admit e
                     \<lparr>pe_job_id = te_job_id t, pe_version = te_version t, pe_run_id = run,
                      pe_attempt = attempt, pe_scheduled_at = scheduled_at, pe_kind = PRetry,
                      pe_priority = je_priority job, pe_batch_id = batch_id\<rparr> True
                     (s\<lparr>act_retry_timers := AList.delete run (act_retry_timers s)\<rparr>))
               | _ \<Rightarrow>
                   handle_normal_trigger e (te_job_id t) (te_run_at t) batch_id
                     (te_kind t = TimerRunNow)
                     (s\<lparr>act_jobs := modify (te_job_id t)
                         (\<lambda>job. job\<lparr>je_normal_timer_key := None, je_next_run_at := None\<rparr>)
                         (act_jobs s)\<rparr>))"

text \<open>
  \<open>timers.next().now_or_never()\<close> hands out the further entries that have expired; which
  ones and in which order is the queue's choice, here the list of their keys.
\<close>

fun take_expired :: "nat \<Rightarrow> dq_key list \<Rightarrow> actor \<Rightarrow> timer_entry list \<times> actor" where
  "take_expired (Suc n) (k # ks) s =
     (case map_of (act_timers s) k of
        None \<Rightarrow> ([], s)
      | Some (t, _) \<Rightarrow>
          let (ts, s) = take_expired n ks (s\<lparr>act_timers := AList.delete k (act_timers s)\<rparr>)
          in (t # ts, s))"
| "take_expired _ _ s = ([], s)"

definition handle_expired_batch ::
  "env \<Rightarrow> timer_entry \<Rightarrow> dq_key list \<Rightarrow> actor \<Rightarrow> actor" where
  "handle_expired_batch e first expired s =
     (let batch_id = act_batch_sequence s + 1;
          s = s\<lparr>act_batch_sequence := batch_id\<rparr>;
          (more, s) = take_expired (due_batch_size (act_config s) - 1) expired s
      in fold (handle_timer e batch_id) (first # more) s)"

section \<open>Executions held back\<close>

function restore_loop ::
  "env \<Rightarrow> job_id \<Rightarrow> nat \<Rightarrow> time option \<Rightarrow> actor \<Rightarrow> time option \<times> actor" where
  "restore_loop e j job_limit resume s =
     (if rq_len (act_ready s) < global_max_pending (act_config s)
         \<and> rq_count_job (act_ready s) j < job_limit
      then (case map_of (act_jobs s) j of
              None \<Rightarrow> (resume, s)
            | Some job \<Rightarrow>
                (case je_blocked job of
                   [] \<Rightarrow> (resume, s)
                 | p # rest \<Rightarrow>
                     let s1 = s\<lparr>act_jobs := modify j (\<lambda>job. job\<lparr>je_blocked := rest\<rparr>) (act_jobs s)\<rparr>
                     in if je_version job = pe_version p
                        then restore_loop e j job_limit
                               (if pe_kind p \<in> {PNormal, PRunNow}
                                then Some (pe_scheduled_at p) else resume)
                               (enqueue e j p s1)
                        else restore_loop e j job_limit resume s1))
      else (resume, s))"
  by pat_completeness auto
termination
  by (relation "measure (\<lambda>(e, j, job_limit, resume, s).
        case map_of (act_jobs s) j of Some job \<Rightarrow> length (je_blocked job) | None \<Rightarrow> 0)")
    (auto simp: enqueue_def emit_def Let_def)

declare restore_loop.simps [simp del]

definition restore_job :: "env \<Rightarrow> job_id \<Rightarrow> actor \<Rightarrow> actor" where
  "restore_job e j s =
     (case map_of (act_jobs s) j of
        None \<Rightarrow> s
      | Some job \<Rightarrow>
          let (resume, s) = restore_loop e j (job_pending_limit (act_config s) job) None s
          in case map_of (act_jobs s) j of
               None \<Rightarrow> s
             | Some job \<Rightarrow>
                 if je_blocked job = [] \<and> je_next_run_at job = None \<and> je_state job = Enabled
                    \<and> \<not> is_once (tr_schedule (je_trigger job))
                 then (case resume of
                         None \<Rightarrow> s
                       | Some r \<Rightarrow>
                           (case next_after e (tr_schedule (je_trigger job)) r of
                              Inr (Some n) \<Rightarrow> schedule_normal e j n TimerNormal s
                            | _ \<Rightarrow> s))
                 else s)"

definition restore_blocked :: "env \<Rightarrow> actor \<Rightarrow> actor" where
  "restore_blocked e s =
     (if global_max_pending (act_config s) \<le> rq_len (act_ready s) then s
      else fold (restore_job e) (keys_of (act_jobs s)) s)"

section \<open>What admission leaves alone\<close>

lemma block_frame [simp]:
  "act_config (block e p s) = act_config s"
  "act_config_revision (block e p s) = act_config_revision s"
  "act_timers (block e p s) = act_timers s"
  "act_retry_timers (block e p s) = act_retry_timers s"
  "act_ready (block e p s) = act_ready s"
  "act_tasks (block e p s) = act_tasks s"
  "act_running (block e p s) = act_running s"
  "act_total_running (block e p s) = act_total_running s"
  "act_status (block e p s) = act_status s"
  "act_batch_sequence (block e p s) = act_batch_sequence s"
  "act_shutdown_response (block e p s) = act_shutdown_response s"
  "act_uuids (block e p s) = act_uuids s"
  "act_tokens (block e p s) = act_tokens s"
  "act_cancelled (block e p s) = act_cancelled s"
  "act_panicked (block e p s) = act_panicked s"
  by (simp_all add: block_def)

lemma fold_emit_frame [simp]:
  "act_config (fold (\<lambda>q. emit e (k q)) qs s) = act_config s"
  "act_config_revision (fold (\<lambda>q. emit e (k q)) qs s) = act_config_revision s"
  "act_jobs (fold (\<lambda>q. emit e (k q)) qs s) = act_jobs s"
  "act_timers (fold (\<lambda>q. emit e (k q)) qs s) = act_timers s"
  "act_retry_timers (fold (\<lambda>q. emit e (k q)) qs s) = act_retry_timers s"
  "act_ready (fold (\<lambda>q. emit e (k q)) qs s) = act_ready s"
  "act_tasks (fold (\<lambda>q. emit e (k q)) qs s) = act_tasks s"
  "act_running (fold (\<lambda>q. emit e (k q)) qs s) = act_running s"
  "act_total_running (fold (\<lambda>q. emit e (k q)) qs s) = act_total_running s"
  "act_status (fold (\<lambda>q. emit e (k q)) qs s) = act_status s"
  "act_batch_sequence (fold (\<lambda>q. emit e (k q)) qs s) = act_batch_sequence s"
  "act_shutdown_response (fold (\<lambda>q. emit e (k q)) qs s) = act_shutdown_response s"
  "act_uuids (fold (\<lambda>q. emit e (k q)) qs s) = act_uuids s"
  "act_tokens (fold (\<lambda>q. emit e (k q)) qs s) = act_tokens s"
  "act_cancelled (fold (\<lambda>q. emit e (k q)) qs s) = act_cancelled s"
  "act_panicked (fold (\<lambda>q. emit e (k q)) qs s) = act_panicked s"
  by (rule fold_frame, simp)+

lemma keep_latest_frame [simp]:
  "act_config (keep_latest e p s) = act_config s"
  "act_config_revision (keep_latest e p s) = act_config_revision s"
  "act_timers (keep_latest e p s) = act_timers s"
  "act_retry_timers (keep_latest e p s) = act_retry_timers s"
  "act_tasks (keep_latest e p s) = act_tasks s"
  "act_running (keep_latest e p s) = act_running s"
  "act_total_running (keep_latest e p s) = act_total_running s"
  "act_status (keep_latest e p s) = act_status s"
  "act_batch_sequence (keep_latest e p s) = act_batch_sequence s"
  "act_shutdown_response (keep_latest e p s) = act_shutdown_response s"
  "act_uuids (keep_latest e p s) = act_uuids s"
  "act_tokens (keep_latest e p s) = act_tokens s"
  "act_cancelled (keep_latest e p s) = act_cancelled s"
  "act_panicked (keep_latest e p s) = act_panicked s"
  by (simp_all add: keep_latest_def Let_def case_prod_beta fold_emit_frame)

lemma enqueue_frame [simp]:
  "act_config (enqueue e j p s) = act_config s"
  "act_config_revision (enqueue e j p s) = act_config_revision s"
  "act_jobs (enqueue e j p s) = act_jobs s"
  "act_timers (enqueue e j p s) = act_timers s"
  "act_retry_timers (enqueue e j p s) = act_retry_timers s"
  "act_tasks (enqueue e j p s) = act_tasks s"
  "act_running (enqueue e j p s) = act_running s"
  "act_total_running (enqueue e j p s) = act_total_running s"
  "act_status (enqueue e j p s) = act_status s"
  "act_batch_sequence (enqueue e j p s) = act_batch_sequence s"
  "act_shutdown_response (enqueue e j p s) = act_shutdown_response s"
  "act_uuids (enqueue e j p s) = act_uuids s"
  "act_tokens (enqueue e j p s) = act_tokens s"
  "act_cancelled (enqueue e j p s) = act_cancelled s"
  "act_panicked (enqueue e j p s) = act_panicked s"
  by (simp_all add: enqueue_def Let_def)

lemma enqueue_ready [simp]: "act_ready (enqueue e j p s) = rq_insert p (act_ready s)"
  by (simp add: enqueue_def Let_def)

lemma admit_cases:
  obtains (missing) "map_of (act_jobs s) (pe_job_id p) = None" "admit e p fb s = (Skipped, s)"
  | (known) job t where "map_of (act_jobs s) (pe_job_id p) = Some job"
      "t = (if je_coalescing job = KeepLatest \<and> is_replaceable_trigger (pe_kind p)
            then keep_latest e p s else s)"
      "admit e p fb s = (Accepted, enqueue e (pe_job_id p) p t) \<and>
         rq_len (act_ready t) < global_max_pending (act_config s) \<and>
         rq_count_job (act_ready t) (pe_job_id p) < job_pending_limit (act_config s) job
       \<or> admit e p fb s = (Blocked, block e p t)
       \<or> admit e p fb s = (Skipped, emit e (TriggerSkipped (pe_job_id p) (pe_version p)
           (pe_scheduled_at p) ''pending capacity reached'') t) \<and>
         is_replaceable_trigger (pe_kind p) \<and> \<not> fb
       \<or> (\<exists>old ready. remove_oldest_trigger (pe_job_id p) (act_ready t) = (Some old, ready) \<and>
           is_replaceable_trigger (pe_kind p) \<and> \<not> fb \<and>
           admit e p fb s = (Accepted, enqueue e (pe_job_id p) p
             (emit e (PendingReplaced (pe_job_id p) (pe_run_id old) (pe_run_id p))
               (t\<lparr>act_ready := ready\<rparr>))))"
proof (cases "map_of (act_jobs s) (pe_job_id p)")
  case None
  then show ?thesis using missing by (simp add: admit_def)
next
  case (Some job)
  define t where "t = (if je_coalescing job = KeepLatest \<and> is_replaceable_trigger (pe_kind p)
            then keep_latest e p s else s)"
  have config: "act_config t = act_config s" by (simp add: t_def)
  show ?thesis
    by (rule known [OF Some t_def])
      (auto simp: admit_def Let_def Some t_def [symmetric] config not_le
        split: capacity_policy.splits option.splits prod.splits)
qed

text \<open>\<open>actor_rest\<close> blanks what admission works on; the loops keep the rest.\<close>

definition actor_rest :: "actor \<Rightarrow> actor" where
  "actor_rest s = s\<lparr>act_jobs := [], act_ready := rq_new, act_events := [],
     act_event_sequence := 0, act_uuids := 0\<rparr>"

lemma rest_fields:
  assumes "actor_rest t = actor_rest s"
  shows "act_config t = act_config s"
    and "act_config_revision t = act_config_revision s"
    and "act_timers t = act_timers s"
    and "act_retry_timers t = act_retry_timers s"
    and "act_tasks t = act_tasks s"
    and "act_running t = act_running s"
    and "act_total_running t = act_total_running s"
    and "act_status t = act_status s"
    and "act_batch_sequence t = act_batch_sequence s"
    and "act_shutdown_response t = act_shutdown_response s"
    and "act_tokens t = act_tokens s"
    and "act_cancelled t = act_cancelled s"
    and "act_panicked t = act_panicked s"
  using assms
  by (simp_all add: actor_rest_def) (cases s, cases t, simp)+

lemma rest_update [simp]:
  "actor_rest (s\<lparr>act_jobs := x1\<rparr>) = actor_rest s"
  "actor_rest (s\<lparr>act_ready := x2\<rparr>) = actor_rest s"
  "actor_rest (s\<lparr>act_uuids := x3\<rparr>) = actor_rest s"
  "actor_rest (emit e k s) = actor_rest s"
  "actor_rest (fold (\<lambda>q. emit e (f q)) qs s) = actor_rest s"
  by (simp_all add: actor_rest_def emit_def Let_def fold_frame [of actor_rest])

lemma rest_admit [simp]: "actor_rest (snd (admit e p fb s)) = actor_rest s"
proof -
  have "actor_rest (keep_latest e p t) = actor_rest t"
    and "actor_rest (block e p t) = actor_rest t"
    and "actor_rest (enqueue e j p t) = actor_rest t" for t j
    by (simp_all add: keep_latest_def block_def enqueue_def Let_def case_prod_beta)
  then show ?thesis by (cases rule: admit_cases [of s p e fb]) auto
qed

lemma rest_admit_occurrences [simp]:
  "actor_rest (snd (admit_occurrences e mk once ts s)) = actor_rest s"
  by (induction ts arbitrary: s) (simp_all add: Let_def case_prod_beta)

text \<open>What holds at the start and survives each execution the loop takes from the front
  of the held-back ones, holds at its end.\<close>

lemma restore_loop_invariant:
  assumes "I s"
    and "\<And>t job p rest. I t \<Longrightarrow> map_of (act_jobs t) j = Some job \<Longrightarrow> je_blocked job = p # rest \<Longrightarrow>
      je_version job = pe_version p \<Longrightarrow> rq_len (act_ready t) < global_max_pending (act_config t) \<Longrightarrow>
      rq_count_job (act_ready t) j < lim \<Longrightarrow>
      I (enqueue e j p (t\<lparr>act_jobs := modify j (\<lambda>job. job\<lparr>je_blocked := rest\<rparr>) (act_jobs t)\<rparr>))"
    and "\<And>t job p rest. I t \<Longrightarrow> map_of (act_jobs t) j = Some job \<Longrightarrow> je_blocked job = p # rest \<Longrightarrow>
      je_version job \<noteq> pe_version p \<Longrightarrow>
      I (t\<lparr>act_jobs := modify j (\<lambda>job. job\<lparr>je_blocked := rest\<rparr>) (act_jobs t)\<rparr>)"
  shows "I (snd (restore_loop e j lim r s))"
  using assms
proof (induction e j lim r s rule: restore_loop.induct)
  case (1 e j lim r s)
  show ?case
  proof (cases "rq_len (act_ready s) < global_max_pending (act_config s) \<and>
      rq_count_job (act_ready s) j < lim \<and> (\<exists>job p rest. map_of (act_jobs s) j = Some job \<and>
      je_blocked job = p # rest)")
    case False
    with "1.prems"(1) show ?thesis
      by (subst restore_loop.simps) (auto split: option.splits list.splits)
  next
    case True
    then obtain job p rest where job: "map_of (act_jobs s) j = Some job" "je_blocked job = p # rest"
      and room: "rq_len (act_ready s) < global_max_pending (act_config s) \<and>
        rq_count_job (act_ready s) j < lim" by blast
    let ?s = "s\<lparr>act_jobs := modify j (\<lambda>job. job\<lparr>je_blocked := rest\<rparr>) (act_jobs s)\<rparr>"
    show ?thesis
    proof (cases "je_version job = pe_version p")
      case same: True
      have "I (enqueue e j p ?s)" using "1.prems"(2) [OF "1.prems"(1) job same] room by simp
      from "1.IH"(1) [OF room job refl same this "1.prems"(2,3)] show ?thesis
        using room job same by (subst restore_loop.simps) (simp add: Let_def)
    next
      case stale: False
      from "1.IH"(2) [OF room job refl stale _ "1.prems"(2,3)] "1.prems"(3) [OF "1.prems"(1) job stale]
      show ?thesis
        using room job stale by (subst restore_loop.simps) (simp add: Let_def)
    qed
  qed
qed

lemma rest_restore_loop [simp]: "actor_rest (snd (restore_loop e j lim r s)) = actor_rest s"
  by (rule restore_loop_invariant [where I = "\<lambda>t. actor_rest t = actor_rest s"])
    (simp_all add: enqueue_def Let_def)

lemma take_expired_timers:
  "(snd (take_expired n ks s))\<lparr>act_timers := []\<rparr> = s\<lparr>act_timers := []\<rparr>"
  by (induction n ks s rule: take_expired.induct) (auto simp: case_prod_beta split: option.splits)

lemma admit_frame [simp]:
  "act_config (snd (admit e p fb s)) = act_config s"
  "act_config_revision (snd (admit e p fb s)) = act_config_revision s"
  "act_timers (snd (admit e p fb s)) = act_timers s"
  "act_retry_timers (snd (admit e p fb s)) = act_retry_timers s"
  "act_tasks (snd (admit e p fb s)) = act_tasks s"
  "act_running (snd (admit e p fb s)) = act_running s"
  "act_total_running (snd (admit e p fb s)) = act_total_running s"
  "act_status (snd (admit e p fb s)) = act_status s"
  "act_batch_sequence (snd (admit e p fb s)) = act_batch_sequence s"
  "act_shutdown_response (snd (admit e p fb s)) = act_shutdown_response s"
  "act_tokens (snd (admit e p fb s)) = act_tokens s"
  "act_cancelled (snd (admit e p fb s)) = act_cancelled s"
  "act_panicked (snd (admit e p fb s)) = act_panicked s"
  by (simp_all add: rest_fields [OF rest_admit])

lemma admit_occurrences_frame [simp]:
  "act_config (snd (admit_occurrences e mk once ts s)) = act_config s"
  "act_config_revision (snd (admit_occurrences e mk once ts s)) = act_config_revision s"
  "act_timers (snd (admit_occurrences e mk once ts s)) = act_timers s"
  "act_retry_timers (snd (admit_occurrences e mk once ts s)) = act_retry_timers s"
  "act_tasks (snd (admit_occurrences e mk once ts s)) = act_tasks s"
  "act_running (snd (admit_occurrences e mk once ts s)) = act_running s"
  "act_total_running (snd (admit_occurrences e mk once ts s)) = act_total_running s"
  "act_status (snd (admit_occurrences e mk once ts s)) = act_status s"
  "act_batch_sequence (snd (admit_occurrences e mk once ts s)) = act_batch_sequence s"
  "act_shutdown_response (snd (admit_occurrences e mk once ts s)) = act_shutdown_response s"
  "act_tokens (snd (admit_occurrences e mk once ts s)) = act_tokens s"
  "act_cancelled (snd (admit_occurrences e mk once ts s)) = act_cancelled s"
  "act_panicked (snd (admit_occurrences e mk once ts s)) = act_panicked s"
  by (simp_all add: rest_fields [OF rest_admit_occurrences])

lemma restore_loop_frame [simp]:
  "act_config (snd (restore_loop e j lim r s)) = act_config s"
  "act_config_revision (snd (restore_loop e j lim r s)) = act_config_revision s"
  "act_timers (snd (restore_loop e j lim r s)) = act_timers s"
  "act_retry_timers (snd (restore_loop e j lim r s)) = act_retry_timers s"
  "act_tasks (snd (restore_loop e j lim r s)) = act_tasks s"
  "act_running (snd (restore_loop e j lim r s)) = act_running s"
  "act_total_running (snd (restore_loop e j lim r s)) = act_total_running s"
  "act_status (snd (restore_loop e j lim r s)) = act_status s"
  "act_batch_sequence (snd (restore_loop e j lim r s)) = act_batch_sequence s"
  "act_shutdown_response (snd (restore_loop e j lim r s)) = act_shutdown_response s"
  "act_tokens (snd (restore_loop e j lim r s)) = act_tokens s"
  "act_cancelled (snd (restore_loop e j lim r s)) = act_cancelled s"
  "act_panicked (snd (restore_loop e j lim r s)) = act_panicked s"
  by (simp_all add: rest_fields [OF rest_restore_loop])

lemma take_expired_frame [simp]:
  "act_config (snd (take_expired n ks s)) = act_config s"
  "act_config_revision (snd (take_expired n ks s)) = act_config_revision s"
  "act_jobs (snd (take_expired n ks s)) = act_jobs s"
  "act_retry_timers (snd (take_expired n ks s)) = act_retry_timers s"
  "act_ready (snd (take_expired n ks s)) = act_ready s"
  "act_tasks (snd (take_expired n ks s)) = act_tasks s"
  "act_running (snd (take_expired n ks s)) = act_running s"
  "act_total_running (snd (take_expired n ks s)) = act_total_running s"
  "act_events (snd (take_expired n ks s)) = act_events s"
  "act_status (snd (take_expired n ks s)) = act_status s"
  "act_event_sequence (snd (take_expired n ks s)) = act_event_sequence s"
  "act_batch_sequence (snd (take_expired n ks s)) = act_batch_sequence s"
  "act_shutdown_response (snd (take_expired n ks s)) = act_shutdown_response s"
  "act_uuids (snd (take_expired n ks s)) = act_uuids s"
  "act_tokens (snd (take_expired n ks s)) = act_tokens s"
  "act_cancelled (snd (take_expired n ks s)) = act_cancelled s"
  "act_panicked (snd (take_expired n ks s)) = act_panicked s"
  using take_expired_timers [of n ks s] by (cases s, cases "snd (take_expired n ks s)", simp)+

lemma handle_normal_frame [simp]:
  "act_config (handle_normal_trigger e j t b rn s) = act_config s"
  "act_config_revision (handle_normal_trigger e j t b rn s) = act_config_revision s"
  "act_tasks (handle_normal_trigger e j t b rn s) = act_tasks s"
  "act_running (handle_normal_trigger e j t b rn s) = act_running s"
  "act_total_running (handle_normal_trigger e j t b rn s) = act_total_running s"
  "act_status (handle_normal_trigger e j t b rn s) = act_status s"
  "act_batch_sequence (handle_normal_trigger e j t b rn s) = act_batch_sequence s"
  "act_shutdown_response (handle_normal_trigger e j t b rn s) = act_shutdown_response s"
  "act_tokens (handle_normal_trigger e j t b rn s) = act_tokens s"
  by (simp_all add: handle_normal_trigger_def Let_def case_prod_beta split: option.splits sum.splits)

lemma handle_timer_frame [simp]:
  "act_config (handle_timer e b t s) = act_config s"
  "act_config_revision (handle_timer e b t s) = act_config_revision s"
  "act_tasks (handle_timer e b t s) = act_tasks s"
  "act_running (handle_timer e b t s) = act_running s"
  "act_total_running (handle_timer e b t s) = act_total_running s"
  "act_status (handle_timer e b t s) = act_status s"
  "act_batch_sequence (handle_timer e b t s) = act_batch_sequence s"
  "act_shutdown_response (handle_timer e b t s) = act_shutdown_response s"
  "act_tokens (handle_timer e b t s) = act_tokens s"
  by (simp_all add: handle_timer_def split: option.splits timer_kind.splits)

lemma handle_batch_frame [simp]:
  "act_config (handle_expired_batch e t ks s) = act_config s"
  "act_config_revision (handle_expired_batch e t ks s) = act_config_revision s"
  "act_tasks (handle_expired_batch e t ks s) = act_tasks s"
  "act_running (handle_expired_batch e t ks s) = act_running s"
  "act_total_running (handle_expired_batch e t ks s) = act_total_running s"
  "act_status (handle_expired_batch e t ks s) = act_status s"
  "act_shutdown_response (handle_expired_batch e t ks s) = act_shutdown_response s"
  "act_tokens (handle_expired_batch e t ks s) = act_tokens s"
  unfolding handle_expired_batch_def Let_def case_prod_beta
  by (rule trans [OF fold_frame], simp, simp)+

lemma restore_job_frame [simp]:
  "act_config (restore_job e j s) = act_config s"
  "act_config_revision (restore_job e j s) = act_config_revision s"
  "act_retry_timers (restore_job e j s) = act_retry_timers s"
  "act_tasks (restore_job e j s) = act_tasks s"
  "act_running (restore_job e j s) = act_running s"
  "act_total_running (restore_job e j s) = act_total_running s"
  "act_status (restore_job e j s) = act_status s"
  "act_batch_sequence (restore_job e j s) = act_batch_sequence s"
  "act_shutdown_response (restore_job e j s) = act_shutdown_response s"
  "act_tokens (restore_job e j s) = act_tokens s"
  "act_cancelled (restore_job e j s) = act_cancelled s"
  by (simp_all add: restore_job_def Let_def case_prod_beta split: option.splits sum.splits)

lemma restore_blocked_frame [simp]:
  "act_config (restore_blocked e s) = act_config s"
  "act_config_revision (restore_blocked e s) = act_config_revision s"
  "act_retry_timers (restore_blocked e s) = act_retry_timers s"
  "act_tasks (restore_blocked e s) = act_tasks s"
  "act_running (restore_blocked e s) = act_running s"
  "act_total_running (restore_blocked e s) = act_total_running s"
  "act_status (restore_blocked e s) = act_status s"
  "act_batch_sequence (restore_blocked e s) = act_batch_sequence s"
  "act_shutdown_response (restore_blocked e s) = act_shutdown_response s"
  "act_tokens (restore_blocked e s) = act_tokens s"
  "act_cancelled (restore_blocked e s) = act_cancelled s"
  unfolding restore_blocked_def by (simp, intro impI fold_frame, simp)+

section \<open>Admission keeps the Jobs and the event stream\<close>

lemma cores_admission [simp]:
  "cores (block e p s) = cores s"
  "cores (enqueue e j p s) = cores s"
  "cores (keep_latest e p s) = cores s"
  by (simp_all add: block_def enqueue_def keep_latest_def Let_def case_prod_beta
      fold_frame [of cores])

lemma cores_admit [simp]: "cores (snd (admit e p fb s)) = cores s"
  by (cases rule: admit_cases [of s p e fb]) auto

lemma cores_admit_occurrences [simp]: "cores (snd (admit_occurrences e mk once ts s)) = cores s"
  by (induction ts arbitrary: s) (simp_all add: Let_def case_prod_beta)

lemma cores_restore_loop [simp]: "cores (snd (restore_loop e j lim r s)) = cores s"
  by (rule restore_loop_invariant [where I = "\<lambda>t. cores t = cores s"]) simp_all

lemma cores_restore [simp]:
  "cores (restore_job e j s) = cores s" "cores (restore_blocked e s) = cores s"
proof -
  show job: "cores (restore_job e j s) = cores s" for j s
    by (simp add: restore_job_def Let_def case_prod_beta split: option.splits sum.splits)
  show "cores (restore_blocked e s) = cores s"
    by (simp add: restore_blocked_def fold_frame [of cores] job)
qed

lemma extends_admission [event_facts]:
  assumes "extends s t"
  shows "extends s (block e p t)" and "extends s (enqueue e j p t)" and "extends s (keep_latest e p t)"
  using assms
  by (auto simp: block_def enqueue_def keep_latest_def Let_def case_prod_beta intro!: event_facts)

lemma extends_admit [event_facts]: "extends s t \<Longrightarrow> extends s (snd (admit e p fb t))"
  by (cases rule: admit_cases [of t p e fb]) (auto intro!: event_facts)

lemma extends_admit_occurrences [event_facts]:
  "extends s t \<Longrightarrow> extends s (snd (admit_occurrences e mk once ts t))"
  by (induction ts arbitrary: t) (simp_all add: Let_def case_prod_beta extends_admit)

lemma extends_restore_loop [event_facts]:
  "extends s t \<Longrightarrow> extends s (snd (restore_loop e j lim r t))"
  by (rule restore_loop_invariant [where I = "extends s"]) (simp_all add: extends_admission)

lemma extends_restore [event_facts]:
  assumes "extends s t"
  shows "extends s (restore_job e j t)" and "extends s (restore_blocked e t)"
proof -
  have job: "extends s (restore_job e j t)" if "extends s t" for j t
    using that
    by (auto simp: restore_job_def Let_def case_prod_beta split: option.splits sum.splits
        intro!: event_facts)
  then show "extends s (restore_job e j t)" using assms .
  show "extends s (restore_blocked e t)"
    using assms by (auto simp: restore_blocked_def intro!: extends_fold job)
qed

lemma extends_timers [event_facts]:
  assumes "extends s t"
  shows "extends s (handle_normal_trigger e j at b rn t)" and "extends s (handle_timer e b te t)"
    and "extends s (handle_expired_batch e te ks t)"
proof -
  have normal: "extends s (handle_normal_trigger e j at b rn t)" if "extends s t" for j at b rn t
    using that
    by (auto simp: handle_normal_trigger_def Let_def case_prod_beta
        split: option.splits sum.splits intro!: event_facts)
  then show "extends s (handle_normal_trigger e j at b rn t)" using assms .
  have timer: "extends s (handle_timer e b te t)" if "extends s t" for b te t
    using that
    by (auto simp: handle_timer_def split: option.splits timer_kind.splits intro!: event_facts)
      (simp_all add: normal)
  then show "extends s (handle_timer e b te t)" using assms .
  have "extends s (snd (take_expired n ks u)) = extends s u" for n u
    by (simp add: extends_def)
  with assms show "extends s (handle_expired_batch e te ks t)"
    by (auto simp: handle_expired_batch_def Let_def case_prod_beta intro!: extends_fold timer)
qed

section \<open>The shape of a trigger\<close>

text \<open>\<open>handle_normal_trigger\<close> switches the Job off, or admits occurrences of it, all made
  from the Job as it is, and may then arm the next timer.\<close>

lemma handle_normal_cases:
  obtains (missing) "map_of (act_jobs s) j = None" "handle_normal_trigger e j at b rn s = s"
  | (disabled) job err where "map_of (act_jobs s) j = Some job"
      "handle_normal_trigger e j at b rn s = snd (force_disable e j (ErrorText err) s)"
  | (admitted) job mk once ts t u where "map_of (act_jobs s) j = Some job"
      "\<And>r x. pe_job_id (mk r x) = j \<and> pe_version (mk r x) = je_version job \<and> pe_run_id (mk r x) = r"
      "t = s \<or> (\<exists>k. t = emit e k s)"
      "u = snd (admit_occurrences e mk once ts t)"
      "handle_normal_trigger e j at b rn s = u \<or>
       (\<exists>n. handle_normal_trigger e j at b rn s = schedule_normal e j n TimerNormal u)"
proof (cases "map_of (act_jobs s) j")
  case None
  then show ?thesis using missing by (simp add: handle_normal_trigger_def)
next
  case (Some job)
  define due where "due = (if rn
    then Inr \<lparr>ds_occurrences = [utc_now e],
              ds_next = (case next_after e (tr_schedule (je_trigger job)) (utc_now e) of
                           Inr n \<Rightarrow> n | Inl _ \<Rightarrow> None)\<rparr>
    else due_occurrences e (je_trigger job) at (utc_now e) (maximum_catch_up (act_config s)))"
  show ?thesis
  proof (cases due)
    case (Inl err)
    then show ?thesis
      using disabled [OF Some, of err]
      by (simp add: handle_normal_trigger_def Some due_def [symmetric])
  next
    case (Inr ds)
    define once where "once = is_once (tr_schedule (je_trigger job))"
    define mk where "mk = (\<lambda>run t.
       \<lparr>pe_job_id = j, pe_version = je_version job, pe_run_id = run, pe_attempt = 1,
        pe_scheduled_at = t,
        pe_kind = (if once then POnce else if rn then PRunNow else PNormal),
        pe_priority = je_priority job, pe_batch_id = b\<rparr>)"
    define t where "t = (if ds_occurrences ds = []
      then emit e (TriggerSkipped j (je_version job) at ''misfire policy skipped expired occurrences'') s
      else s)"
    obtain blk u where u: "admit_occurrences e mk once (ds_occurrences ds) t = (blk, u)"
      by fastforce
    have res: "handle_normal_trigger e j at b rn s =
      (case ds_next ds of Some n \<Rightarrow> if blk then u else schedule_normal e j n TimerNormal u | None \<Rightarrow> u)"
      using Inr u
      by (simp add: handle_normal_trigger_def Some due_def [symmetric] Let_def once_def [symmetric]
          mk_def [symmetric] t_def [symmetric] del: if_split)
    show ?thesis
    proof (rule admitted [OF Some])
      show "pe_job_id (mk r x) = j \<and> pe_version (mk r x) = je_version job \<and> pe_run_id (mk r x) = r"
        for r x by (simp add: mk_def)
      show "t = s \<or> (\<exists>k. t = emit e k s)" by (auto simp: t_def)
      show "u = snd (admit_occurrences e mk once (ds_occurrences ds) t)" by (simp add: u)
      show "handle_normal_trigger e j at b rn s = u \<or>
          (\<exists>n. handle_normal_trigger e j at b rn s = schedule_normal e j n TimerNormal u)"
        unfolding res by (auto split: option.splits)
    qed
  qed
qed

section \<open>What waits\<close>

text \<open>The version of a Job and the executions held back for it, and everything that waits
  for a slot.\<close>

definition job_version :: "actor \<Rightarrow> job_id \<Rightarrow> u64 option" where
  "job_version s j = map_option je_version (map_of (act_jobs s) j)"

definition job_blocked :: "actor \<Rightarrow> job_id \<Rightarrow> pending_execution list" where
  "job_blocked s j = (case map_of (act_jobs s) j of Some job \<Rightarrow> je_blocked job | None \<Rightarrow> [])"

definition waiting :: "actor \<Rightarrow> pending_execution set" where
  "waiting s = set (rq_values (act_ready s)) \<union> (\<Union>j. set (job_blocked s j))"

lemma job_version_core:
  "job_version s j = map_option je_version (map_option je_core (map_of (act_jobs s) j))"
  by (simp add: job_version_def option.map_comp comp_def je_core_def)

lemma job_version_cores: "cores t = cores s \<Longrightarrow> job_version t = job_version s"
  by (intro ext) (simp only: job_version_core cores_lookup [of t s])

lemma job_blocked_modify [simp]:
  "job_blocked (s\<lparr>act_jobs := modify j f (act_jobs s)\<rparr>) i =
     (if i = j then (case map_of (act_jobs s) j of Some job \<Rightarrow> je_blocked (f job) | None \<Rightarrow> [])
      else job_blocked s i)"
  by (auto simp: job_blocked_def split: option.splits)

lemma job_blocked_jobs: "act_jobs t = act_jobs s \<Longrightarrow> job_blocked t = job_blocked s"
  by (intro ext) (simp add: job_blocked_def)

lemma block_blocked [simp]:
  "job_blocked (block e p s) j =
     (if j = pe_job_id p \<and> map_of (act_jobs s) j \<noteq> None then job_blocked s j @ [p] else job_blocked s j)"
proof -
  have "job_blocked (block e p s) j = job_blocked (s\<lparr>act_jobs := modify (pe_job_id p)
      (\<lambda>job. job\<lparr>je_blocked := je_blocked job @ [p]\<rparr>) (act_jobs s)\<rparr>) j"
    by (simp add: block_def job_blocked_def)
  then show ?thesis by (simp add: job_blocked_def split: option.splits)
qed

lemma enqueue_blocked [simp]: "job_blocked (enqueue e j p s) = job_blocked s"
  by (rule job_blocked_jobs) simp

lemma keep_latest_blocked [simp]:
  "job_blocked (keep_latest e p s) j =
     (if j = pe_job_id p then filter (\<lambda>q. \<not> is_replaceable_trigger (pe_kind q)) (job_blocked s j)
      else job_blocked s j)"
  by (simp add: keep_latest_def Let_def case_prod_beta job_blocked_def split: option.splits)

lemma keep_latest_ready [simp]:
  "act_ready (keep_latest e p s) = snd (remove_normal_triggers (pe_job_id p) (act_ready s))"
  by (simp add: keep_latest_def Let_def case_prod_beta)

subsection \<open>The queue stays well formed\<close>

lemma min_by_key_in: "min_by_key f xs = Some x \<Longrightarrow> x \<in> set xs"
  by (induction xs arbitrary: x) (auto split: option.splits if_splits)

lemma remove_oldest_SomeE:
  assumes "remove_oldest_trigger j q = (Some old, q')"
  obtains p where "min_by_key pe_scheduled_at
      (filter (\<lambda>p. pe_job_id p = j \<and> is_replaceable_trigger (pe_kind p)) (rq_values q)) = Some p"
    and "map_of (rq_pending q) (pe_run_id p) = Some old"
    and "q' = q\<lparr>rq_pending := AList.delete (pe_run_id p) (rq_pending q)\<rparr>"
  using assms by (auto simp: remove_oldest_trigger_def split: option.splits)

lemma remove_oldest_values:
  assumes "rq_inv q" and "remove_oldest_trigger j q = (Some old, q')"
  shows "rq_inv q'" and "old \<in> set (rq_values q)" and "is_replaceable_trigger (pe_kind old)"
    and "pe_job_id old = j" and "set (rq_values q') = set (rq_values q) - {old}"
    and "Suc (rq_len q') = rq_len q"
proof -
  from assms(2) obtain p where
    p: "min_by_key pe_scheduled_at
          (filter (\<lambda>p. pe_job_id p = j \<and> is_replaceable_trigger (pe_kind p)) (rq_values q)) = Some p"
    and old: "map_of (rq_pending q) (pe_run_id p) = Some old"
    and q': "q' = q\<lparr>rq_pending := AList.delete (pe_run_id p) (rq_pending q)\<rparr>"
    by (rule remove_oldest_SomeE)
  from min_by_key_in [OF p] have mem: "p \<in> set (rq_values q)" "pe_job_id p = j"
    "is_replaceable_trigger (pe_kind p)" by auto
  with old rq_values_map_of [OF assms(1), of p] have "old = p" by simp
  with mem show "old \<in> set (rq_values q)" "is_replaceable_trigger (pe_kind old)" "pe_job_id old = j"
    by simp_all
  show "rq_inv q'" using remove_oldest_inv [OF assms(1), of j] assms(2) by simp
  show "set (rq_values q') = set (rq_values q) - {old}"
    using delete_values [OF assms(1) old] by (simp add: q' rq_values_def)
  have "pe_run_id p \<in> fst ` set (rq_pending q)" using old by (force dest: map_of_SomeD)
  then show "Suc (rq_len q') = rq_len q"
    using assms(1) length_delete_wf [of "rq_pending q" "pe_run_id p"] length_delete_less
    by (fastforce simp: q' rq_len_def rq_inv_def)
qed

lemma ready_inv_admission [queue_facts]:
  assumes "rq_inv (act_ready s)"
  shows "rq_inv (act_ready (block e p s))" and "rq_inv (act_ready (enqueue e j p s))"
    and "rq_inv (act_ready (keep_latest e p s))"
  using assms by (simp_all add: insert_inv remove_normal_triggers_def extract_if_inv)

lemma ready_inv_admit [queue_facts]:
  assumes "rq_inv (act_ready s)"
  shows "rq_inv (act_ready (snd (admit e p fb s)))"
proof (cases rule: admit_cases [of s p e fb])
  case missing
  with assms show ?thesis by simp
next
  case (known job t)
  have t: "rq_inv (act_ready t)" using assms by (simp add: known(2) remove_normal_triggers_def extract_if_inv)
  from known(3) show ?thesis
  proof (elim disjE exE conjE)
    fix old ready
    assume "remove_oldest_trigger (pe_job_id p) (act_ready t) = (Some old, ready)"
      and "admit e p fb s = (Accepted, enqueue e (pe_job_id p) p
        (emit e (PendingReplaced (pe_job_id p) (pe_run_id old) (pe_run_id p)) (t\<lparr>act_ready := ready\<rparr>)))"
    with remove_oldest_inv [OF t, of "pe_job_id p"] show ?thesis by (simp add: insert_inv)
  qed (use t in \<open>simp_all add: insert_inv\<close>)
qed

lemma ready_inv_admit_occurrences [queue_facts]:
  "rq_inv (act_ready s) \<Longrightarrow> rq_inv (act_ready (snd (admit_occurrences e mk once ts s)))"
  by (induction ts arbitrary: s) (simp_all add: Let_def case_prod_beta ready_inv_admit)

lemma ready_inv_restore [queue_facts]:
  assumes "rq_inv (act_ready s)"
  shows "rq_inv (act_ready (snd (restore_loop e j lim r s)))" and "rq_inv (act_ready (restore_job e j s))"
    and "rq_inv (act_ready (restore_blocked e s))"
proof -
  have loop: "rq_inv (act_ready (snd (restore_loop e j lim r s)))" if "rq_inv (act_ready s)" for j lim r s
    by (rule restore_loop_invariant [where I = "\<lambda>t. rq_inv (act_ready t)"])
      (simp_all add: that insert_inv)
  then show "rq_inv (act_ready (snd (restore_loop e j lim r s)))" using assms .
  have job: "rq_inv (act_ready (restore_job e j s))" if "rq_inv (act_ready s)" for j s
    using loop [OF that]
    by (simp add: restore_job_def Let_def case_prod_beta that split: option.splits sum.splits)
  then show "rq_inv (act_ready (restore_job e j s))" using assms .
  have "rq_inv (act_ready (fold (restore_job e) js t))" if "rq_inv (act_ready t)" for js t
    using that by (induction js arbitrary: t) (simp_all add: job)
  with assms show "rq_inv (act_ready (restore_blocked e s))" by (simp add: restore_blocked_def)
qed

lemma ready_inv_timers [queue_facts]:
  assumes "rq_inv (act_ready s)"
  shows "rq_inv (act_ready (snd (force_disable e j why s)))"
    and "rq_inv (act_ready (handle_normal_trigger e j at b rn s))"
    and "rq_inv (act_ready (handle_timer e b te s))"
    and "rq_inv (act_ready (handle_expired_batch e te ks s))"
proof -
  have disable: "rq_inv (act_ready (snd (force_disable e j why s)))"
    if "rq_inv (act_ready s)" for j why s
    using that by (simp add: force_disable_def Let_def remove_job_def extract_if_inv split: option.splits)
  then show "rq_inv (act_ready (snd (force_disable e j why s)))" using assms .
  have normal: "rq_inv (act_ready (handle_normal_trigger e j at b rn s))"
    if "rq_inv (act_ready s)" for j at b rn s
    by (cases rule: handle_normal_cases [of s j e at b rn])
      (use that disable ready_inv_admit_occurrences in auto)
  then show "rq_inv (act_ready (handle_normal_trigger e j at b rn s))" using assms .
  have timer: "rq_inv (act_ready (handle_timer e b te s))" if "rq_inv (act_ready s)" for b te s
    using that
    by (simp add: handle_timer_def normal ready_inv_admit split: option.splits timer_kind.splits)
  then show "rq_inv (act_ready (handle_timer e b te s))" using assms .
  have "rq_inv (act_ready (fold (handle_timer e b) ts t))" if "rq_inv (act_ready t)" for b ts t
    using that by (induction ts arbitrary: t) (simp_all add: timer)
  with assms show "rq_inv (act_ready (handle_expired_batch e te ks s))"
    by (simp add: handle_expired_batch_def Let_def case_prod_beta timer)
qed

subsection \<open>Nothing that must not be lost is lost\<close>

lemma keep_latest_waiting:
  assumes "x \<in> waiting s" and "\<not> is_replaceable_trigger (pe_kind x)"
  shows "x \<in> waiting (keep_latest e p s)"
proof -
  from assms(1) consider "x \<in> set (rq_values (act_ready s))" | j where "x \<in> set (job_blocked s j)"
    by (auto simp: waiting_def)
  then show ?thesis
  proof cases
    case 1
    with assms(2) show ?thesis by (auto simp: waiting_def remove_normal_triggers_def)
  next
    case (2 j)
    with assms(2) have "x \<in> set (job_blocked (keep_latest e p s) j)" by auto
    then show ?thesis unfolding waiting_def by blast
  qed
qed

lemma enqueue_waiting:
  assumes "rq_inv (act_ready s)"
  shows "waiting (enqueue e j p s) \<supseteq> insert p {x \<in> waiting s. pe_run_id x \<noteq> pe_run_id p}"
  using assms by (auto simp: waiting_def insert_values)

lemma block_waiting:
  assumes "map_of (act_jobs s) (pe_job_id p) \<noteq> None"
  shows "waiting (block e p s) = insert p (waiting s)"
  using assms by (auto simp: waiting_def split: if_splits)

lemma replace_waiting:
  assumes "rq_inv (act_ready t)" and "remove_oldest_trigger j (act_ready t) = (Some old, ready)"
  shows "waiting (enqueue e j p (emit e k (t\<lparr>act_ready := ready\<rparr>))) \<supseteq>
    insert p {x \<in> waiting t. \<not> is_replaceable_trigger (pe_kind x) \<and> pe_run_id x \<noteq> pe_run_id p}"
proof -
  let ?u = "emit e k (t\<lparr>act_ready := ready\<rparr>)"
  note old = remove_oldest_values [OF assms]
  have "x \<in> waiting ?u" if "x \<in> waiting t" "\<not> is_replaceable_trigger (pe_kind x)" for x
    using that old(3,5) by (auto simp: waiting_def job_blocked_def)
  moreover have "waiting (enqueue e j p ?u) \<supseteq> insert p {x \<in> waiting ?u. pe_run_id x \<noteq> pe_run_id p}"
    using old(1) by (intro enqueue_waiting) simp
  ultimately show ?thesis by blast
qed

lemma admit_waiting:
  assumes "rq_inv (act_ready s)" and "map_of (act_jobs s) (pe_job_id p) = Some job"
  shows "\<not> is_replaceable_trigger (pe_kind p) \<Longrightarrow> p \<in> waiting (snd (admit e p fb s))"
    and "x \<in> waiting s \<Longrightarrow> \<not> is_replaceable_trigger (pe_kind x) \<Longrightarrow> pe_run_id x \<noteq> pe_run_id p \<Longrightarrow>
      x \<in> waiting (snd (admit e p fb s))"
proof -
  have "(\<not> is_replaceable_trigger (pe_kind p) \<longrightarrow> p \<in> waiting (snd (admit e p fb s))) \<and>
    (x \<in> waiting s \<and> \<not> is_replaceable_trigger (pe_kind x) \<and> pe_run_id x \<noteq> pe_run_id p \<longrightarrow>
      x \<in> waiting (snd (admit e p fb s)))"
  proof (cases rule: admit_cases [of s p e fb])
    case missing
    with assms(2) show ?thesis by simp
  next
    case (known job' t)
    have inv: "rq_inv (act_ready t)"
      using assms(1) by (simp add: known(2) remove_normal_triggers_def extract_if_inv)
    have kept: "x \<in> waiting t" if "x \<in> waiting s" "\<not> is_replaceable_trigger (pe_kind x)"
      using keep_latest_waiting [OF that] that by (simp add: known(2))
    have "map_of (act_jobs t) (pe_job_id p) \<noteq> None"
      using cores_lookup [of t s "pe_job_id p"] assms(2) by (auto simp: known(2))
    note blk = block_waiting [OF this, of e]
    from known(3) show ?thesis
    proof (elim disjE exE conjE)
      assume "admit e p fb s = (Accepted, enqueue e (pe_job_id p) p t)"
      with enqueue_waiting [OF inv, of p e "pe_job_id p"] kept show ?thesis by auto
    next
      assume "admit e p fb s = (Blocked, block e p t)"
      with blk kept show ?thesis by auto
    next
      fix k
      assume "admit e p fb s = (Skipped, emit e k t)" and "is_replaceable_trigger (pe_kind p)"
      moreover have "waiting (emit e k t) = waiting t"
        by (simp add: waiting_def job_blocked_def)
      ultimately show ?thesis using kept by auto
    next
      fix old ready
      assume rm: "remove_oldest_trigger (pe_job_id p) (act_ready t) = (Some old, ready)"
        and "is_replaceable_trigger (pe_kind p)"
        and adm: "admit e p fb s = (Accepted, enqueue e (pe_job_id p) p
          (emit e (PendingReplaced (pe_job_id p) (pe_run_id old) (pe_run_id p)) (t\<lparr>act_ready := ready\<rparr>)))"
      with replace_waiting [OF inv rm, of p e] kept adm show ?thesis by auto
    qed
  qed
  then show "\<not> is_replaceable_trigger (pe_kind p) \<Longrightarrow> p \<in> waiting (snd (admit e p fb s))"
    and "x \<in> waiting s \<Longrightarrow> \<not> is_replaceable_trigger (pe_kind x) \<Longrightarrow> pe_run_id x \<noteq> pe_run_id p \<Longrightarrow>
      x \<in> waiting (snd (admit e p fb s))"
    by blast+
qed

subsection \<open>Capacity\<close>

lemma count_job_insert: "rq_count_job (rq_insert p q) j \<le> Suc (rq_count_job q j)"
proof -
  have "length (filter (\<lambda>x. P (snd x)) (AList.update k v m)) \<le>
      Suc (length (filter (\<lambda>x. P (snd x)) m))" for P k v and m :: "(run_id \<times> pending_execution) list"
    by (induction m) auto
  from this [of "\<lambda>p. pe_job_id p = j" "pe_run_id p" p "rq_pending q"] show ?thesis
    by (simp add: rq_count_job_def rq_values_def filter_map comp_def)
qed

lemma count_job_remove_oldest:
  assumes "rq_inv q" and "remove_oldest_trigger j q = (Some old, q')"
  shows "rq_count_job q' j < rq_count_job q j"
proof -
  from assms(2) obtain p where
    "min_by_key pe_scheduled_at
       (filter (\<lambda>p. pe_job_id p = j \<and> is_replaceable_trigger (pe_kind p)) (rq_values q)) = Some p"
    and p: "map_of (rq_pending q) (pe_run_id p) = Some old"
    and q': "q' = q\<lparr>rq_pending := AList.delete (pe_run_id p) (rq_pending q)\<rparr>"
    by (rule remove_oldest_SomeE)
  let ?mine = "filter (\<lambda>x. pe_job_id (snd x) = j) (rq_pending q)"
  have "(pe_run_id p, old) \<in> set ?mine"
    using map_of_SomeD [OF p] remove_oldest_values(4) [OF assms] by simp
  then have "length (filter (\<lambda>x. pe_run_id p \<noteq> fst x) ?mine) < length ?mine"
    by (rule length_filter_less) simp
  then show ?thesis
    by (simp add: rq_count_job_def rq_values_def q' AList.delete_eq filter_map comp_def
        case_prod_unfold conj_commute)
qed

lemma insert_len: "rq_len (rq_insert p q) \<le> Suc (rq_len q)"
  using insert_values_length [of p q] by (simp add: rq_len_def rq_values_def)

lemma keep_latest_counts:
  "rq_len (act_ready (keep_latest e p s)) \<le> rq_len (act_ready s)"
  "rq_count_job (act_ready (keep_latest e p s)) j \<le> rq_count_job (act_ready s) j"
proof -
  show "rq_len (act_ready (keep_latest e p s)) \<le> rq_len (act_ready s)"
    by (simp add: rq_len_def remove_normal_triggers_def rq_extract_if_def)
  have "length (filter P (filter Q xs)) \<le> length (filter P xs)"
    for P Q and xs :: "pending_execution list"
    by (induction xs) auto
  then show "rq_count_job (act_ready (keep_latest e p s)) j \<le> rq_count_job (act_ready s) j"
    by (simp add: rq_count_job_def remove_normal_triggers_def)
qed

lemma admit_bounds:
  assumes "rq_inv (act_ready s)"
  shows "rq_len (act_ready (snd (admit e p fb s)))
      \<le> max (rq_len (act_ready s)) (global_max_pending (act_config s))"
    and "map_of (act_jobs s) (pe_job_id p) = Some job \<Longrightarrow>
      rq_count_job (act_ready (snd (admit e p fb s))) (pe_job_id p)
        \<le> max (rq_count_job (act_ready s) (pe_job_id p)) (job_pending_limit (act_config s) job)"
proof -
  have "rq_len (act_ready (snd (admit e p fb s)))
      \<le> max (rq_len (act_ready s)) (global_max_pending (act_config s)) \<and>
    (map_of (act_jobs s) (pe_job_id p) = Some job \<longrightarrow>
      rq_count_job (act_ready (snd (admit e p fb s))) (pe_job_id p)
        \<le> max (rq_count_job (act_ready s) (pe_job_id p)) (job_pending_limit (act_config s) job))"
  proof (cases rule: admit_cases [of s p e fb])
    case (known job' t)
    have inv: "rq_inv (act_ready t)"
      using assms(1) by (simp add: known(2) remove_normal_triggers_def extract_if_inv)
    have le: "rq_len (act_ready t) \<le> rq_len (act_ready s)"
      "rq_count_job (act_ready t) (pe_job_id p) \<le> rq_count_job (act_ready s) (pe_job_id p)"
      using keep_latest_counts [of e p s] by (simp_all add: known(2) del: keep_latest_ready)
    from known(3) show ?thesis
    proof (elim disjE exE conjE)
      assume "admit e p fb s = (Accepted, enqueue e (pe_job_id p) p t)"
        "rq_len (act_ready t) < global_max_pending (act_config s)"
        "rq_count_job (act_ready t) (pe_job_id p) < job_pending_limit (act_config s) job'"
      with known(1) insert_len [of p "act_ready t"] count_job_insert [of p "act_ready t" "pe_job_id p"]
      show ?thesis by auto
    next
      fix old ready
      assume rm: "remove_oldest_trigger (pe_job_id p) (act_ready t) = (Some old, ready)"
        and "admit e p fb s = (Accepted, enqueue e (pe_job_id p) p
          (emit e (PendingReplaced (pe_job_id p) (pe_run_id old) (pe_run_id p)) (t\<lparr>act_ready := ready\<rparr>)))"
      with le remove_oldest_values(6) [OF inv rm] count_job_remove_oldest [OF inv rm]
        insert_len [of p ready] count_job_insert [of p ready "pe_job_id p"]
      show ?thesis by auto
    qed (use le in auto)
  qed simp
  then show "rq_len (act_ready (snd (admit e p fb s)))
      \<le> max (rq_len (act_ready s)) (global_max_pending (act_config s))"
    and "map_of (act_jobs s) (pe_job_id p) = Some job \<Longrightarrow>
      rq_count_job (act_ready (snd (admit e p fb s))) (pe_job_id p)
        \<le> max (rq_count_job (act_ready s) (pe_job_id p)) (job_pending_limit (act_config s) job)"
    by blast+
qed

lemma admit_occurrences_len:
  "rq_inv (act_ready s) \<Longrightarrow> rq_len (act_ready (snd (admit_occurrences e mk once ts s)))
     \<le> max (rq_len (act_ready s)) (global_max_pending (act_config s))"
proof (induction ts arbitrary: s)
  case (Cons t ts)
  let ?s = "s\<lparr>act_uuids := act_uuids s + 1\<rparr>"
  let ?u = "snd (admit e (mk (new_v4 e (act_uuids s)) t) once ?s)"
  have "rq_len (act_ready (snd (admit_occurrences e mk once ts ?u)))
      \<le> max (rq_len (act_ready ?u)) (global_max_pending (act_config s))"
    using Cons.IH [of ?u] Cons.prems by (simp add: ready_inv_admit)
  moreover have "rq_len (act_ready ?u) \<le> max (rq_len (act_ready s)) (global_max_pending (act_config s))"
    using admit_bounds(1) [of ?s] Cons.prems by simp
  ultimately show ?case by (simp add: Let_def case_prod_beta)
qed simp

lemma restore_len:
  "rq_len (act_ready (restore_blocked e s)) \<le> max (rq_len (act_ready s)) (global_max_pending (act_config s))"
proof -
  let ?I = "\<lambda>t. act_config t = act_config s \<and>
    rq_len (act_ready t) \<le> max (rq_len (act_ready s)) (global_max_pending (act_config s))"
  have loop: "?I (snd (restore_loop e j lim r t))" if "?I t" for j lim r t
  proof (rule restore_loop_invariant [where I = ?I])
    fix t :: actor and p rest
    assume "?I t" and "rq_len (act_ready t) < global_max_pending (act_config t)"
    then show "?I (enqueue e j p (t\<lparr>act_jobs := modify j (\<lambda>job. job\<lparr>je_blocked := rest\<rparr>) (act_jobs t)\<rparr>))"
      using insert_len [of p "act_ready t"] by auto
  qed (use that in auto)
  have job: "?I (restore_job e j t)" if "?I t" for j t
    using loop [OF that]
    by (simp add: restore_job_def Let_def case_prod_beta that split: option.splits sum.splits)
  have "?I (fold (restore_job e) js t)" if "?I t" for js t
    using that by (induction js arbitrary: t) (simp_all add: job del: restore_job_frame)
  from this [of s "keys_of (act_jobs s)"] show ?thesis by (auto simp: restore_blocked_def)
qed

subsection \<open>Only current work waits\<close>

text \<open>Every execution in the ready queue belongs to a Job that exists and carries its
  version; what is held back with a Job is its own. (An execution held back may be of an
  older version: enabling a completed Job leaves it there, and \<open>restore_blocked\<close> drops it.)\<close>

definition versions_ok :: "actor \<Rightarrow> bool" where
  "versions_ok s \<longleftrightarrow>
     (\<forall>p \<in> set (rq_values (act_ready s)). job_version s (pe_job_id p) = Some (pe_version p)) \<and>
     (\<forall>j. \<forall>p \<in> set (job_blocked s j). pe_job_id p = j)"

lemma versions_ok_mono:
  assumes "versions_ok s" and "job_version t = job_version s"
    and "set (rq_values (act_ready t)) \<subseteq> set (rq_values (act_ready s))"
    and "\<And>j. set (job_blocked t j) \<subseteq> set (job_blocked s j)"
  shows "versions_ok t"
  using assms unfolding versions_ok_def by (metis subsetD)

lemma versions_ok_cong:
  "act_jobs t = act_jobs s \<Longrightarrow> act_ready t = act_ready s \<Longrightarrow> versions_ok t = versions_ok s"
  by (simp add: versions_ok_def job_version_def job_blocked_def)

lemma admit_subset:
  assumes "rq_inv (act_ready s)"
  shows "set (rq_values (act_ready (snd (admit e p fb s)))) \<subseteq> insert p (set (rq_values (act_ready s))) \<and>
    (\<forall>j. set (job_blocked (snd (admit e p fb s)) j) \<subseteq>
      set (job_blocked s j) \<union> (if j = pe_job_id p then {p} else {}))"
proof (cases rule: admit_cases [of s p e fb])
  case (known job t)
  have inv: "rq_inv (act_ready t)"
    using assms(1) by (simp add: known(2) remove_normal_triggers_def extract_if_inv)
  have sub: "set (rq_values (act_ready t)) \<subseteq> set (rq_values (act_ready s))"
    "set (job_blocked t j) \<subseteq> set (job_blocked s j)" for j
    by (auto simp: known(2) remove_normal_triggers_def)
  from known(3) show ?thesis
  proof (elim disjE exE conjE)
    fix old ready
    assume rm: "remove_oldest_trigger (pe_job_id p) (act_ready t) = (Some old, ready)"
      and adm: "admit e p fb s = (Accepted, enqueue e (pe_job_id p) p
        (emit e (PendingReplaced (pe_job_id p) (pe_run_id old) (pe_run_id p)) (t\<lparr>act_ready := ready\<rparr>)))"
    have "job_blocked (snd (admit e p fb s)) = job_blocked t" by (rule job_blocked_jobs) (simp add: adm)
    with adm sub remove_oldest_values(1,5) [OF inv rm] show ?thesis by (auto simp: insert_values)
  next
    assume "admit e p fb s = (Skipped, emit e (TriggerSkipped (pe_job_id p) (pe_version p)
      (pe_scheduled_at p) ''pending capacity reached'') t)"
    moreover from this have "job_blocked (snd (admit e p fb s)) = job_blocked t"
      by (intro job_blocked_jobs) simp
    ultimately show ?thesis using sub by auto
  qed (use inv sub in \<open>auto simp: insert_values split: if_splits\<close>)
qed auto

lemma versions_ok_admit:
  assumes "versions_ok s" and "rq_inv (act_ready s)"
    and "job_version s (pe_job_id p) = Some (pe_version p)"
  shows "versions_ok (snd (admit e p fb s))"
proof -
  let ?u = "snd (admit e p fb s)"
  note sub = admit_subset [OF assms(2), of e p fb]
  have v: "job_version ?u = job_version s" by (rule job_version_cores) simp
  show ?thesis
    unfolding versions_ok_def v
  proof (intro conjI ballI allI)
    fix q
    assume "q \<in> set (rq_values (act_ready ?u))"
    with sub have "q = p \<or> q \<in> set (rq_values (act_ready s))" by blast
    with assms(1,3) show "job_version s (pe_job_id q) = Some (pe_version q)"
      by (auto simp: versions_ok_def)
  next
    fix j q
    assume q: "q \<in> set (job_blocked ?u j)"
    from sub have "set (job_blocked ?u j) \<subseteq> set (job_blocked s j) \<union> (if j = pe_job_id p then {p} else {})"
      by blast
    with q have "q \<in> set (job_blocked s j) \<or> q = p \<and> j = pe_job_id p"
      by (cases "j = pe_job_id p") auto
    with assms(1,3) show "pe_job_id q = j" by (auto simp: versions_ok_def)
  qed
qed

lemma versions_ok_admit_occurrences:
  assumes "versions_ok s" and "rq_inv (act_ready s)"
    and "\<And>r x. job_version s (pe_job_id (mk r x)) = Some (pe_version (mk r x))"
  shows "versions_ok (snd (admit_occurrences e mk once ts s))"
  using assms
proof (induction ts arbitrary: s)
  case (Cons t ts)
  let ?s = "s\<lparr>act_uuids := act_uuids s + 1\<rparr>"
  let ?u = "snd (admit e (mk (new_v4 e (act_uuids s)) t) once ?s)"
  have s: "versions_ok ?s" "job_version ?s = job_version s"
    using Cons.prems(1) versions_ok_cong [of ?s s] by (simp_all add: job_version_def fun_eq_iff)
  have "versions_ok ?u" using s Cons.prems by (intro versions_ok_admit) simp_all
  moreover have "job_version ?u = job_version s" using job_version_cores [OF cores_admit, of e _ once ?s] s(2) by simp
  ultimately have "versions_ok (snd (admit_occurrences e mk once ts ?u))"
    using Cons.prems by (intro Cons.IH) (simp_all add: ready_inv_admit)
  then show ?case by (simp add: Let_def case_prod_beta)
qed simp

lemma schedule_normal_blocked [simp]: "job_blocked (schedule_normal e j n k s) = job_blocked s"
  by (intro ext) (auto simp: schedule_normal_def Let_def case_prod_beta job_blocked_def
      split: option.splits)

lemma versions_ok_schedule: "versions_ok s \<Longrightarrow> versions_ok (schedule_normal e j n k s)"
  by (erule versions_ok_mono) (simp_all add: job_version_cores [OF cores_schedule_normal])

lemma clear_retry_retry [simp]:
  "act_retry_timers (clear_retry_timers j s) =
     filter (\<lambda>x. fst x \<notin> {r. \<exists>t. (r, t) \<in> set (act_retry_timers s) \<and> rt_job_id t = j}) (act_retry_timers s)"
proof -
  have remove: "act_retry_timers (remove_retry_timer r t) = filter (\<lambda>x. fst x \<noteq> r) (act_retry_timers t)"
    for r t
    by (auto simp: remove_retry_timer_def AList.delete_eq map_of_eq_None_iff
        case_prod_unfold intro!: filter_cong filter_True [symmetric] split: option.splits)
  have "act_retry_timers (fold remove_retry_timer rs t) =
      filter (\<lambda>x. fst x \<notin> set rs) (act_retry_timers t)" for rs t
    by (induction rs arbitrary: t) (auto simp: remove intro!: filter_cong)
  then show ?thesis
    by (auto simp: clear_retry_timers_def intro!: filter_cong)
qed

lemma force_disable_cases:
  obtains (failed) err where "force_disable e j why s = (Inl err, s)"
  | (disabled) job v t where "map_of (act_jobs s) j = Some job"
      "checked_add_u64 (je_version job) 1 = Some v"
      "force_disable e j why s = (Inr (), t)"
      "act_jobs t = modify j (\<lambda>job. job\<lparr>je_version := v, je_normal_timer_key := None,
         je_next_run_at := None, je_blocked := [], je_state := Disabled why,
         je_updated_at := utc_now e\<rparr>) (act_jobs s)"
      "act_ready t = snd (remove_job j (act_ready s))"
      "act_retry_timers t = act_retry_timers (clear_retry_timers j s)"
      "act_cancelled t = act_cancelled (cancel_job_version j (je_version job) s)"
proof (cases "map_of (act_jobs s) j")
  case None
  then show ?thesis using failed by (simp add: force_disable_def)
next
  case (Some job)
  show ?thesis
  proof (cases "checked_add_u64 (je_version job) 1")
    case None
    then show ?thesis using Some failed by (simp add: force_disable_def)
  next
    case (Some v)
    show ?thesis
      by (rule disabled [OF \<open>map_of (act_jobs s) j = Some job\<close> Some,
          of "snd (force_disable e j why s)"])
        (simp_all add: force_disable_def Let_def Some \<open>map_of (act_jobs s) j = Some job\<close>
          cancel_job_version_def)
  qed
qed

lemma versions_ok_disable:
  assumes "versions_ok s"
  shows "versions_ok (snd (force_disable e j why s))"
proof (cases rule: force_disable_cases [of e j why s])
  case (disabled job v t)
  have v: "job_version t i = (if i = j then Some v else job_version s i)"
    and b: "job_blocked t i = (if i = j then [] else job_blocked s i)" for i
    using disabled by (simp_all add: job_version_def job_blocked_def)
  have "p \<in> set (rq_values (act_ready s)) \<and> pe_job_id p \<noteq> j" if "p \<in> set (rq_values (act_ready t))" for p
    using that disabled(5) by (simp add: remove_job_def)
  with assms v b show ?thesis unfolding versions_ok_def disabled(3) by simp
qed (use assms in simp)

lemma versions_ok_timer:
  assumes "versions_ok s" and "rq_inv (act_ready s)"
  shows "versions_ok (handle_timer e b t s)"
proof (cases "\<exists>job. map_of (act_jobs s) (te_job_id t) = Some job \<and> je_version job = te_version t \<and>
    je_state job = Enabled")
  case False
  with assms(1) show ?thesis by (auto simp: handle_timer_def split: option.splits)
next
  case True
  then obtain job where job: "map_of (act_jobs s) (te_job_id t) = Some job"
    "je_version job = te_version t" "je_state job = Enabled" by blast
  show ?thesis
  proof (cases "\<exists>run at n. te_kind t = TimerRetry run at n")
    case True
    then obtain run at n where kind: "te_kind t = TimerRetry run at n" by blast
    let ?s = "s\<lparr>act_retry_timers := AList.delete run (act_retry_timers s)\<rparr>"
    have "versions_ok ?s" using assms(1) versions_ok_cong [of ?s s] by simp
    then show ?thesis
      using job assms(2)
      by (simp add: handle_timer_def kind) (rule versions_ok_admit, simp_all add: job_version_def)
  next
    case False
    let ?s = "s\<lparr>act_jobs := modify (te_job_id t)
      (\<lambda>job. job\<lparr>je_normal_timer_key := None, je_next_run_at := None\<rparr>) (act_jobs s)\<rparr>"
    have "job_blocked ?s = job_blocked s"
      by (rule ext) (simp add: job_blocked_def split: option.splits)
    then have ok: "versions_ok ?s"
      using job_version_cores [of ?s s] by (intro versions_ok_mono [OF assms(1)]) simp_all
    have "versions_ok (handle_normal_trigger e j at b rn ?s)" for j at rn
    proof (cases rule: handle_normal_cases [of ?s j e at b rn])
      case (admitted job mk once ts t u)
      have t: "versions_ok t" "rq_inv (act_ready t)" "job_version t = job_version ?s"
        using admitted(3) ok assms(2) versions_ok_cong [of t ?s] by (auto simp: job_version_def)
      have "versions_ok u"
        unfolding admitted(4) using t admitted(1,2)
        by (intro versions_ok_admit_occurrences) (simp_all add: job_version_def)
      with admitted(5) show ?thesis by (auto simp: versions_ok_schedule)
    qed (use ok versions_ok_disable in auto)
    then show ?thesis
      using job False by (auto simp: handle_timer_def split: timer_kind.splits)
  qed
qed

lemma versions_ok_restore:
  assumes "versions_ok s" and "rq_inv (act_ready s)"
  shows "versions_ok (restore_blocked e s)"
proof -
  let ?I = "\<lambda>t. versions_ok t \<and> rq_inv (act_ready t)"
  have loop: "?I (snd (restore_loop e j lim r t))" if "?I t" for j lim r t
  proof (rule restore_loop_invariant [where I = ?I])
    fix t :: actor and job p rest
    assume I: "?I t" and job: "map_of (act_jobs t) j = Some job" "je_blocked job = p # rest"
    let ?u = "t\<lparr>act_jobs := modify j (\<lambda>job. job\<lparr>je_blocked := rest\<rparr>) (act_jobs t)\<rparr>"
    have same: "job_version ?u = job_version t"
      by (rule job_version_cores) simp
    have less: "set (job_blocked ?u i) \<subseteq> set (job_blocked t i)" for i
      using job by (cases "i = j") (auto simp: job_blocked_def)
    show u: "?I ?u"
      using I versions_ok_mono [OF _ same _ less] by simp
    assume version: "je_version job = pe_version p"
    have "set (rq_values (act_ready (enqueue e j p ?u))) \<subseteq> insert p (set (rq_values (act_ready t)))"
      using I by (auto simp: insert_values)
    moreover have "job_version (enqueue e j p ?u) = job_version t"
      using same by (simp add: job_version_def fun_eq_iff)
    moreover have "pe_job_id p = j"
      using I job by (force simp: versions_ok_def job_blocked_def)
    then have "job_version t (pe_job_id p) = Some (pe_version p)"
      using job version by (simp add: job_version_def)
    ultimately show "?I (enqueue e j p ?u)"
      using I u same by (auto simp: versions_ok_def insert_inv)
  qed (use that in auto)
  have job: "?I (restore_job e j t)" if "?I t" for j t
    using loop [OF that] that
    by (simp add: restore_job_def Let_def case_prod_beta versions_ok_schedule
        split: option.splits sum.splits)
  have "?I (fold (restore_job e) js t)" if "?I t" for js t
    using that by (induction js arbitrary: t) (simp_all add: job)
  from this [of s "keys_of (act_jobs s)"] show ?thesis
    using assms by (simp add: restore_blocked_def)
qed

lemma versions_ok_batch:
  assumes "versions_ok s" and "rq_inv (act_ready s)"
  shows "versions_ok (handle_expired_batch e t ks s)"
proof -
  have "versions_ok (fold (handle_timer e b) ts u)" if "versions_ok u" "rq_inv (act_ready u)" for b ts u
    using that by (induction ts arbitrary: u) (simp_all add: versions_ok_timer ready_inv_timers(3))
  moreover have "versions_ok (snd (take_expired n ks u)) = versions_ok u" for n u
    by (rule versions_ok_cong) simp_all
  moreover have "versions_ok (s\<lparr>act_batch_sequence := b\<rparr>) = versions_ok s" for b
    by (rule versions_ok_cong) simp_all
  ultimately show ?thesis
    using assms
    by (simp add: handle_expired_batch_def Let_def case_prod_beta versions_ok_timer ready_inv_timers(3))
qed

section \<open>Properties\<close>

text \<open>A Job and an Actor for the witnesses: every minute, one execution waiting at most.\<close>

definition sample_job :: "job_id \<Rightarrow> job_entry" where
  "sample_job j =
     \<lparr>je_id = j, je_version = 1, je_task = ''sample'', je_cancellation_mode = Cooperative,
      je_trigger = trigger_interval (secs 60), je_concurrency = None, je_max_pending = Some 1,
      je_priority = priority_normal, je_coalescing = KeepAll, je_capacity = Backpressure,
      je_retry = Exponential 3 (millis 100) (secs 1) default_retry_condition,
      je_failure = default_failure_policy, je_state = Enabled, je_normal_timer_key = None,
      je_next_run_at = None, je_blocked = [], je_running_count = 0,
      je_consecutive_failures = 0, je_last_started_at = None, je_last_finished_at = None,
      je_last_outcome = None, je_last_fired_at = None, je_created_at = 0, je_updated_at = 0\<rparr>"

definition sample_actor :: actor where
  "sample_actor = (actor_new (default_config 1))\<lparr>act_jobs := [(1, sample_job 1)]\<rparr>"

definition sample_run :: "run_id \<Rightarrow> pending_kind \<Rightarrow> pending_execution" where
  "sample_run r k =
     \<lparr>pe_job_id = 1, pe_version = 1, pe_run_id = r, pe_attempt = 1, pe_scheduled_at = 0,
      pe_kind = k, pe_priority = priority_normal, pe_batch_id = 1\<rparr>"

lemma sample_actor_simps [simp]:
  "act_jobs sample_actor = [(1, sample_job 1)]" "act_ready sample_actor = rq_new"
  "act_config sample_actor = default_config 1"
  by (simp_all add: sample_actor_def actor_new_def)

lemma sample_run_simps [simp]:
  "pe_job_id (sample_run r k) = 1" "pe_kind (sample_run r k) = k" "pe_run_id (sample_run r k) = r"
  "pe_version (sample_run r k) = 1" "pe_scheduled_at (sample_run r k) = 0"
  by (simp_all add: sample_run_def)

lemma rq_new_simps [simp]: "rq_inv rq_new" "rq_len rq_new = 0" "rq_count_job rq_new j = 0"
  by (simp_all add: rq_inv_def rq_new_def rq_len_def rq_count_job_def rq_values_def)

text \<open>
  C15: what must not be lost is not lost. An execution of a one-shot trigger, an immediate run
  or a retry that reaches admission waits afterwards, in the ready queue or held back
  with its Job, whatever the policies; and admission of anything leaves every other such
  execution waiting: coalescing and replacement only ever take periodic triggers.
\<close>

theorem admission_never_drops:
  assumes "rq_inv (act_ready s)" and "map_of (act_jobs s) (pe_job_id p) = Some job"
  shows "(\<not> is_replaceable_trigger (pe_kind p) \<longrightarrow> p \<in> waiting (snd (admit e p fb s))) \<and>
    (\<forall>x \<in> waiting s. \<not> is_replaceable_trigger (pe_kind x) \<and> pe_run_id x \<noteq> pe_run_id p \<longrightarrow>
      x \<in> waiting (snd (admit e p fb s)))"
  using admit_waiting [OF assms] by blast

theorem admission_never_drops_witness:
  "sample_run 10 PRetry \<in> waiting (snd (admit sample_env (sample_run 10 PRetry) True sample_actor))"
  using admission_never_drops [of sample_actor "sample_run 10 PRetry" "sample_job 1" sample_env True]
  by (simp add: is_replaceable_trigger_def)

text \<open>
  C16: the limits on waiting executions hold. Admission never takes the ready queue above
  the global limit, nor a Job above its own, unless a lowered limit finds it there already,
  and then it does not grow; the same for executions that come back after backpressure.
\<close>

theorem admission_respects_capacity:
  assumes "rq_inv (act_ready s)" and "map_of (act_jobs s) (pe_job_id p) = Some job"
  shows "rq_len (act_ready (snd (admit e p fb s)))
      \<le> max (rq_len (act_ready s)) (global_max_pending (act_config s)) \<and>
    rq_count_job (act_ready (snd (admit e p fb s))) (pe_job_id p)
      \<le> max (rq_count_job (act_ready s) (pe_job_id p)) (job_pending_limit (act_config s) job) \<and>
    rq_len (act_ready (restore_blocked e s))
      \<le> max (rq_len (act_ready s)) (global_max_pending (act_config s))"
  using admit_bounds [OF assms(1)] assms(2) restore_len by blast

theorem admission_respects_capacity_witness:
  "rq_len (act_ready (snd (admit sample_env (sample_run 10 PNormal) False sample_actor))) \<le> 8192"
  using admission_respects_capacity
    [of sample_actor "sample_run 10 PNormal" "sample_job 1" sample_env False]
  by (simp add: default_config_def)

text \<open>The loop notes a time to resume from only when it takes a trigger.\<close>

lemma restore_loop_resume:
  assumes "list_all (\<lambda>p. pe_kind p \<notin> {PNormal, PRunNow}) (job_blocked s j)"
  shows "fst (restore_loop e j lim r s) = r"
  using assms
proof (induction e j lim r s rule: restore_loop.induct)
  case (1 e j lim r s)
  show ?case
  proof (cases "rq_len (act_ready s) < global_max_pending (act_config s) \<and>
      rq_count_job (act_ready s) j < lim \<and> (\<exists>job p rest. map_of (act_jobs s) j = Some job \<and>
      je_blocked job = p # rest)")
    case False
    then show ?thesis by (subst restore_loop.simps) (auto split: option.splits list.splits)
  next
    case True
    then obtain job p rest where job: "map_of (act_jobs s) j = Some job" "je_blocked job = p # rest"
      and room: "rq_len (act_ready s) < global_max_pending (act_config s) \<and>
        rq_count_job (act_ready s) j < lim" by blast
    let ?s = "s\<lparr>act_jobs := modify j (\<lambda>job. job\<lparr>je_blocked := rest\<rparr>) (act_jobs s)\<rparr>"
    have kinds: "pe_kind p \<notin> {PNormal, PRunNow}" "list_all (\<lambda>p. pe_kind p \<notin> {PNormal, PRunNow}) (job_blocked ?s j)"
      using "1.prems" job by (simp_all add: job_blocked_def [of s])
    show ?thesis
      using "1.IH"(1) [OF room job refl] "1.IH"(2) [OF room job refl] kinds room job
      by (subst restore_loop.simps) (auto simp: Let_def)
  qed
qed

lemma restore_loop_next_run:
  "map_option je_next_run_at (map_of (act_jobs (snd (restore_loop e j lim r s))) i) =
   map_option je_next_run_at (map_of (act_jobs s) i)"
  by (rule restore_loop_invariant
      [where I = "\<lambda>t. map_option je_next_run_at (map_of (act_jobs t) i) =
        map_option je_next_run_at (map_of (act_jobs s) i)"])
    (auto simp: option.map_comp comp_def)

text \<open>
  C39: a periodic Job can lose its schedule. The time to resume from is local to one call of
  \<open>restore_blocked\<close>. When the trigger came back in an earlier turn and only retries are
  left held back, the call that brings back the last of them has no time to resume from:
  it arms no timer, and the Job, enabled and periodic, has no next run.
\<close>

theorem restore_forgets_phase:
  assumes "map_of (act_jobs s) j = Some job" and "je_next_run_at job = None"
    and "list_all (\<lambda>p. pe_kind p \<notin> {PNormal, PRunNow}) (je_blocked job)"
  shows "\<exists>job'. map_of (act_jobs (restore_job e j s)) j = Some job' \<and> je_next_run_at job' = None \<and>
    act_timers (restore_job e j s) = act_timers s"
proof -
  let ?r = "restore_loop e j (job_pending_limit (act_config s) job) None s"
  have "fst ?r = None"
    using assms(1,3) by (intro restore_loop_resume) (simp add: job_blocked_def)
  then have eq: "restore_job e j s = snd ?r"
    by (simp add: restore_job_def assms(1) case_prod_beta split: option.splits)
  have "map_option je_next_run_at (map_of (act_jobs (snd ?r)) j) = Some None"
    using restore_loop_next_run [of e j _ None s j] assms(1,2) by simp
  then show ?thesis unfolding eq by auto
qed

definition sample_held :: actor where
  "sample_held = sample_actor\<lparr>act_jobs :=
     [(1, (sample_job 1)\<lparr>je_blocked := [sample_run 10 PNormal, sample_run 20 PRetry]\<rparr>)]\<rparr>"

lemma sample_held_restored:
  "map_of (act_jobs (restore_blocked sample_env sample_held)) 1 =
     Some ((sample_job 1)\<lparr>je_blocked := [sample_run 20 PRetry]\<rparr>)"
proof -
  have insert: "rq_count_job (rq_insert (sample_run 10 PNormal) rq_new) 1 = 1"
    by (simp add: rq_count_job_def rq_values_def) (simp add: rq_new_def)
  show ?thesis
    by (simp add: sample_held_def restore_blocked_def restore_job_def restore_loop.simps
        job_pending_limit_def sample_job_def default_config_def enqueue_def Let_def insert)
qed

theorem restore_forgets_phase_witness:
  "\<exists>job'. map_of (act_jobs (restore_job sample_env 1 (restore_blocked sample_env sample_held))) 1 =
      Some job' \<and> je_next_run_at job' = None \<and> je_state job' = Enabled"
proof -
  let ?s = "restore_blocked sample_env sample_held"
  from restore_forgets_phase [OF sample_held_restored, of sample_env] obtain job' where
    job': "map_of (act_jobs (restore_job sample_env 1 ?s)) 1 = Some job'" "je_next_run_at job' = None"
    by (auto simp: sample_job_def)
  with cores_lookup [OF cores_restore(1), of sample_env 1 ?s 1] sample_held_restored
  have "je_core job' = je_core (sample_job 1)" by simp
  from je_core_fields(3) [OF this] job' show ?thesis by (simp add: sample_job_def)
qed

end
