(* ===== verification/Sched_Management.thy ===== *)
theory Sched_Management
  imports Sched_Admission
begin

text \<open>
  The management of Jobs (\<open>engine/management.rs\<close>): adding, updating, enabling, disabling
  and deleting under optimistic locking, reconciliation with an authoritative plan, the
  dynamic configuration and snapshots. An operation returns its result beside the new
  state, so that what an error leaves behind is part of the model.
\<close>

section \<open>Options and checks\<close>

definition apply_patch_value :: "'a option \<Rightarrow> 'a patch_value \<Rightarrow> 'a option" where
  "apply_patch_value t p = (case p of Keep \<Rightarrow> t | Set v \<Rightarrow> Some v | Inherit \<Rightarrow> None)"

definition override :: "'a option \<Rightarrow> 'a \<Rightarrow> 'a" where
  "override p v = (case p of Some w \<Rightarrow> w | None \<Rightarrow> v)"

definition apply_config_patch :: "scheduler_config \<Rightarrow> scheduler_config_patch \<Rightarrow> scheduler_config" where
  "apply_config_patch c p =
     c\<lparr>global_concurrency := override (cp_global_concurrency p) (global_concurrency c),
       default_job_concurrency :=
         override (cp_default_job_concurrency p) (default_job_concurrency c),
       global_max_pending := override (cp_global_max_pending p) (global_max_pending c),
       default_job_max_pending :=
         override (cp_default_job_max_pending p) (default_job_max_pending c),
       due_batch_size := override (cp_due_batch_size p) (due_batch_size c),
       max_jobs := override (cp_max_jobs p) (max_jobs c),
       shutdown_timeout := override (cp_shutdown_timeout p) (shutdown_timeout c),
       minimum_interval := override (cp_minimum_interval p) (minimum_interval c),
       minimum_retry_delay := override (cp_minimum_retry_delay p) (minimum_retry_delay c),
       maximum_catch_up := override (cp_maximum_catch_up p) (maximum_catch_up c),
       maximum_retry_attempts :=
         override (cp_maximum_retry_attempts p) (maximum_retry_attempts c)\<rparr>"

definition job_options_from_entry :: "job_entry \<Rightarrow> job_options" where
  "job_options_from_entry job =
     \<lparr>opt_concurrency = je_concurrency job, opt_max_pending = je_max_pending job,
      opt_priority = je_priority job, opt_coalescing = Some (je_coalescing job),
      opt_capacity = Some (je_capacity job), opt_retry = je_retry job,
      opt_failure = je_failure job\<rparr>"

definition patched_job_options :: "job_entry \<Rightarrow> job_patch \<Rightarrow> job_options" where
  "patched_job_options job p =
     (let opts = job_options_from_entry job
      in opts\<lparr>opt_concurrency := apply_patch_value (opt_concurrency opts) (jp_concurrency p),
           opt_max_pending := apply_patch_value (opt_max_pending opts) (jp_max_pending p),
           opt_priority := override (jp_priority p) (opt_priority opts),
           opt_coalescing := (case jp_coalescing p of Some v \<Rightarrow> Some v | None \<Rightarrow> opt_coalescing opts),
           opt_capacity := (case jp_capacity p of Some v \<Rightarrow> Some v | None \<Rightarrow> opt_capacity opts),
           opt_retry := override (jp_retry p) (opt_retry opts),
           opt_failure := override (jp_failure p) (opt_failure opts)\<rparr>)"

definition validate_task_cancellation_mode ::
  "trigger \<Rightarrow> cancellation_mode \<Rightarrow> unit sresult" where
  "validate_task_cancellation_mode tr m =
     (if m = NonCancellable \<and> tr_timeout tr \<noteq> None
      then Inl (InvalidTrigger WaitTaskWithTimeout) else Inr ())"

text \<open>The two checks every operation runs one after the other.\<close>

definition validate_job ::
  "env \<Rightarrow> trigger \<Rightarrow> job_options \<Rightarrow> scheduler_config \<Rightarrow> cancellation_mode \<Rightarrow> unit sresult" where
  "validate_job e tr opts c m =
     (case validate_trigger e tr opts c of
        Inl err \<Rightarrow> Inl err | Inr _ \<Rightarrow> validate_task_cancellation_mode tr m)"

definition check_version :: "job_id \<Rightarrow> u64 \<Rightarrow> actor \<Rightarrow> unit sresult" where
  "check_version j expected s =
     (case map_of (act_jobs s) j of
        None \<Rightarrow> Inl (JobNotFound j)
      | Some job \<Rightarrow>
          if je_version job = expected then Inr ()
          else Inl (VersionConflict j expected (je_version job)))"

definition snapshot :: "actor \<Rightarrow> job_entry \<Rightarrow> job_snapshot" where
  "snapshot s job =
     \<lparr>sn_id = je_id job, sn_version = je_version job, sn_task_kind = je_task job,
      sn_state = je_state job, sn_trigger = je_trigger job, sn_priority = je_priority job,
      sn_concurrency = (case je_concurrency job of
        Some n \<Rightarrow> n | None \<Rightarrow> default_job_concurrency (act_config s)),
      sn_max_pending = job_pending_limit (act_config s) job,
      sn_running_count = je_running_count job,
      sn_pending_count = rq_count_job (act_ready s) (je_id job) + length (je_blocked job),
      sn_consecutive_failures = je_consecutive_failures job,
      sn_next_run_at = je_next_run_at job, sn_last_started_at = je_last_started_at job,
      sn_last_finished_at = je_last_finished_at job, sn_last_outcome = je_last_outcome job,
      sn_created_at = je_created_at job, sn_updated_at = je_updated_at job\<rparr>"

text \<open>\<open>self.snapshot(&self.jobs[&job_id])\<close>: the Job is there when the code gets here.\<close>

definition snapshot_of :: "job_id \<Rightarrow> actor \<Rightarrow> job_snapshot sresult" where
  "snapshot_of j s =
     (case map_of (act_jobs s) j of
        Some job \<Rightarrow> Inr (snapshot s job) | None \<Rightarrow> Inl (JobNotFound j))"

section \<open>Adding\<close>

definition add_checks ::
  "env \<Rightarrow> trigger \<Rightarrow> task_binding \<Rightarrow> job_options \<Rightarrow> actor \<Rightarrow> unit sresult" where
  "add_checks e tr task opts s =
     (if max_jobs (act_config s) \<le> length (act_jobs s)
      then Inl (MaximumJobsReached (max_jobs (act_config s)))
      else validate_job e tr opts (act_config s) (tb_mode task))"

definition install_job ::
  "env \<Rightarrow> job_id \<Rightarrow> u64 \<Rightarrow> bool \<Rightarrow> trigger \<Rightarrow> task_binding \<Rightarrow> job_options \<Rightarrow> actor
   \<Rightarrow> job_id sresult \<times> actor" where
  "install_job e i generation en tr task opts s =
     (let now = utc_now e;
          (coalescing, capacity) = effective_queue_policies tr opts
      in case first_run_at e tr now of
           Inl err \<Rightarrow> (Inl err, s)
         | Inr next_run \<Rightarrow>
             let job =
                   \<lparr>je_id = i, je_version = generation, je_task = tb_kind task,
                    je_cancellation_mode = tb_mode task, je_trigger = tr,
                    je_concurrency = opt_concurrency opts,
                    je_max_pending = opt_max_pending opts, je_priority = opt_priority opts,
                    je_coalescing = coalescing, je_capacity = capacity,
                    je_retry = opt_retry opts, je_failure = opt_failure opts,
                    je_state = (if en then Enabled else Disabled (Reason ''installed disabled'')),
                    je_normal_timer_key = None, je_next_run_at = None, je_blocked = [],
                    je_running_count = 0, je_consecutive_failures = 0,
                    je_last_started_at = None, je_last_finished_at = None,
                    je_last_outcome = None, je_last_fired_at = None, je_created_at = now,
                    je_updated_at = now\<rparr>;
                 s = s\<lparr>act_jobs := AList.update i job (act_jobs s)\<rparr>;
                 s = (if en then schedule_normal e i next_run TimerNormal s else s)
             in (Inr i, emit e (JobAdded i generation) s))"

definition add_job_as ::
  "env \<Rightarrow> job_id \<Rightarrow> u64 \<Rightarrow> bool \<Rightarrow> trigger \<Rightarrow> task_binding \<Rightarrow> job_options \<Rightarrow> actor
   \<Rightarrow> job_id sresult \<times> actor" where
  "add_job_as e i generation en tr task opts s =
     (case add_checks e tr task opts s of
        Inl err \<Rightarrow> (Inl err, s)
      | Inr _ \<Rightarrow>
          if i \<in> set (keys_of (act_jobs s)) then (Inl (JobAlreadyExists i), s)
          else install_job e i generation en tr task opts s)"

text \<open>The loop that draws identifiers until one is not taken; \<open>None\<close> when it never ends.\<close>

partial_function (option) draw_job_id ::
  "env \<Rightarrow> job_id list \<Rightarrow> nat \<Rightarrow> (job_id \<times> nat) option" where
  "draw_job_id e taken n =
     (if new_v4 e n \<in> set taken then draw_job_id e taken (Suc n)
      else Some (new_v4 e n, Suc n))"

definition add_job ::
  "env \<Rightarrow> job_id option \<Rightarrow> u64 \<Rightarrow> bool \<Rightarrow> trigger \<Rightarrow> task_binding \<Rightarrow> job_options \<Rightarrow> actor
   \<Rightarrow> (job_id sresult \<times> actor) option" where
  "add_job e requested generation en tr task opts s =
     (case requested of
        Some i \<Rightarrow> Some (add_job_as e i generation en tr task opts s)
      | None \<Rightarrow>
          (case add_checks e tr task opts s of
             Inl err \<Rightarrow> Some (Inl err, s)
           | Inr _ \<Rightarrow>
               (case draw_job_id e (keys_of (act_jobs s)) (act_uuids s) of
                  None \<Rightarrow> None
                | Some (i, n) \<Rightarrow>
                    Some (install_job e i generation en tr task opts (s\<lparr>act_uuids := n\<rparr>)))))"

section \<open>Updating\<close>

record job_update_plan =
  up_next_version :: u64
  up_next_run_at :: "time option"
  up_reschedule :: reschedule_mode
  up_trigger_changed :: bool
  up_task_changed :: bool

definition plan_job_update ::
  "env \<Rightarrow> job_id \<Rightarrow> u64 \<Rightarrow> job_patch \<Rightarrow> actor \<Rightarrow> job_update_plan sresult" where
  "plan_job_update e j expected p s =
     (case map_of (act_jobs s) j of
        None \<Rightarrow> Inl (JobNotFound j)
      | Some job \<Rightarrow>
          if je_version job \<noteq> expected then Inl (VersionConflict j expected (je_version job))
          else
            let tr = override (jp_trigger p) (je_trigger job);
                mode = (case jp_task p of Some t \<Rightarrow> tb_mode t | None \<Rightarrow> je_cancellation_mode job)
            in case validate_job e tr (patched_job_options job p) (act_config s) mode of
                 Inl err \<Rightarrow> Inl err
               | Inr _ \<Rightarrow>
                   (case checked_add_u64 (je_version job) 1 of
                      None \<Rightarrow> Inl (VersionOverflow j)
                    | Some next_version \<Rightarrow>
                        let trigger_changed = (jp_trigger p \<noteq> None);
                            reschedule = (if trigger_changed \<and> jp_reschedule p = Preserve
                                          then Recalculate else jp_reschedule p);
                            now = utc_now e;
                            first = (case first_run_at e tr now of
                                       Inl err \<Rightarrow> Inl err | Inr t \<Rightarrow> Inr (Some t));
                            next_run = (case reschedule of
                               Preserve \<Rightarrow>
                                 (case je_next_run_at job of
                                    Some n \<Rightarrow> Inr (Some n)
                                  | None \<Rightarrow> if je_state job = Enabled then first else Inr None)
                             | Recalculate \<Rightarrow> first
                             | RunNow \<Rightarrow> Inr (Some now))
                        in case next_run of
                             Inl err \<Rightarrow> Inl err
                           | Inr next_run_at \<Rightarrow>
                               Inr \<lparr>up_next_version = next_version,
                                    up_next_run_at = next_run_at,
                                    up_reschedule = reschedule,
                                    up_trigger_changed = trigger_changed,
                                    up_task_changed = (jp_task p \<noteq> None)\<rparr>))"

text \<open>The assignments of \<open>update_job\<close> to the Job it has taken out of the map.\<close>

definition patch_entry :: "env \<Rightarrow> job_patch \<Rightarrow> u64 \<Rightarrow> job_entry \<Rightarrow> job_entry" where
  "patch_entry e p version job =
     job\<lparr>je_trigger := override (jp_trigger p) (je_trigger job),
         je_task := (case jp_task p of Some t \<Rightarrow> tb_kind t | None \<Rightarrow> je_task job),
         je_cancellation_mode :=
           (case jp_task p of Some t \<Rightarrow> tb_mode t | None \<Rightarrow> je_cancellation_mode job),
         je_concurrency := apply_patch_value (je_concurrency job) (jp_concurrency p),
         je_max_pending := apply_patch_value (je_max_pending job) (jp_max_pending p),
         je_priority := override (jp_priority p) (je_priority job),
         je_coalescing := override (jp_coalescing p) (je_coalescing job),
         je_capacity := override (jp_capacity p) (je_capacity job),
         je_retry := override (jp_retry p) (je_retry job),
         je_failure := override (jp_failure p) (je_failure job),
         je_version := version,
         je_updated_at := utc_now e,
         je_normal_timer_key := None,
         je_next_run_at := None\<rparr>"

text \<open>Work that waits follows the Job: it goes when trigger or task changed, and otherwise
  moves to the new version and priority.\<close>

definition updated_entry :: "env \<Rightarrow> job_patch \<Rightarrow> job_update_plan \<Rightarrow> job_entry \<Rightarrow> job_entry" where
  "updated_entry e p plan old =
     (let job = patch_entry e p (up_next_version plan) old
      in if up_trigger_changed plan \<or> up_task_changed plan
         then job\<lparr>je_blocked := [], je_consecutive_failures := 0\<rparr>
         else job\<lparr>je_blocked := map (\<lambda>b. b\<lparr>pe_version := je_version job,
                pe_priority := je_priority job\<rparr>) (je_blocked job)\<rparr>)"

definition updated_ready ::
  "job_id \<Rightarrow> job_update_plan \<Rightarrow> job_entry \<Rightarrow> ready_queue \<Rightarrow> ready_queue" where
  "updated_ready j plan job ready =
     (if up_trigger_changed plan \<or> up_task_changed plan then snd (remove_job j ready)
      else
        let ready = migrate_job j (je_version job) (je_priority job) ready
        in if je_coalescing job = KeepLatest then snd (remove_normal_triggers j ready) else ready)"

definition update_job ::
  "env \<Rightarrow> job_id \<Rightarrow> u64 \<Rightarrow> job_patch \<Rightarrow> actor \<Rightarrow> job_snapshot sresult \<times> actor" where
  "update_job e j expected p s =
     (case plan_job_update e j expected p s of
        Inl err \<Rightarrow> (Inl err, s)
      | Inr plan \<Rightarrow>
          (case map_of (act_jobs s) j of
             None \<Rightarrow> (Inl (JobNotFound j), s)
           | Some old \<Rightarrow>
               let job = updated_entry e p plan old;
                   changed = (up_trigger_changed plan \<or> up_task_changed plan);
                   s = timers_try_remove (je_normal_timer_key old) s;
                   s = clear_retry_timers j s;
                   s = s\<lparr>act_ready := updated_ready j plan job (act_ready s)\<rparr>;
                   kind = (if up_reschedule plan = RunNow then TimerRunNow else TimerNormal);
                   s = s\<lparr>act_jobs := AList.update j job (act_jobs s)\<rparr>;
                   s = (case up_next_run_at plan of
                          Some n \<Rightarrow> if je_state job = Enabled then schedule_normal e j n kind s else s
                        | None \<Rightarrow> s);
                   s = (if changed then cancel_job_version j expected s else s);
                   s = emit e (JobUpdated j (je_version job)) s
               in (snapshot_of j s, s)))"

section \<open>Enabling, disabling, deleting\<close>

definition enable_job ::
  "env \<Rightarrow> job_id \<Rightarrow> u64 \<Rightarrow> actor \<Rightarrow> job_snapshot sresult \<times> actor" where
  "enable_job e j expected s =
     (case (check_version j expected s, map_of (act_jobs s) j) of
        (Inl err, _) \<Rightarrow> (Inl err, s)
      | (Inr _, None) \<Rightarrow> (Inl (JobNotFound j), s)
      | (Inr _, Some job) \<Rightarrow>
          if je_state job = Enabled then (snapshot_of j s, s)
          else
            let s = s\<lparr>act_ready := snd (remove_job j (act_ready s))\<rparr>;
                s = clear_retry_timers j s;
                now = utc_now e
            in case first_run_at e (je_trigger job) now of
                 Inl err \<Rightarrow> (Inl err, s)
               | Inr n \<Rightarrow>
                   (case checked_add_u64 (je_version job) 1 of
                      None \<Rightarrow> (Inl (VersionOverflow j), s)
                    | Some next_version \<Rightarrow>
                        let s = s\<lparr>act_jobs := modify j
                              (\<lambda>job. job\<lparr>je_version := next_version, je_state := Enabled,
                                je_consecutive_failures := 0, je_updated_at := now\<rparr>)
                              (act_jobs s)\<rparr>;
                            s = schedule_normal e j n TimerNormal s;
                            s = emit e (JobEnabled j next_version) s
                        in (snapshot_of j s, s)))"

definition disable_job ::
  "env \<Rightarrow> job_id \<Rightarrow> u64 \<Rightarrow> reason \<Rightarrow> actor \<Rightarrow> job_snapshot sresult \<times> actor" where
  "disable_job e j expected why s =
     (case check_version j expected s of
        Inl err \<Rightarrow> (Inl err, s)
      | Inr _ \<Rightarrow>
          (case force_disable e j why s of
             (Inl err, s) \<Rightarrow> (Inl err, s)
           | (Inr _, s) \<Rightarrow> (snapshot_of j s, s)))"

definition delete_job ::
  "env \<Rightarrow> job_id \<Rightarrow> u64 \<Rightarrow> bool \<Rightarrow> actor \<Rightarrow> unit sresult \<times> actor" where
  "delete_job e j expected cancel_running s =
     (case (check_version j expected s, map_of (act_jobs s) j) of
        (Inl err, _) \<Rightarrow> (Inl err, s)
      | (Inr _, None) \<Rightarrow> (Inl (JobNotFound j), s)
      | (Inr _, Some job) \<Rightarrow>
          let s = s\<lparr>act_jobs := AList.delete j (act_jobs s)\<rparr>;
              s = timers_try_remove (je_normal_timer_key job) s;
              s = clear_retry_timers j s;
              s = s\<lparr>act_ready := snd (remove_job j (act_ready s))\<rparr>;
              s = (if cancel_running then cancel_job_version j expected s else s)
          in (Inr (), emit e (JobDeleted j expected) s))"

section \<open>Configuration\<close>

definition violates_limits :: "env \<Rightarrow> scheduler_config \<Rightarrow> job_entry \<Rightarrow> bool" where
  "violates_limits e c job \<longleftrightarrow>
     validate_job e (je_trigger job) (job_options_from_entry job) c (je_cancellation_mode job)
       \<noteq> Inr ()"

definition disable_jobs_violating_limits :: "env \<Rightarrow> actor \<Rightarrow> actor" where
  "disable_jobs_violating_limits e s =
     fold (\<lambda>j s. snd (force_disable e j (Reason ''scheduler safety limits changed'') s))
       [j. (j, job) \<leftarrow> act_jobs s, violates_limits e (act_config s) job] s"

definition update_config ::
  "env \<Rightarrow> u64 \<Rightarrow> scheduler_config_patch \<Rightarrow> actor \<Rightarrow> (u64 \<times> scheduler_config) sresult \<times> actor" where
  "update_config e expected p s =
     (if act_config_revision s \<noteq> expected
      then (Inl (ConfigRevisionConflict expected (act_config_revision s)), s)
      else
        let c = apply_config_patch (act_config s) p
        in case validate_config c of
             Inl err \<Rightarrow> (Inl err, s)
           | Inr _ \<Rightarrow>
               (case checked_add_u64 (act_config_revision s) 1 of
                  None \<Rightarrow> (Inl ConfigRevisionOverflow, s)
                | Some r \<Rightarrow>
                    let s = s\<lparr>act_config_revision := r, act_config := c\<rparr>;
                        s = disable_jobs_violating_limits e s;
                        s = emit e (SchedulerConfigUpdated r) s
                    in (Inr (r, act_config s), s)))"

section \<open>Reconciliation\<close>

fun precheck_updates ::
  "env \<Rightarrow> reconcile_update list \<Rightarrow> job_id list \<Rightarrow> actor \<Rightarrow> job_id list sresult" where
  "precheck_updates e [] touched s = Inr touched"
| "precheck_updates e (u # us) touched s =
     (if ru_job_id u \<in> set touched
      then Inl (ActorError ''Job appears more than once in reconcile plan'')
      else case plan_job_update e (ru_job_id u) (ru_expected_version u) (ru_patch u) s of
             Inl err \<Rightarrow> Inl err
           | Inr _ \<Rightarrow> precheck_updates e us (ru_job_id u # touched) s)"

fun precheck_additions ::
  "env \<Rightarrow> reconcile_addition list \<Rightarrow> job_id list \<Rightarrow> actor \<Rightarrow> unit sresult" where
  "precheck_additions e [] touched s = Inr ()"
| "precheck_additions e (a # as) touched s =
     (if ra_job_id a \<in> set touched \<or> ra_job_id a \<in> set (keys_of (act_jobs s))
      then Inl (JobAlreadyExists (ra_job_id a))
      else case validate_job e (ra_trigger a) (ra_options a) (act_config s) (tb_mode (ra_task a)) of
             Inl err \<Rightarrow> Inl err
           | Inr _ \<Rightarrow> precheck_additions e as (ra_job_id a # touched) s)"

fun precheck_deletions :: "(job_id \<times> u64) list \<Rightarrow> actor \<Rightarrow> unit sresult" where
  "precheck_deletions [] s = Inr ()"
| "precheck_deletions ((j, v) # ds) s =
     (case check_version j v s of Inl err \<Rightarrow> Inl err | Inr _ \<Rightarrow> precheck_deletions ds s)"

definition precheck_plan :: "env \<Rightarrow> reconcile_plan \<Rightarrow> actor \<Rightarrow> unit sresult" where
  "precheck_plan e plan s =
     (let deleted = map fst (rp_deletions plan)
      in if \<not> distinct deleted
         then Inl (ActorError ''duplicate Job deletion in reconcile plan'')
         else case precheck_updates e (rp_updates plan) deleted s of
                Inl err \<Rightarrow> Inl err
              | Inr touched \<Rightarrow>
                  (case precheck_additions e (rp_additions plan) touched s of
                     Inl err \<Rightarrow> Inl err
                   | Inr _ \<Rightarrow>
                       if max_jobs (act_config s)
                          < usize_saturating_add (length (act_jobs s) - length (rp_deletions plan))
                              (length (rp_additions plan))
                       then Inl (MaximumJobsReached (max_jobs (act_config s)))
                       else precheck_deletions (rp_deletions plan) s))"

text \<open>After an update the Job is enabled or disabled as the plan says.\<close>

definition align_state ::
  "env \<Rightarrow> reconcile_update \<Rightarrow> job_snapshot \<Rightarrow> actor \<Rightarrow> job_snapshot sresult \<times> actor" where
  "align_state e u sn s =
     (if ru_enabled u \<and> sn_state sn \<noteq> Enabled
      then enable_job e (sn_id sn) (sn_version sn) s
      else if \<not> ru_enabled u \<and> sn_state sn = Enabled
      then disable_job e (sn_id sn) (sn_version sn)
             (Reason ''disabled by authoritative remote Job snapshot'') s
      else (Inr sn, s))"

fun apply_updates :: "env \<Rightarrow> reconcile_update list \<Rightarrow> actor \<Rightarrow> unit sresult \<times> actor" where
  "apply_updates e [] s = (Inr (), s)"
| "apply_updates e (u # us) s =
     (case update_job e (ru_job_id u) (ru_expected_version u) (ru_patch u) s of
        (Inl err, s) \<Rightarrow> (Inl err, s)
      | (Inr sn, s) \<Rightarrow>
          (case align_state e u sn s of
             (Inl err, s) \<Rightarrow> (Inl err, s)
           | (Inr _, s) \<Rightarrow> apply_updates e us s))"

fun apply_deletions :: "env \<Rightarrow> (job_id \<times> u64) list \<Rightarrow> actor \<Rightarrow> unit sresult \<times> actor" where
  "apply_deletions e [] s = (Inr (), s)"
| "apply_deletions e ((j, v) # ds) s =
     (case delete_job e j v True s of
        (Inl err, s) \<Rightarrow> (Inl err, s) | (Inr _, s) \<Rightarrow> apply_deletions e ds s)"

fun apply_additions :: "env \<Rightarrow> reconcile_addition list \<Rightarrow> actor \<Rightarrow> unit sresult \<times> actor" where
  "apply_additions e [] s = (Inr (), s)"
| "apply_additions e (a # as) s =
     (case add_job_as e (ra_job_id a) 1 (ra_enabled a) (ra_trigger a) (ra_task a) (ra_options a) s of
        (Inl err, s) \<Rightarrow> (Inl err, s) | (Inr _, s) \<Rightarrow> apply_additions e as s)"

definition reconcile_jobs ::
  "env \<Rightarrow> reconcile_plan \<Rightarrow> actor \<Rightarrow> job_snapshot list sresult \<times> actor" where
  "reconcile_jobs e plan s =
     (case precheck_plan e plan s of
        Inl err \<Rightarrow> (Inl err, s)
      | Inr _ \<Rightarrow>
          (case apply_updates e (rp_updates plan) s of
             (Inl err, s) \<Rightarrow> (Inl err, s)
           | (Inr _, s) \<Rightarrow>
               (case apply_deletions e (rp_deletions plan) s of
                  (Inl err, s) \<Rightarrow> (Inl err, s)
                | (Inr _, s) \<Rightarrow>
                    (case apply_additions e (rp_additions plan) s of
                       (Inl err, s) \<Rightarrow> (Inl err, s)
                     | (Inr _, s) \<Rightarrow>
                         (Inr (List.map_filter (\<lambda>j. map_option (snapshot s) (map_of (act_jobs s) j))
                            (map ru_job_id (rp_updates plan) @ map ra_job_id (rp_additions plan))),
                          s)))))"

section \<open>What management leaves alone\<close>

text \<open>No management operation touches the executions in flight: it cancels their tokens and
  leaves the slots to the completions.\<close>

lemma install_job_frame [simp]:
  "act_tasks (snd (install_job e i g en tr tk opts s)) = act_tasks s"
  "act_running (snd (install_job e i g en tr tk opts s)) = act_running s"
  "act_total_running (snd (install_job e i g en tr tk opts s)) = act_total_running s"
  "act_status (snd (install_job e i g en tr tk opts s)) = act_status s"
  "act_batch_sequence (snd (install_job e i g en tr tk opts s)) = act_batch_sequence s"
  "act_shutdown_response (snd (install_job e i g en tr tk opts s)) = act_shutdown_response s"
  "act_uuids (snd (install_job e i g en tr tk opts s)) = act_uuids s"
  "act_tokens (snd (install_job e i g en tr tk opts s)) = act_tokens s"
  "act_config (snd (install_job e i g en tr tk opts s)) = act_config s"
  "act_config_revision (snd (install_job e i g en tr tk opts s)) = act_config_revision s"
  "act_retry_timers (snd (install_job e i g en tr tk opts s)) = act_retry_timers s"
  "act_ready (snd (install_job e i g en tr tk opts s)) = act_ready s"
  "act_cancelled (snd (install_job e i g en tr tk opts s)) = act_cancelled s"
  by (simp_all add: install_job_def Let_def case_prod_beta split: sum.splits)

lemma add_job_as_frame [simp]:
  "act_tasks (snd (add_job_as e i g en tr tk opts s)) = act_tasks s"
  "act_running (snd (add_job_as e i g en tr tk opts s)) = act_running s"
  "act_total_running (snd (add_job_as e i g en tr tk opts s)) = act_total_running s"
  "act_status (snd (add_job_as e i g en tr tk opts s)) = act_status s"
  "act_batch_sequence (snd (add_job_as e i g en tr tk opts s)) = act_batch_sequence s"
  "act_shutdown_response (snd (add_job_as e i g en tr tk opts s)) = act_shutdown_response s"
  "act_uuids (snd (add_job_as e i g en tr tk opts s)) = act_uuids s"
  "act_tokens (snd (add_job_as e i g en tr tk opts s)) = act_tokens s"
  "act_config (snd (add_job_as e i g en tr tk opts s)) = act_config s"
  "act_config_revision (snd (add_job_as e i g en tr tk opts s)) = act_config_revision s"
  "act_retry_timers (snd (add_job_as e i g en tr tk opts s)) = act_retry_timers s"
  "act_ready (snd (add_job_as e i g en tr tk opts s)) = act_ready s"
  "act_cancelled (snd (add_job_as e i g en tr tk opts s)) = act_cancelled s"
  by (simp_all add: add_job_as_def split: sum.splits)

lemma update_job_frame [simp]:
  "act_tasks (snd (update_job e j v p s)) = act_tasks s"
  "act_running (snd (update_job e j v p s)) = act_running s"
  "act_total_running (snd (update_job e j v p s)) = act_total_running s"
  "act_status (snd (update_job e j v p s)) = act_status s"
  "act_batch_sequence (snd (update_job e j v p s)) = act_batch_sequence s"
  "act_shutdown_response (snd (update_job e j v p s)) = act_shutdown_response s"
  "act_uuids (snd (update_job e j v p s)) = act_uuids s"
  "act_tokens (snd (update_job e j v p s)) = act_tokens s"
  "act_config (snd (update_job e j v p s)) = act_config s"
  "act_config_revision (snd (update_job e j v p s)) = act_config_revision s"
  by (simp_all add: update_job_def Let_def case_prod_beta split: sum.splits option.splits)

lemma enable_job_frame [simp]:
  "act_tasks (snd (enable_job e j v s)) = act_tasks s"
  "act_running (snd (enable_job e j v s)) = act_running s"
  "act_total_running (snd (enable_job e j v s)) = act_total_running s"
  "act_status (snd (enable_job e j v s)) = act_status s"
  "act_batch_sequence (snd (enable_job e j v s)) = act_batch_sequence s"
  "act_shutdown_response (snd (enable_job e j v s)) = act_shutdown_response s"
  "act_uuids (snd (enable_job e j v s)) = act_uuids s"
  "act_tokens (snd (enable_job e j v s)) = act_tokens s"
  "act_config (snd (enable_job e j v s)) = act_config s"
  "act_config_revision (snd (enable_job e j v s)) = act_config_revision s"
  "act_cancelled (snd (enable_job e j v s)) = act_cancelled s"
  by (simp_all add: enable_job_def Let_def case_prod_beta split: sum.splits option.splits)

lemma disable_job_state:
  "snd (disable_job e j v why s) =
     (case check_version j v s of Inl _ \<Rightarrow> s | Inr _ \<Rightarrow> snd (force_disable e j why s))"
  by (cases "force_disable e j why s") (auto simp: disable_job_def split: sum.splits)

lemma disable_job_frame [simp]:
  "act_tasks (snd (disable_job e j v why s)) = act_tasks s"
  "act_running (snd (disable_job e j v why s)) = act_running s"
  "act_total_running (snd (disable_job e j v why s)) = act_total_running s"
  "act_status (snd (disable_job e j v why s)) = act_status s"
  "act_batch_sequence (snd (disable_job e j v why s)) = act_batch_sequence s"
  "act_shutdown_response (snd (disable_job e j v why s)) = act_shutdown_response s"
  "act_uuids (snd (disable_job e j v why s)) = act_uuids s"
  "act_tokens (snd (disable_job e j v why s)) = act_tokens s"
  "act_config (snd (disable_job e j v why s)) = act_config s"
  "act_config_revision (snd (disable_job e j v why s)) = act_config_revision s"
  "act_panicked (snd (disable_job e j v why s)) = act_panicked s"
  by (simp_all add: disable_job_state split: sum.splits)

lemma delete_job_frame [simp]:
  "act_tasks (snd (delete_job e j v c s)) = act_tasks s"
  "act_running (snd (delete_job e j v c s)) = act_running s"
  "act_total_running (snd (delete_job e j v c s)) = act_total_running s"
  "act_status (snd (delete_job e j v c s)) = act_status s"
  "act_batch_sequence (snd (delete_job e j v c s)) = act_batch_sequence s"
  "act_shutdown_response (snd (delete_job e j v c s)) = act_shutdown_response s"
  "act_uuids (snd (delete_job e j v c s)) = act_uuids s"
  "act_tokens (snd (delete_job e j v c s)) = act_tokens s"
  "act_config (snd (delete_job e j v c s)) = act_config s"
  "act_config_revision (snd (delete_job e j v c s)) = act_config_revision s"
  "act_panicked (snd (delete_job e j v c s)) = act_panicked s"
  by (simp_all add: delete_job_def Let_def split: sum.splits option.splits)

lemma disable_violating_frame [simp]:
  "act_tasks (disable_jobs_violating_limits e s) = act_tasks s"
  "act_running (disable_jobs_violating_limits e s) = act_running s"
  "act_total_running (disable_jobs_violating_limits e s) = act_total_running s"
  "act_status (disable_jobs_violating_limits e s) = act_status s"
  "act_batch_sequence (disable_jobs_violating_limits e s) = act_batch_sequence s"
  "act_shutdown_response (disable_jobs_violating_limits e s) = act_shutdown_response s"
  "act_uuids (disable_jobs_violating_limits e s) = act_uuids s"
  "act_tokens (disable_jobs_violating_limits e s) = act_tokens s"
  "act_config (disable_jobs_violating_limits e s) = act_config s"
  "act_config_revision (disable_jobs_violating_limits e s) = act_config_revision s"
  "act_panicked (disable_jobs_violating_limits e s) = act_panicked s"
  unfolding disable_jobs_violating_limits_def by (rule fold_frame, simp)+

lemma update_config_frame [simp]:
  "act_tasks (snd (update_config e v p s)) = act_tasks s"
  "act_running (snd (update_config e v p s)) = act_running s"
  "act_total_running (snd (update_config e v p s)) = act_total_running s"
  "act_status (snd (update_config e v p s)) = act_status s"
  "act_batch_sequence (snd (update_config e v p s)) = act_batch_sequence s"
  "act_shutdown_response (snd (update_config e v p s)) = act_shutdown_response s"
  "act_uuids (snd (update_config e v p s)) = act_uuids s"
  "act_tokens (snd (update_config e v p s)) = act_tokens s"
  "act_panicked (snd (update_config e v p s)) = act_panicked s"
  by (simp_all add: update_config_def Let_def split: sum.splits option.splits)

section \<open>Management keeps the event stream\<close>

lemma extends_management [event_facts]:
  assumes "extends s t"
  shows "extends s (snd (install_job e i g en tr tk opts t))"
    and "extends s (snd (add_job_as e i g en tr tk opts t))"
    and "extends s (snd (update_job e j v p t))"
    and "extends s (snd (enable_job e j v t))"
    and "extends s (snd (disable_job e j v why t))"
    and "extends s (snd (delete_job e j v c t))"
proof -
  have install: "extends s (snd (install_job e i g en tr tk opts u))" if "extends s u" for u
    using that
    by (auto simp: install_job_def Let_def case_prod_beta split: sum.splits intro!: event_facts)
  then show "extends s (snd (install_job e i g en tr tk opts t))" using assms .
  show "extends s (snd (add_job_as e i g en tr tk opts t))"
    using assms by (auto simp: add_job_as_def install split: sum.splits)
  show "extends s (snd (update_job e j v p t))"
    using assms
    by (auto simp: update_job_def Let_def split: sum.splits option.splits intro!: event_facts)
  show "extends s (snd (enable_job e j v t))"
    using assms
    by (auto simp: enable_job_def Let_def split: sum.splits option.splits intro!: event_facts)
  show "extends s (snd (disable_job e j v why t))"
    using assms by (auto simp: disable_job_state split: sum.splits intro!: event_facts)
  show "extends s (snd (delete_job e j v c t))"
    using assms
    by (auto simp: delete_job_def Let_def split: sum.splits option.splits intro!: event_facts)
qed

lemma extends_config [event_facts]:
  assumes "extends s t"
  shows "extends s (snd (update_config e v p t))"
proof -
  have "extends s (disable_jobs_violating_limits e u)" if "extends s u" for u
    using that unfolding disable_jobs_violating_limits_def by (intro extends_fold event_facts)
  with assms show ?thesis
    by (auto simp: update_config_def Let_def split: sum.splits option.splits intro!: event_facts)
qed

section \<open>Reconciliation is made of the single operations\<close>

text \<open>\<open>?\<close> between two operations: what both keep, the sequence keeps.\<close>

lemma result_chain:
  assumes "I (snd r)" and "\<And>x. I (snd (f x (snd r)))"
  shows "I (snd (case r of (Inl err, s) \<Rightarrow> (Inl err, s) | (Inr x, s) \<Rightarrow> f x s))"
  using assms by (cases r; cases "fst r") auto

lemma reconcile_invariant:
  assumes "I s"
    and "\<And>j v p t. I t \<Longrightarrow> I (snd (update_job e j v p t))"
    and "\<And>j v t. I t \<Longrightarrow> I (snd (enable_job e j v t))"
    and "\<And>j v why t. I t \<Longrightarrow> I (snd (disable_job e j v why t))"
    and "\<And>j v t. I t \<Longrightarrow> I (snd (delete_job e j v True t))"
    and "\<And>i en tr tk opts t. I t \<Longrightarrow> I (snd (add_job_as e i 1 en tr tk opts t))"
  shows "I (snd (reconcile_jobs e plan s))"
proof -
  have align: "I (snd (align_state e u sn t))" if "I t" for u sn t
    using that assms(3,4) by (simp add: align_state_def)
  have up: "I (snd (apply_updates e us t))" if "I t" for us t
    using that by (induction us arbitrary: t) (auto intro!: result_chain [of I] assms(2) align)
  have del: "I (snd (apply_deletions e ds t))" if "I t" for ds t
    using that
  proof (induction ds arbitrary: t)
    case (Cons d ds)
    then show ?case by (cases d) (auto intro!: result_chain [of I] assms(5))
  qed simp
  have add: "I (snd (apply_additions e as t))" if "I t" for as t
    using that by (induction as arbitrary: t) (auto intro!: result_chain [of I] assms(6))
  show ?thesis
    using assms(1)
    by (auto simp: reconcile_jobs_def split: sum.split intro!: result_chain [of I] up del add)
qed

section \<open>The invariant of the Job table and the queue\<close>

definition jobs_ok :: "actor \<Rightarrow> bool" where
  "jobs_ok s \<longleftrightarrow>
     wf_map (act_jobs s) \<and> (\<forall>j job. map_of (act_jobs s) j = Some job \<longrightarrow> je_id job = j)"

definition actor_ok :: "actor \<Rightarrow> bool" where
  "actor_ok s \<longleftrightarrow> jobs_ok s \<and> rq_inv (act_ready s) \<and> versions_ok s"

definition job_running :: "actor \<Rightarrow> job_id \<Rightarrow> nat" where
  "job_running s j = (case map_of (act_jobs s) j of Some job \<Rightarrow> je_running_count job | None \<Rightarrow> 0)"

lemma je_core_sel [simp]:
  "je_id (je_core job) = je_id job" "je_version (je_core job) = je_version job"
  "je_running_count (je_core job) = je_running_count job" "je_state (je_core job) = je_state job"
  by (simp_all add: je_core_def)

lemma jobs_ok_cores:
  assumes "cores t = cores s"
  shows "jobs_ok t = jobs_ok s"
proof -
  have keys: "keys_of (act_jobs u) = keys_of (cores u)" for u
    by (simp add: cores_def comp_def case_prod_unfold)
  have "(\<forall>job. map_option je_core m = Some job \<longrightarrow> je_id job = j) \<longleftrightarrow>
      (\<forall>job. m = Some job \<longrightarrow> je_id job = j)" for m j
    by (cases m) simp_all
  then have eq: "jobs_ok u \<longleftrightarrow> wf_map (cores u) \<and>
      (\<forall>j job. map_option je_core (map_of (act_jobs u) j) = Some job \<longrightarrow> je_id job = j)" for u
    unfolding jobs_ok_def keys by presburger
  show ?thesis unfolding eq assms cores_lookup [OF assms] ..
qed

lemma job_running_cores: "cores t = cores s \<Longrightarrow> job_running t = job_running s"
proof (rule ext)
  fix j
  assume "cores t = cores s"
  have eq: "job_running u j = (case map_option je_core (map_of (act_jobs u) j) of
      Some job \<Rightarrow> je_running_count job | None \<Rightarrow> 0)" for u
    by (simp add: job_running_def split: option.splits)
  show "job_running t j = job_running s j"
    unfolding eq cores_lookup [OF \<open>cores t = cores s\<close>] ..
qed

lemma actor_ok_quiet:
  assumes "actor_ok s" and "cores t = cores s" and "act_ready t = act_ready s"
    and "job_blocked t = job_blocked s"
  shows "actor_ok t"
  using assms jobs_ok_cores [OF assms(2)] job_version_cores [OF assms(2)]
  by (simp add: actor_ok_def versions_ok_def)

lemma actor_ok_schedule: "actor_ok s \<Longrightarrow> actor_ok (schedule_normal e j n k s)"
  by (erule actor_ok_quiet) simp_all

lemma actor_ok_same:
  "act_jobs t = act_jobs s \<Longrightarrow> act_ready t = act_ready s \<Longrightarrow> actor_ok t = actor_ok s"
  by (simp add: actor_ok_def versions_ok_def jobs_ok_def job_version_def job_blocked_def)

lemma jobs_ok_modify:
  assumes "jobs_ok s" and "\<And>job. je_id (f job) = je_id job"
  shows "jobs_ok (s\<lparr>act_jobs := modify j f (act_jobs s)\<rparr>)"
  using assms by (auto simp: jobs_ok_def)

lemma actor_ok_disable:
  assumes "actor_ok s"
  shows "actor_ok (snd (force_disable e j why s))"
proof -
  have "jobs_ok (snd (force_disable e j why s))"
  proof (cases rule: force_disable_cases [of e j why s])
    case (disabled job v t)
    with assms show ?thesis by (auto simp: actor_ok_def jobs_ok_def)
  qed (use assms in \<open>simp add: actor_ok_def\<close>)
  with assms show ?thesis
    by (simp add: actor_ok_def versions_ok_disable ready_inv_timers(1))
qed

lemma job_running_disable [simp]: "job_running (snd (force_disable e j why s)) i = job_running s i"
  by (cases rule: force_disable_cases [of e j why s]) (auto simp: job_running_def split: option.splits)

lemma actor_ok_frame [simp]:
  "actor_ok (emit e k s) = actor_ok s"
  "actor_ok (cancel_job_version j v s) = actor_ok s"
  "actor_ok (clear_retry_timers j s) = actor_ok s"
  "actor_ok (timers_try_remove key s) = actor_ok s"
  by (rule actor_ok_same; simp)+

lemma job_running_frame [simp]:
  "job_running (emit e k s) = job_running s"
  "job_running (cancel_job_version j v s) = job_running s"
  "job_running (clear_retry_timers j s) = job_running s"
  "job_running (timers_try_remove key s) = job_running s"
  "job_running (schedule_normal e j n tk s) = job_running s"
  "job_running (s\<lparr>act_ready := q\<rparr>) = job_running s"
  by (rule job_running_cores; simp)+

text \<open>A Job is written into the table: what it replaces no longer counts.\<close>

lemma actor_ok_write:
  assumes "jobs_ok s" and "rq_inv q" and "je_id job = j"
    and "\<And>p. p \<in> set (rq_values q) \<Longrightarrow>
      if pe_job_id p = j then pe_version p = je_version job
      else job_version s (pe_job_id p) = Some (pe_version p)"
    and "\<And>p. p \<in> set (je_blocked job) \<Longrightarrow> pe_job_id p = j"
    and "\<And>i p. i \<noteq> j \<Longrightarrow> p \<in> set (job_blocked s i) \<Longrightarrow> pe_job_id p = i"
  shows "actor_ok (s\<lparr>act_jobs := AList.update j job (act_jobs s), act_ready := q\<rparr>)"
proof -
  let ?t = "s\<lparr>act_jobs := AList.update j job (act_jobs s), act_ready := q\<rparr>"
  have "jobs_ok ?t" using assms(1,3) by (auto simp: jobs_ok_def)
  moreover have "job_version ?t i = (if i = j then Some (je_version job) else job_version s i)"
    and "job_blocked ?t i = (if i = j then je_blocked job else job_blocked s i)" for i
    by (simp_all add: job_version_def job_blocked_def)
  ultimately show ?thesis
    using assms(2,4,5,6) by (simp add: actor_ok_def versions_ok_def)
qed

subsection \<open>Adding\<close>

lemma install_cases:
  obtains (failed) err where "install_job e i g en tr tk opts s = (Inl err, s)"
  | (installed) job n where "je_id job = i" "je_version job = g" "je_blocked job = []"
      "je_running_count job = 0" "je_trigger job = tr" "je_coalescing job = fst (effective_queue_policies tr opts)"
      "je_capacity job = snd (effective_queue_policies tr opts)" "je_retry job = opt_retry opts"
      "je_max_pending job = opt_max_pending opts" "je_cancellation_mode job = tb_mode tk"
      "je_state job = (if en then Enabled else Disabled (Reason ''installed disabled''))"
      "first_run_at e tr (utc_now e) = Inr n"
      "install_job e i g en tr tk opts s = (Inr i, emit e (JobAdded i g)
         (if en then schedule_normal e i n TimerNormal (s\<lparr>act_jobs := AList.update i job (act_jobs s)\<rparr>)
          else s\<lparr>act_jobs := AList.update i job (act_jobs s)\<rparr>))"
proof (cases "first_run_at e tr (utc_now e)")
  case (Inl err)
  then show ?thesis using failed by (simp add: install_job_def case_prod_beta)
next
  case (Inr n)
  show ?thesis
    by (rule installed [OF _ _ _ _ _ _ _ _ _ _ _ Inr])
      (auto simp: install_job_def Inr Let_def case_prod_beta)
qed

lemma actor_ok_install:
  assumes "actor_ok s" and "i \<notin> set (keys_of (act_jobs s))"
  shows "actor_ok (snd (install_job e i g en tr tk opts s))"
proof (cases rule: install_cases [of e i g en tr tk opts s])
  case (installed job n)
  have none: "map_of (act_jobs s) i = None"
    using assms(2) by (simp add: map_of_eq_None_iff)
  have "actor_ok (s\<lparr>act_jobs := AList.update i job (act_jobs s), act_ready := act_ready s\<rparr>)"
    using assms(1) installed none
    by (intro actor_ok_write)
      (auto simp: actor_ok_def versions_ok_def job_version_def job_blocked_def)
  then show ?thesis by (simp add: installed actor_ok_schedule)
qed (use assms in simp)

lemma job_running_install:
  assumes "i \<notin> set (keys_of (act_jobs s))"
  shows "job_running (snd (install_job e i g en tr tk opts s)) j \<le> job_running s j"
proof (cases rule: install_cases [of e i g en tr tk opts s])
  case (installed job n)
  have "job_running (s\<lparr>act_jobs := AList.update i job (act_jobs s)\<rparr>) j \<le> job_running s j"
    using installed(4) by (simp add: job_running_def)
  then show ?thesis by (simp add: installed(13))
qed simp

lemma actor_ok_add: "actor_ok s \<Longrightarrow> actor_ok (snd (add_job_as e i g en tr tk opts s))"
  by (auto simp: add_job_as_def intro!: actor_ok_install split: sum.splits)

lemma job_running_add: "job_running (snd (add_job_as e i g en tr tk opts s)) j \<le> job_running s j"
  by (auto simp: add_job_as_def intro!: job_running_install split: sum.splits)

subsection \<open>Updating\<close>

lemma update_cases:
  obtains (failed) err where "update_job e j v p s = (Inl err, s)"
  | (updated) plan old job u where "plan_job_update e j v p s = Inr plan"
      "map_of (act_jobs s) j = Some old" "job = updated_entry e p plan old"
      "act_jobs u = AList.update j job (act_jobs s)" "act_ready u = updated_ready j plan job (act_ready s)"
      "act_retry_timers u = act_retry_timers (clear_retry_timers j s)"
      "\<exists>n k w. snd (update_job e j v p s) = emit e (JobUpdated j (je_version job)) w \<and>
        (w = u \<or> w = schedule_normal e j n k u \<or> w = cancel_job_version j v u \<or>
         w = cancel_job_version j v (schedule_normal e j n k u))"
proof (cases "plan_job_update e j v p s")
  case (Inl err)
  then show ?thesis using failed by (simp add: update_job_def)
next
  case (Inr plan)
  then obtain old where old: "map_of (act_jobs s) j = Some old"
    by (auto simp: plan_job_update_def split: option.splits)
  let ?job = "updated_entry e p plan old"
  let ?c = "clear_retry_timers j (timers_try_remove (je_normal_timer_key old) s)"
  let ?u = "?c\<lparr>act_ready := updated_ready j plan ?job (act_ready s),
    act_jobs := AList.update j ?job (act_jobs s)\<rparr>"
  show ?thesis
  proof (rule updated [OF Inr old refl, of ?u])
    show "\<exists>n k w. snd (update_job e j v p s) = emit e (JobUpdated j (je_version ?job)) w \<and>
        (w = ?u \<or> w = schedule_normal e j n k ?u \<or> w = cancel_job_version j v ?u \<or>
         w = cancel_job_version j v (schedule_normal e j n k ?u))"
      by (simp add: update_job_def Inr old Let_def split: option.splits) blast
  qed simp_all
qed

lemma plan_version:
  assumes "plan_job_update e j v p s = Inr plan"
  obtains old where "map_of (act_jobs s) j = Some old" "je_version old = v"
    "checked_add_u64 v 1 = Some (up_next_version plan)"
  using assms
  by (auto simp: plan_job_update_def Let_def split: option.splits sum.splits if_splits)

lemma updated_entry_sel [simp]:
  "je_id (updated_entry e p plan old) = je_id old"
  "je_version (updated_entry e p plan old) = up_next_version plan"
  "je_running_count (updated_entry e p plan old) = je_running_count old"
  "je_state (updated_entry e p plan old) = je_state old"
  by (simp_all add: updated_entry_def patch_entry_def Let_def)

lemma migrate_values:
  "rq_values (migrate_job j v pr q) = map (migrate_pending j v pr) (rq_values q)"
  by (simp add: migrate_job_def Let_def rq_values_def case_prod_unfold)

lemma updated_ready_inv: "rq_inv q \<Longrightarrow> rq_inv (updated_ready j plan job q)"
  by (simp add: updated_ready_def Let_def remove_job_def remove_normal_triggers_def
      extract_if_inv migrate_inv)

lemma updated_ready_values:
  assumes "p \<in> set (rq_values (updated_ready j plan job q))"
  shows "if pe_job_id p = j then pe_version p = je_version job else p \<in> set (rq_values q)"
  using assms
  by (auto simp: updated_ready_def Let_def remove_job_def remove_normal_triggers_def migrate_values
      migrate_pending_def split: if_splits)

lemma actor_ok_update:
  assumes "actor_ok s"
  shows "actor_ok (snd (update_job e j v p s))"
proof (cases rule: update_cases [of e j v p s])
  case (updated plan old job u)
  have "actor_ok (s\<lparr>act_jobs := AList.update j job (act_jobs s), act_ready := act_ready u\<rparr>)"
  proof (rule actor_ok_write)
    show "jobs_ok s" using assms by (simp add: actor_ok_def)
    show "rq_inv (act_ready u)"
      using assms by (simp add: updated(5) updated_ready_inv actor_ok_def)
    show "je_id job = j" using assms updated(2) by (simp add: updated(3) actor_ok_def jobs_ok_def)
    fix q
    assume "q \<in> set (rq_values (act_ready u))"
    from updated_ready_values [OF this [unfolded updated(5)]]
    show "if pe_job_id q = j then pe_version q = je_version job
        else job_version s (pe_job_id q) = Some (pe_version q)"
      using assms by (auto simp: actor_ok_def versions_ok_def)
  next
    have "pe_job_id q = j" if "q \<in> set (je_blocked old)" for q
      using that assms updated(2) by (force simp: actor_ok_def versions_ok_def job_blocked_def)
    then show "pe_job_id q = j" if "q \<in> set (je_blocked job)" for q
      using that by (auto simp: updated(3) updated_entry_def patch_entry_def Let_def split: if_splits)
    show "pe_job_id q = i" if "q \<in> set (job_blocked s i)" for i q
      using that assms by (auto simp: actor_ok_def versions_ok_def)
  qed
  then have "actor_ok u" using updated(4) by (subst actor_ok_same) simp_all
  with updated(7) show ?thesis by (auto simp: actor_ok_schedule)
qed (use assms in simp)

lemma job_running_update [simp]: "job_running (snd (update_job e j v p s)) i = job_running s i"
proof (cases rule: update_cases [of e j v p s])
  case (updated plan old job u)
  have "job_running u i = job_running s i"
    using updated(2) by (simp add: job_running_def updated(3,4))
  with updated(7) show ?thesis by auto
qed simp

subsection \<open>Enabling, disabling, deleting\<close>

lemma enable_cases:
  obtains (unchanged) r where "enable_job e j v s = (r, s)"
  | (cleared) err u where "enable_job e j v s = (Inl err, u)" "act_jobs u = act_jobs s"
      "act_ready u = snd (remove_job j (act_ready s))"
  | (enabled) old n w u where "map_of (act_jobs s) j = Some old" "je_version old = v"
      "je_state old \<noteq> Enabled" "checked_add_u64 v 1 = Some w"
      "act_jobs u = modify j (\<lambda>job. job\<lparr>je_version := w, je_state := Enabled,
         je_consecutive_failures := 0, je_updated_at := utc_now e\<rparr>) (act_jobs s)"
      "act_ready u = snd (remove_job j (act_ready s))"
      "snd (enable_job e j v s) = emit e (JobEnabled j w) (schedule_normal e j n TimerNormal u)"
proof (cases "\<exists>old. map_of (act_jobs s) j = Some old \<and> je_version old = v \<and> je_state old \<noteq> Enabled")
  case False
  then have "snd (enable_job e j v s) = s"
    by (auto simp: enable_job_def check_version_def split: option.splits)
  then show ?thesis using unchanged by (metis surjective_pairing)
next
  case True
  then obtain old where old: "map_of (act_jobs s) j = Some old" "je_version old = v"
    "je_state old \<noteq> Enabled" by blast
  let ?c = "clear_retry_timers j (s\<lparr>act_ready := snd (remove_job j (act_ready s))\<rparr>)"
  show ?thesis
  proof (cases "\<exists>n w. first_run_at e (je_trigger old) (utc_now e) = Inr n \<and> checked_add_u64 v 1 = Some w")
    case False
    then have "\<exists>err. enable_job e j v s = (Inl err, ?c)"
      using old by (auto simp: enable_job_def check_version_def Let_def split: sum.splits option.splits)
    then show ?thesis using cleared by auto
  next
    case True
    then obtain n w where nw: "first_run_at e (je_trigger old) (utc_now e) = Inr n"
      "checked_add_u64 v 1 = Some w" by blast
    let ?u = "?c\<lparr>act_jobs := modify j (\<lambda>job. job\<lparr>je_version := w, je_state := Enabled,
         je_consecutive_failures := 0, je_updated_at := utc_now e\<rparr>) (act_jobs s)\<rparr>"
    show ?thesis
      by (rule enabled [OF old nw(2), of ?u n])
        (use old nw in \<open>simp_all add: enable_job_def check_version_def Let_def\<close>)
  qed
qed

text \<open>Taking the waiting executions of a Job out of the queue.\<close>

lemma actor_ok_remove_ready:
  assumes "actor_ok s" and "act_jobs u = act_jobs s" and "act_ready u = snd (remove_job j (act_ready s))"
  shows "actor_ok u"
proof -
  have "actor_ok (s\<lparr>act_ready := snd (remove_job j (act_ready s))\<rparr>)"
    using assms(1)
    by (auto simp: actor_ok_def jobs_ok_def versions_ok_def job_version_def job_blocked_def
        remove_job_def extract_if_inv)
  with assms(2,3) show ?thesis by (subst actor_ok_same) simp_all
qed

lemma actor_ok_enable:
  assumes "actor_ok s"
  shows "actor_ok (snd (enable_job e j v s))"
proof (cases rule: enable_cases [of e j v s])
  case (cleared err u)
  with assms show ?thesis using actor_ok_remove_ready by simp
next
  case (enabled old n w u)
  have "jobs_ok u" using assms by (auto simp: enabled(5) actor_ok_def jobs_ok_def)
  moreover have "job_version u i = (if i = j then Some w else job_version s i)"
    and "job_blocked u i = job_blocked s i" for i
    using enabled(1,5) by (simp_all add: job_version_def job_blocked_def)
  ultimately have "actor_ok u"
    using assms by (auto simp: enabled(6) actor_ok_def versions_ok_def remove_job_def extract_if_inv)
  then show ?thesis by (simp add: enabled(7) actor_ok_schedule)
qed (use assms in simp)

lemma job_running_enable [simp]: "job_running (snd (enable_job e j v s)) i = job_running s i"
proof (cases rule: enable_cases [of e j v s])
  case (cleared err u)
  then show ?thesis by (simp add: job_running_def)
next
  case (enabled old n w u)
  then have "job_running u i = job_running s i" by (simp add: job_running_def)
  then show ?thesis by (simp add: enabled(7))
qed simp

lemma actor_ok_disable_job: "actor_ok s \<Longrightarrow> actor_ok (snd (disable_job e j v why s))"
  by (simp add: disable_job_state actor_ok_disable split: sum.splits)

lemma job_running_disable_job [simp]: "job_running (snd (disable_job e j v why s)) i = job_running s i"
  by (simp add: disable_job_state split: sum.splits)

lemma delete_cases:
  obtains (failed) err where "delete_job e j v c s = (Inl err, s)"
  | (deleted) old u where "map_of (act_jobs s) j = Some old" "je_version old = v"
      "delete_job e j v c s = (Inr (), u)" "act_jobs u = AList.delete j (act_jobs s)"
      "act_ready u = snd (remove_job j (act_ready s))"
      "act_retry_timers u = act_retry_timers (clear_retry_timers j s)"
      "act_cancelled u = (if c then act_cancelled (cancel_job_version j v s) else act_cancelled s)"
proof (cases "\<exists>old. map_of (act_jobs s) j = Some old \<and> je_version old = v")
  case False
  then have "\<exists>err. delete_job e j v c s = (Inl err, s)"
    by (auto simp: delete_job_def check_version_def split: option.splits)
  then show ?thesis using failed by blast
next
  case True
  then obtain old where old: "map_of (act_jobs s) j = Some old" "je_version old = v" by blast
  show ?thesis
    by (rule deleted [OF old, of "snd (delete_job e j v c s)"])
      (use old in \<open>simp_all add: delete_job_def check_version_def Let_def cancel_job_version_def\<close>)
qed

lemma actor_ok_delete:
  assumes "actor_ok s"
  shows "actor_ok (snd (delete_job e j v c s))"
proof (cases rule: delete_cases [of e j v c s])
  case (deleted old u)
  have "jobs_ok u" using assms by (auto simp: deleted(4) actor_ok_def jobs_ok_def)
  moreover have "job_version u i = (if i = j then None else job_version s i)"
    and "job_blocked u i = (if i = j then [] else job_blocked s i)" for i
    by (simp_all add: deleted(4) job_version_def job_blocked_def)
  ultimately show ?thesis
    using assms by (auto simp: deleted(3,5) actor_ok_def versions_ok_def remove_job_def extract_if_inv)
qed (use assms in simp)

lemma job_running_delete: "job_running (snd (delete_job e j v c s)) i \<le> job_running s i"
  by (cases rule: delete_cases [of e j v c s]) (simp_all add: job_running_def)

subsection \<open>Configuration and reconciliation\<close>

lemma config_invariant:
  assumes "I s" and "\<And>t c r. I t \<Longrightarrow> I (t\<lparr>act_config_revision := r, act_config := c\<rparr>)"
    and "\<And>t j why. I t \<Longrightarrow> I (snd (force_disable e j why t))" and "\<And>t k. I t \<Longrightarrow> I (emit e k t)"
  shows "I (snd (update_config e v p s))"
proof -
  have "I (disable_jobs_violating_limits e t)" if "I t" for t
  proof -
    have "I (fold (\<lambda>j s. snd (force_disable e j why s)) js t)" if "I t" for js why t
      using that by (induction js arbitrary: t) (simp_all add: assms(3))
    with that show ?thesis by (simp add: disable_jobs_violating_limits_def)
  qed
  with assms(1,2,4) show ?thesis
    by (simp add: update_config_def Let_def split: sum.splits option.splits)
qed

lemma actor_ok_config: "actor_ok s \<Longrightarrow> actor_ok (snd (update_config e v p s))"
proof (rule config_invariant)
  show "actor_ok (t\<lparr>act_config_revision := r, act_config := c\<rparr>)" if "actor_ok t" for t c r
    using that by (subst actor_ok_same) simp_all
qed (simp_all add: actor_ok_disable)

lemma job_running_config [simp]: "job_running (snd (update_config e v p s)) i = job_running s i"
proof (rule config_invariant [where I = "\<lambda>t. job_running t i = job_running s i"])
  fix t :: actor and c r
  assume "job_running t i = job_running s i"
  then show "job_running (t\<lparr>act_config_revision := r, act_config := c\<rparr>) i = job_running s i"
    by (simp add: job_running_def)
qed simp_all

lemma actor_ok_reconcile: "actor_ok s \<Longrightarrow> actor_ok (snd (reconcile_jobs e plan s))"
  by (rule reconcile_invariant)
    (simp_all add: actor_ok_update actor_ok_enable actor_ok_disable_job actor_ok_delete actor_ok_add)

lemma job_running_reconcile: "job_running (snd (reconcile_jobs e plan s)) i \<le> job_running s i"
  by (rule reconcile_invariant [where I = "\<lambda>t. job_running t i \<le> job_running s i"])
    (auto intro: order_trans [OF job_running_delete] order_trans [OF job_running_add])

section \<open>Properties\<close>

lemma snapshot_of_Some: "map_of (act_jobs s) j = Some job \<Longrightarrow> snapshot_of j s = Inr (snapshot s job)"
  by (simp add: snapshot_of_def)

lemma schedule_normal_jobs:
  obtains f where "act_jobs (schedule_normal e j n k u) = modify j f (act_jobs u)"
    "\<And>job. je_core (f job) = je_core job"
proof (cases "map_of (act_jobs u) j")
  case None
  then show ?thesis
    by (intro that [of "\<lambda>x. x"]) (simp_all add: schedule_normal_def modify_id)
next
  case (Some job)
  then show ?thesis
    by (intro that [of "\<lambda>job'. job'\<lparr>je_normal_timer_key := Some (fst (timers_insert_at e
          \<lparr>te_job_id = j, te_version = je_version job, te_run_at = n, te_kind = k\<rparr>
          (timers_try_remove (je_normal_timer_key job) u))), je_next_run_at := Some n\<rparr>"])
      (simp_all add: schedule_normal_def Let_def case_prod_beta je_core_def)
qed

text \<open>
  C8: an update is atomic and optimistically locked. Either it fails and leaves the state as
  it was, or the caller named the current version, the Job now has the next one, which has
  not wrapped around, the answer is its new snapshot, and no other Job changed.
\<close>

theorem update_is_atomic:
  "case update_job e j v p s of
     (Inl err, t) \<Rightarrow> t = s
   | (Inr sn, t) \<Rightarrow> \<exists>old job. map_of (act_jobs s) j = Some old \<and> je_version old = v \<and>
       map_of (act_jobs t) j = Some job \<and> unat (je_version job) = Suc (unat v) \<and>
       sn = snapshot t job \<and> (map_of (act_jobs t))(j := None) = (map_of (act_jobs s))(j := None)"
proof (cases rule: update_cases [of e j v p s])
  case (updated plan old job u)
  let ?t = "snd (update_job e j v p s)"
  have res: "update_job e j v p s = (snapshot_of j ?t, ?t)"
    by (simp add: update_job_def updated(1,2) Let_def)
  obtain n k where "act_jobs ?t = act_jobs u \<or> act_jobs ?t = act_jobs (schedule_normal e j n k u)"
    using updated(7) by (metis cancel_frame(3) emit_frame(3))
  then obtain f where f: "act_jobs ?t = modify j f (act_jobs u)" "\<And>job. je_core (f job) = je_core job"
    using schedule_normal_jobs [of e j n k u] by (metis modify_id)
  have "je_version old = v" and next_v: "checked_add_u64 v 1 = Some (up_next_version plan)"
    using plan_version [OF updated(1)] updated(2) by auto
  moreover have t: "map_of (act_jobs ?t) j = Some (f job)"
    and "(map_of (act_jobs ?t))(j := None) = (map_of (act_jobs s))(j := None)"
    by (auto simp: f(1) updated(4) fun_eq_iff)
  moreover have "unat (je_version (f job)) = Suc (unat v)"
    using unat_checked_add_u64 [OF next_v] using je_core_fields(2) [OF f(2), of job] by (simp add: updated(3))
  ultimately show ?thesis
    using updated(2) by (subst res) (simp add: snapshot_of_Some)
qed simp

text \<open>
  a stale version changes nothing. Update, enable, disable and delete of a Job under any
  version but its own answer with the conflict, naming both versions, and keep the state.
\<close>

theorem stale_version_rejected:
  assumes "map_of (act_jobs s) j = Some job" and "je_version job \<noteq> v"
  shows "update_job e j v p s = (Inl (VersionConflict j v (je_version job)), s) \<and>
    enable_job e j v s = (Inl (VersionConflict j v (je_version job)), s) \<and>
    disable_job e j v why s = (Inl (VersionConflict j v (je_version job)), s) \<and>
    delete_job e j v c s = (Inl (VersionConflict j v (je_version job)), s)"
  using assms
  by (simp add: update_job_def plan_job_update_def enable_job_def disable_job_def delete_job_def
      check_version_def)

theorem stale_version_rejected_witness:
  "delete_job sample_env 1 7 True sample_actor = (Inl (VersionConflict 1 7 1), sample_actor)"
  using stale_version_rejected [of sample_actor 1 "sample_job 1" 7 sample_env job_patch_new
      "Reason ''x''" True]
  by (simp add: sample_job_def)



lemma sample_held_ok: "actor_ok sample_held"
proof -
  have "jobs_ok sample_held"
    by (simp add: jobs_ok_def sample_held_def sample_job_def)
  moreover have "versions_ok sample_held"
    by (auto simp: versions_ok_def sample_held_def job_blocked_def rq_values_def rq_new_def split: if_splits)
  ultimately show ?thesis
    by (simp add: actor_ok_def) (simp add: sample_held_def)
qed




subsection \<open>Configuration\<close>

lemma force_disable_exempt:
  assumes "\<And>job. i \<noteq> j \<Longrightarrow> map_of (act_jobs s) i = Some job \<Longrightarrow>
      je_state job \<noteq> Enabled \<or> je_version job = - 1"
    and "map_of (act_jobs (snd (force_disable e j why s))) i = Some job"
  shows "je_state job \<noteq> Enabled \<or> je_version job = - 1"
proof (cases "i = j")
  case True
  with assms(2) show ?thesis
    by (auto simp: force_disable_def checked_add_u64_1 Let_def split: option.splits if_splits)
next
  case False
  then have "map_of (act_jobs s) i = Some job"
    using assms(2) by (cases rule: force_disable_cases [of e j why s]) auto
  with assms(1) False show ?thesis by blast
qed

lemma force_disable_all:
  assumes "map_of (act_jobs (fold (\<lambda>j s. snd (force_disable e j why s)) js s)) i = Some job"
  shows "map_of (act_jobs s) i = Some job \<and> i \<notin> set js \<or> je_state job \<noteq> Enabled \<or> je_version job = - 1"
  using assms
proof (induction js arbitrary: job rule: rev_induct)
  case (snoc j js)
  show ?case
  proof (cases "i = j")
    case True
    with snoc.prems force_disable_exempt [of i j _ e why job] show ?thesis by simp
  next
    case False
    with snoc.prems
    have "map_of (act_jobs (fold (\<lambda>j s. snd (force_disable e j why s)) js s)) i = Some job"
      by (cases rule: force_disable_cases
          [of e j why "fold (\<lambda>j s. snd (force_disable e j why s)) js s"]) auto
    with snoc.IH False show ?thesis by auto
  qed
qed simp

text \<open>
  C26: new limits hold from the moment they are accepted. A successful configuration update
  answers with the next revision and the patched, valid configuration, and every Job that is
  still enabled satisfies the new limits, unless its version counter is exhausted.
\<close>

theorem config_update_enforces_limits:
  assumes "update_config e r p s = (Inr (r', c), t)"
  shows "unat r' = Suc (unat r) \<and> act_config_revision t = r' \<and> act_config t = c \<and>
    c = apply_config_patch (act_config s) p \<and> validate_config c = Inr () \<and>
    (\<forall>j job. map_of (act_jobs t) j = Some job \<longrightarrow> je_state job = Enabled \<longrightarrow>
      violates_limits e c job \<longrightarrow> je_version job = - 1)"
proof -
  let ?c = "apply_config_patch (act_config s) p"
  let ?u = "s\<lparr>act_config_revision := r', act_config := ?c\<rparr>"
  have rev: "act_config_revision s = r" and ok: "validate_config ?c = Inr ()"
    and inc: "checked_add_u64 r 1 = Some r'" and c: "c = ?c"
    and t: "t = emit e (SchedulerConfigUpdated r') (disable_jobs_violating_limits e ?u)"
    using assms by (auto simp: update_config_def Let_def split: if_splits sum.splits option.splits)
  have "je_version job = - 1"
    if "map_of (act_jobs t) j = Some job" "je_state job = Enabled" "violates_limits e c job" for j job
  proof (rule ccontr)
    let ?js = "[j. (j, job) \<leftarrow> act_jobs ?u, violates_limits e (act_config ?u) job]"
    assume "je_version job \<noteq> - 1"
    with that(1,2) have "map_of (act_jobs s) j = Some job" "j \<notin> set ?js"
      using force_disable_all [of e "Reason ''scheduler safety limits changed''" ?js ?u j job]
      by (auto simp: t disable_jobs_violating_limits_def)
    with that(3) show False
      by (force simp: c dest: map_of_SomeD)
  qed
  with rev ok inc c t show ?thesis by (simp add: unat_checked_add_u64)
qed

text \<open>A patch that asks for intervals of two minutes at least.\<close>

definition sample_config_patch :: scheduler_config_patch where
  "sample_config_patch =
     \<lparr>cp_global_concurrency = None, cp_default_job_concurrency = None,
      cp_global_max_pending = None, cp_default_job_max_pending = None, cp_due_batch_size = None,
      cp_max_jobs = None, cp_shutdown_timeout = None, cp_minimum_interval = Some (secs 120),
      cp_minimum_retry_delay = None, cp_maximum_catch_up = None,
      cp_maximum_retry_attempts = None\<rparr>"

theorem config_update_enforces_limits_witness:
  "violates_limits sample_env (apply_config_patch (default_config 1) sample_config_patch)
     (sample_job 1) \<and>
   map_of (act_jobs (snd (update_config sample_env 0 sample_config_patch sample_actor))) 1
     \<noteq> Some (sample_job 1)"
proof -
  let ?c = "apply_config_patch (default_config 1) sample_config_patch"
  have "validate_config ?c = Inr ()"
    by (simp add: validate_config_def apply_config_patch_def sample_config_patch_def
        default_config_def override_def secs_def millis_def)
  moreover have "act_config_revision sample_actor = 0"
    by (simp add: sample_actor_def actor_new_def)
  ultimately have "fst (update_config sample_env 0 sample_config_patch sample_actor) = Inr (1, ?c)"
    by (simp add: update_config_def checked_add_u64_1 Let_def)
  then have "update_config sample_env 0 sample_config_patch sample_actor =
      (Inr (1, ?c), snd (update_config sample_env 0 sample_config_patch sample_actor))"
    by (metis prod.collapse)
  note conf = config_update_enforces_limits [OF this]
  have bad: "violates_limits sample_env ?c (sample_job 1)"
    by (simp add: violates_limits_def validate_job_def validate_trigger_def validate_schedule_def
        sample_job_def trigger_interval_def job_options_from_entry_def apply_config_patch_def
        sample_config_patch_def default_config_def override_def secs_def)
  moreover have "je_state (sample_job 1) = Enabled" "je_version (sample_job 1) \<noteq> - 1"
    by (simp_all add: sample_job_def)
  ultimately show ?thesis using conf by blast
qed

subsection \<open>Adding\<close>

text \<open>Among one more identifier than there are Jobs one is free.\<close>

lemma draw_job_id_skips:
  assumes "\<And>i. i < k \<Longrightarrow> new_v4 e (n + i) \<in> set taken" and "new_v4 e (n + k) \<notin> set taken"
  shows "draw_job_id e taken n = Some (new_v4 e (n + k), Suc (n + k))"
  using assms
proof (induction k arbitrary: n)
  case 0
  then show ?case by (subst draw_job_id.simps) simp
next
  case (Suc k)
  have "draw_job_id e taken (Suc n) = Some (new_v4 e (Suc n + k), Suc (Suc n + k))"
    using Suc.prems(1) [of "Suc _"] Suc.prems(2) by (intro Suc.IH) simp_all
  moreover have "new_v4 e n \<in> set taken" using Suc.prems(1) [of 0] by simp
  ultimately show ?case by (subst draw_job_id.simps) simp
qed

lemma draw_job_id_free:
  assumes "uuids_distinct e n (Suc (length taken))"
  obtains i m where "draw_job_id e taken n = Some (i, m)" "i \<notin> set taken" "n < m"
    "m \<le> n + Suc (length taken)"
proof -
  let ?I = "{n ..< n + Suc (length taken)}" and ?P = "\<lambda>k. new_v4 e (n + k) \<notin> set taken"
  have "card (new_v4 e ` ?I) = Suc (length taken)"
    using assms unfolding uuids_distinct_def by (subst card_image) simp_all
  then have "\<not> new_v4 e ` ?I \<subseteq> set taken"
    using card_mono [OF finite_set, of "new_v4 e ` ?I" taken] card_length [of taken] by linarith
  then obtain m where m: "m \<in> ?I" "new_v4 e m \<notin> set taken" by blast
  then have P: "?P (m - n)" by simp
  have free: "?P (Least ?P)" by (rule LeastI [of ?P, OF P])
  have "Least ?P \<le> m - n" by (rule Least_le [of ?P, OF P])
  then have bound: "Suc (n + Least ?P) \<le> n + Suc (length taken)"
    using m(1) unfolding atLeastLessThan_iff by linarith
  have "new_v4 e (n + i) \<in> set taken" if "i < Least ?P" for i
    using not_less_Least [of _ ?P, OF that] by blast
  then show ?thesis
    using that [OF draw_job_id_skips [OF _ free] free _ bound] by simp
qed


definition sample_binding :: task_binding where
  "sample_binding = \<lparr>tb_kind = ''sample'', tb_mode = Cooperative\<rparr>"


subsection \<open>Reconciliation\<close>


definition sample_addition :: reconcile_addition where
  "sample_addition =
     \<lparr>ra_job_id = 2, ra_enabled = True, ra_trigger = trigger_cron ''0 0 1 1 *'',
      ra_task = sample_binding, ra_options = default_job_options\<rparr>"


end
