(* ===== verification/Sched_Execution.thy ===== *)
theory Sched_Execution
  imports Sched_Management
begin

text \<open>
  Starting executions and handling how they end (\<open>engine/execution.rs\<close>): dispatch under
  the global and the per-Job concurrency limit, the wrapper that turns the end of a task,
  a timeout, a panic and a cancellation into one completion, the release of the slots, and
  the decision between retry, final failure and switching the Job off.
\<close>

section \<open>Starting\<close>

definition job_concurrency_limit :: "scheduler_config \<Rightarrow> job_entry \<Rightarrow> nat" where
  "job_concurrency_limit c job =
     (case je_concurrency job of Some n \<Rightarrow> n | None \<Rightarrow> default_job_concurrency c)"

definition dispatchable :: "actor \<Rightarrow> pending_execution \<Rightarrow> bool" where
  "dispatchable s p =
     (case map_of (act_jobs s) (pe_job_id p) of
        None \<Rightarrow> False
      | Some job \<Rightarrow>
          je_version job = pe_version p \<and> je_state job = Enabled
          \<and> je_running_count job < job_concurrency_limit (act_config s) job)"

definition spawn_execution :: "env \<Rightarrow> pending_execution \<Rightarrow> actor \<Rightarrow> actor" where
  "spawn_execution e p s =
     (case map_of (act_jobs s) (pe_job_id p) of
        None \<Rightarrow> s
      | Some job \<Rightarrow>
          if je_version job \<noteq> pe_version p then s
          else
            let started_at = utc_now e;
                token = act_tokens s;
                s = s\<lparr>act_jobs := modify (pe_job_id p)
                        (\<lambda>job. job\<lparr>je_running_count := je_running_count job + 1,
                          je_last_started_at := Some started_at,
                          je_last_fired_at := Some (pe_scheduled_at p)\<rparr>) (act_jobs s),
                      act_total_running := act_total_running s + 1,
                      act_tokens := token + 1,
                      act_running := AList.update (pe_run_id p)
                        \<lparr>re_job_id = pe_job_id p, re_version = pe_version p,
                         re_cancellation = token\<rparr> (act_running s)\<rparr>;
                s = emit e (ExecutionStarted (pe_job_id p) (pe_version p) (pe_run_id p)
                      (pe_attempt p) (pe_scheduled_at p)) s
            in s\<lparr>act_tasks := act_tasks s @
                   [\<lparr>wr_job_id = pe_job_id p, wr_version = pe_version p,
                     wr_run_id = pe_run_id p, wr_attempt = pe_attempt p,
                     wr_scheduled_at = pe_scheduled_at p,
                     wr_timeout = tr_timeout (je_trigger job),
                     wr_mode = je_cancellation_mode job, wr_token = token\<rparr>]\<rparr>)"

lemma spawn_ready [simp]: "act_ready (spawn_execution e p s) = act_ready s"
  by (simp add: spawn_execution_def emit_def Let_def split: option.splits)

function dispatch_ready :: "env \<Rightarrow> actor \<Rightarrow> actor" where
  "dispatch_ready e s =
     (if act_total_running s < global_concurrency (act_config s) \<and> \<not> rq_is_empty (act_ready s)
      then (case pop_dispatchable (dispatchable s) (act_ready s) of
              (Some p, ready) \<Rightarrow> dispatch_ready e (spawn_execution e p (s\<lparr>act_ready := ready\<rparr>))
            | (None, ready) \<Rightarrow> s\<lparr>act_ready := ready\<rparr>)
      else s)"
  by pat_completeness auto
termination
  by (relation "measure (\<lambda>(e, s). rq_len (act_ready s))") (auto intro: pop_Some_len_any [OF sym])

declare dispatch_ready.simps [simp del]

section \<open>The wrapper\<close>

text \<open>
  How the wrapper of an execution may end, given whether its token is cancelled: the task
  and its output adapter are code of the caller, so any of their results and any panic is
  possible; a timeout needs a configured one; only a cooperative task ends as cancelled,
  and only after its token was cancelled.
\<close>

definition wrapper_may_end :: "wrapper \<Rightarrow> bool \<Rightarrow> completion_outcome \<Rightarrow> bool" where
  "wrapper_may_end w cancelled out =
     (case out of
        Finished _ \<Rightarrow> True
      | Panicked _ \<Rightarrow> True
      | TimedOut \<Rightarrow> wr_timeout w \<noteq> None
      | CancelledOutcome \<Rightarrow> wr_mode w = Cooperative \<and> cancelled)"

definition wrapper_completion :: "wrapper \<Rightarrow> dur \<Rightarrow> completion_outcome \<Rightarrow> task_completion" where
  "wrapper_completion w elapsed out =
     \<lparr>tc_job_id = wr_job_id w, tc_version = wr_version w, tc_run_id = wr_run_id w,
      tc_attempt = wr_attempt w, tc_scheduled_at = wr_scheduled_at w, tc_elapsed = elapsed,
      tc_outcome = out\<rparr>"

datatype panic_payload = StaticStr string | OwnedString string | OtherPayload

definition panic_message :: "panic_payload \<Rightarrow> string" where
  "panic_message p =
     (case p of StaticStr m \<Rightarrow> m | OwnedString m \<Rightarrow> m
      | OtherPayload \<Rightarrow> ''task panicked with a non-string payload'')"

definition duration_ms :: "dur \<Rightarrow> u64" where
  "duration_ms d = (let ms = d div 1000000 in if ms < 2 ^ 64 then of_nat ms else - 1)"

section \<open>How executions end\<close>

definition release_execution_resources ::
  "env \<Rightarrow> task_completion \<Rightarrow> actor \<Rightarrow> bool \<times> actor" where
  "release_execution_resources e c s =
     (let s = s\<lparr>act_running := AList.delete (tc_run_id c) (act_running s),
                act_total_running := act_total_running s - 1,
                act_jobs := modify (tc_job_id c)
                  (\<lambda>job. job\<lparr>je_running_count := je_running_count job - 1,
                    je_last_finished_at := Some (utc_now e)\<rparr>) (act_jobs s)\<rparr>
      in (case map_of (act_jobs s) (tc_job_id c) of
            Some job \<Rightarrow> je_version job = tc_version c | None \<Rightarrow> False, s))"

definition record_execution_success ::
  "env \<Rightarrow> execution_metadata \<Rightarrow> dur \<Rightarrow> bool \<Rightarrow> actor \<Rightarrow> actor" where
  "record_execution_success e m elapsed output_delivered s =
     (let s = s\<lparr>act_jobs := modify (em_job_id m)
                (\<lambda>job. job\<lparr>je_consecutive_failures := 0, je_last_outcome := Some ''success'',
                  je_state := (if is_once (tr_schedule (je_trigger job)) then Completed
                               else je_state job)\<rparr>) (act_jobs s)\<rparr>;
          s = emit e (ExecutionSucceeded (em_job_id m) (em_version m) (em_run_id m)
                (em_attempt m) (duration_ms elapsed)) s
      in if output_delivered
         then emit e (OutputDelivered (em_job_id m) (em_version m) (em_run_id m)) s else s)"

definition record_final_failure :: "env \<Rightarrow> job_id \<Rightarrow> string \<Rightarrow> bool \<Rightarrow> actor \<Rightarrow> actor" where
  "record_final_failure e j err count_it s =
     (case map_of (act_jobs s) j of
        None \<Rightarrow> s
      | Some job \<Rightarrow>
          let failures = (if count_it then saturating_add_u32 (je_consecutive_failures job) 1
                          else je_consecutive_failures job);
              s = s\<lparr>act_jobs := modify j
                    (\<lambda>job. job\<lparr>je_last_outcome := Some err,
                      je_consecutive_failures := failures\<rparr>) (act_jobs s)\<rparr>;
              disable = (case disable_after_consecutive_failures (je_failure job) of
                           Some limit \<Rightarrow> limit \<le> failures | None \<Rightarrow> False)
          in if disable then snd (force_disable e j (Reason err) s)
             else if is_once (tr_schedule (je_trigger job))
             then s\<lparr>act_jobs := modify j
                    (\<lambda>job. job\<lparr>je_state := Completed, je_updated_at := utc_now e\<rparr>) (act_jobs s)\<rparr>
             else s)"

definition retry_delay :: "job_id \<Rightarrow> u32 \<Rightarrow> failure_class \<Rightarrow> actor \<Rightarrow> dur option" where
  "retry_delay j attempt class s =
     (case map_of (act_jobs s) j of
        None \<Rightarrow> None
      | Some job \<Rightarrow>
          (case je_retry job of
             RetryNone \<Rightarrow> None
           | Exponential ma initial max_d on \<Rightarrow>
               if ma \<le> attempt then None
               else if \<not> (case class of
                            Transient \<Rightarrow> transient_error on
                          | Timeout \<Rightarrow> retry_timeout on
                          | Panic \<Rightarrow> retry_panic on
                          | Permanent \<Rightarrow> False) then None
               else let exponent = min (unat (saturating_sub_u32 attempt 1)) 31
                    in Some (min (dur_saturating_mul initial (2 ^ exponent)) max_d)))"

text \<open>\<open>Utc::now() + TimeDelta::from_std(delay).unwrap_or(TimeDelta::MAX)\<close>; the addition
  panics when the sum is not a \<open>DateTime\<close>.\<close>

definition retry_run_at :: "env \<Rightarrow> dur \<Rightarrow> time" where
  "retry_run_at e delay =
     utc_now e + int (if delay \<le> delta_max e then delay else delta_max e)"

definition handle_execution_failure ::
  "env \<Rightarrow> execution_metadata \<Rightarrow> string \<Rightarrow> failure_class \<Rightarrow> actor \<Rightarrow> actor" where
  "handle_execution_failure e m err class s =
     (let j = em_job_id m; version = em_version m; run = em_run_id m; attempt = em_attempt m
      in if class = Permanent
         then snd (force_disable e j (Reason err)
                (emit e (ExecutionFailed j version run attempt err False) s))
         else
           let retry = retry_delay j attempt class s;
               s = emit e (ExecutionFailed j version run attempt err (retry \<noteq> None)) s
           in case retry of
                Some delay \<Rightarrow>
                  let run_at = retry_run_at e delay;
                      s = s\<lparr>act_panicked := act_panicked s \<or> \<not> datetime_ok e run_at\<rparr>
                  in schedule_retry e j version run (em_scheduled_at m) (attempt + 1) run_at s
              | None \<Rightarrow>
                  (case map_of (act_jobs s) j of
                     None \<Rightarrow> s
                   | Some job \<Rightarrow>
                       record_final_failure e j err
                         (case class of
                            Timeout \<Rightarrow> count_timeout (je_failure job)
                          | Panic \<Rightarrow> count_panic (je_failure job)
                          | _ \<Rightarrow> True) s))"

definition record_callback_failure ::
  "env \<Rightarrow> execution_metadata \<Rightarrow> string \<Rightarrow> bool \<Rightarrow> actor \<Rightarrow> actor" where
  "record_callback_failure e m err permanent s =
     (let s = emit e (CallbackFailed (em_job_id m) (em_version m) (em_run_id m) err) s
      in if permanent then snd (force_disable e (em_job_id m) (Reason err) s)
         else record_final_failure e (em_job_id m) err False s)"

definition handle_closed_output_channel :: "env \<Rightarrow> execution_metadata \<Rightarrow> actor \<Rightarrow> actor" where
  "handle_closed_output_channel e m s =
     (let s = emit e (OutputChannelClosed (em_job_id m) (em_version m) (em_run_id m)) s;
          s = cancel_job_version (em_job_id m) (em_version m) s
      in snd (delete_job e (em_job_id m) (em_version m) True s))"

definition handle_execution_timeout :: "env \<Rightarrow> execution_metadata \<Rightarrow> actor \<Rightarrow> actor" where
  "handle_execution_timeout e m s =
     handle_execution_failure e m ''task execution timed out'' Timeout
       (emit e (ExecutionTimedOut (em_job_id m) (em_version m) (em_run_id m) (em_attempt m)) s)"

definition handle_execution_panic :: "env \<Rightarrow> execution_metadata \<Rightarrow> string \<Rightarrow> actor \<Rightarrow> actor" where
  "handle_execution_panic e m msg s =
     handle_execution_failure e m msg Panic
       (emit e (ExecutionPanicked (em_job_id m) (em_version m) (em_run_id m) (em_attempt m) msg) s)"

definition record_execution_cancelled :: "env \<Rightarrow> execution_metadata \<Rightarrow> actor \<Rightarrow> actor" where
  "record_execution_cancelled e m s =
     emit e (ExecutionCancelled (em_job_id m) (em_version m) (em_run_id m)) s"

definition handle_completion :: "env \<Rightarrow> task_completion \<Rightarrow> actor \<Rightarrow> actor" where
  "handle_completion e c s =
     (let (current, s) = release_execution_resources e c s; m = metadata c
      in if \<not> current then s
         else case tc_outcome c of
                Finished RunCompleted \<Rightarrow> record_execution_success e m (tc_elapsed c) False s
              | Finished RunOutputDelivered \<Rightarrow> record_execution_success e m (tc_elapsed c) True s
              | Finished (TaskTransient err) \<Rightarrow> handle_execution_failure e m err Transient s
              | Finished (TaskPermanent err) \<Rightarrow> handle_execution_failure e m err Permanent s
              | Finished (CallbackTransient err) \<Rightarrow> record_callback_failure e m err False s
              | Finished (CallbackPermanent err) \<Rightarrow> record_callback_failure e m err True s
              | Finished ChannelClosed \<Rightarrow> handle_closed_output_channel e m s
              | TimedOut \<Rightarrow> handle_execution_timeout e m s
              | Panicked msg \<Rightarrow> handle_execution_panic e m msg s
              | CancelledOutcome \<Rightarrow> record_execution_cancelled e m s)"

section \<open>What dispatch leaves alone\<close>

lemma spawn_frame [simp]:
  "act_config (spawn_execution e p s) = act_config s"
  "act_config_revision (spawn_execution e p s) = act_config_revision s"
  "act_timers (spawn_execution e p s) = act_timers s"
  "act_retry_timers (spawn_execution e p s) = act_retry_timers s"
  "act_status (spawn_execution e p s) = act_status s"
  "act_batch_sequence (spawn_execution e p s) = act_batch_sequence s"
  "act_shutdown_response (spawn_execution e p s) = act_shutdown_response s"
  "act_uuids (spawn_execution e p s) = act_uuids s"
  "act_cancelled (spawn_execution e p s) = act_cancelled s"
  "act_panicked (spawn_execution e p s) = act_panicked s"
  by (simp_all add: spawn_execution_def Let_def split: option.splits)

lemma spawn_cases:
  obtains (stale) "spawn_execution e p s = s"
      "\<nexists>job. map_of (act_jobs s) (pe_job_id p) = Some job \<and> je_version job = pe_version p"
  | (started) job u where "map_of (act_jobs s) (pe_job_id p) = Some job" "je_version job = pe_version p"
      "spawn_execution e p s = u"
      "act_jobs u = modify (pe_job_id p) (\<lambda>job. job\<lparr>je_running_count := je_running_count job + 1,
         je_last_started_at := Some (utc_now e), je_last_fired_at := Some (pe_scheduled_at p)\<rparr>) (act_jobs s)"
      "act_total_running u = act_total_running s + 1"
      "act_running u = AList.update (pe_run_id p) \<lparr>re_job_id = pe_job_id p,
         re_version = pe_version p, re_cancellation = act_tokens s\<rparr> (act_running s)"
      "act_tasks u = act_tasks s @ [\<lparr>wr_job_id = pe_job_id p, wr_version = pe_version p,
         wr_run_id = pe_run_id p, wr_attempt = pe_attempt p, wr_scheduled_at = pe_scheduled_at p,
         wr_timeout = tr_timeout (je_trigger job), wr_mode = je_cancellation_mode job,
         wr_token = act_tokens s\<rparr>]"
      "act_tokens u = act_tokens s + 1"
proof (cases "\<exists>job. map_of (act_jobs s) (pe_job_id p) = Some job \<and> je_version job = pe_version p")
  case False
  then have "spawn_execution e p s = s" by (auto simp: spawn_execution_def split: option.splits)
  then show ?thesis using False by (rule stale)
next
  case True
  then obtain job where job: "map_of (act_jobs s) (pe_job_id p) = Some job"
    "je_version job = pe_version p" by blast
  show ?thesis
    by (rule started [OF job refl]) (simp_all add: spawn_execution_def job Let_def)
qed

text \<open>The loop of \<open>dispatch_ready\<close>: what holds before, and survives the start of an
  execution that may start and the end of the search, holds after it.\<close>

lemma dispatch_invariant:
  assumes "I s"
    and "\<And>s p q. I s \<Longrightarrow> act_total_running s < global_concurrency (act_config s) \<Longrightarrow>
      pop_dispatchable (dispatchable s) (act_ready s) = (Some p, q) \<Longrightarrow>
      I (spawn_execution e p (s\<lparr>act_ready := q\<rparr>))"
    and "\<And>s q. I s \<Longrightarrow> pop_dispatchable (dispatchable s) (act_ready s) = (None, q) \<Longrightarrow>
      I (s\<lparr>act_ready := q\<rparr>)"
  shows "I (dispatch_ready e s)"
  using assms
proof (induction e s rule: dispatch_ready.induct)
  case (1 e s)
  let ?go = "act_total_running s < global_concurrency (act_config s) \<and> \<not> rq_is_empty (act_ready s)"
  obtain r q where pop: "pop_dispatchable (dispatchable s) (act_ready s) = (r, q)"
    by (cases "pop_dispatchable (dispatchable s) (act_ready s)")
  show ?case
  proof (cases "?go")
    case True
    show ?thesis
    proof (cases r)
      case None
      with True pop have "dispatch_ready e s = s\<lparr>act_ready := q\<rparr>"
        by (subst dispatch_ready.simps) simp
      with 1(4) [OF 1(2)] pop None show ?thesis by simp
    next
      case (Some p)
      with True pop have "dispatch_ready e s = dispatch_ready e (spawn_execution e p (s\<lparr>act_ready := q\<rparr>))"
        by (subst dispatch_ready.simps) simp
      moreover have "I (dispatch_ready e (spawn_execution e p (s\<lparr>act_ready := q\<rparr>)))"
        by (rule 1(1) [OF True pop [symmetric] Some])
          (use 1(2,3,4) True pop Some in \<open>simp_all\<close>)
      ultimately show ?thesis by simp
    qed
  next
    case False
    then have "dispatch_ready e s = s" by (subst dispatch_ready.simps) auto
    with 1(2) show ?thesis by simp
  qed
qed

lemma dispatch_frame [simp]:
  "act_config (dispatch_ready e s) = act_config s"
  "act_config_revision (dispatch_ready e s) = act_config_revision s"
  "act_timers (dispatch_ready e s) = act_timers s"
  "act_retry_timers (dispatch_ready e s) = act_retry_timers s"
  "act_status (dispatch_ready e s) = act_status s"
  "act_batch_sequence (dispatch_ready e s) = act_batch_sequence s"
  "act_shutdown_response (dispatch_ready e s) = act_shutdown_response s"
  "act_uuids (dispatch_ready e s) = act_uuids s"
  "act_cancelled (dispatch_ready e s) = act_cancelled s"
  "act_panicked (dispatch_ready e s) = act_panicked s"
  by (rule dispatch_invariant; simp)+


lemma extends_dispatch [event_facts]:
  assumes "extends s t"
  shows "extends s (spawn_execution e p t)" and "extends s (dispatch_ready e t)"
proof -
  have spawn: "extends s (spawn_execution e p u)" if "extends s u" for u p
    using that by (auto simp: spawn_execution_def Let_def split: option.splits intro!: event_facts)
  then show "extends s (spawn_execution e p t)" using assms .
  show "extends s (dispatch_ready e t)"
    by (rule dispatch_invariant [of "extends s"]) (simp_all add: assms spawn)
qed

section \<open>Dispatch keeps the limits\<close>

text \<open>A Job before and after \<open>n\<close> of its executions started.\<close>

definition grown :: "scheduler_config \<Rightarrow> nat \<Rightarrow> job_entry \<Rightarrow> job_entry \<Rightarrow> bool" where
  "grown c n old job \<longleftrightarrow>
     je_id job = je_id old \<and> je_version job = je_version old \<and> je_state job = je_state old \<and>
     je_concurrency job = je_concurrency old \<and> je_blocked job = je_blocked old \<and>
     je_running_count job = je_running_count old + n \<and>
     je_running_count job \<le> max (je_running_count old) (job_concurrency_limit c old)"

lemma grown_refl [simp]: "grown c 0 job job"
  by (simp add: grown_def)

text \<open>\<open>dispatched s t new\<close>: between the two states exactly the wrappers \<open>new\<close> were started, each
  for an enabled Job at its current version, within the limits.\<close>

definition dispatched :: "actor \<Rightarrow> actor \<Rightarrow> wrapper list \<Rightarrow> bool" where
  "dispatched s t new \<longleftrightarrow>
     act_tasks t = act_tasks s @ new \<and>
     act_total_running t = act_total_running s + length new \<and>
     act_total_running t \<le> max (act_total_running s) (global_concurrency (act_config s)) \<and>
     (\<forall>w \<in> set new. \<exists>job. map_of (act_jobs s) (wr_job_id w) = Some job \<and>
        je_version job = wr_version w \<and> je_state job = Enabled) \<and>
     (\<forall>j. rel_option (grown (act_config s) (length (filter (\<lambda>w. wr_job_id w = j) new)))
        (map_of (act_jobs s) j) (map_of (act_jobs t) j))"

lemma dispatched_refl: "dispatched s s []"
  by (simp add: dispatched_def option.rel_refl)

lemma dispatched_ready [simp]: "dispatched s (t\<lparr>act_ready := q\<rparr>) new = dispatched s t new"
  by (simp add: dispatched_def)

lemma dispatched_spawn:
  assumes "dispatched s t new" and "act_config t = act_config s"
    and "act_total_running t < global_concurrency (act_config t)" and "dispatchable t p"
  shows "\<exists>w. dispatched s (spawn_execution e p (t\<lparr>act_ready := q\<rparr>)) (new @ [w])"
proof -
  let ?j = "pe_job_id p" and ?t = "t\<lparr>act_ready := q\<rparr>"
  from assms(4) obtain job where job: "map_of (act_jobs t) ?j = Some job"
    "je_version job = pe_version p" "je_state job = Enabled"
    "je_running_count job < job_concurrency_limit (act_config t) job"
    by (auto simp: dispatchable_def split: option.splits)
  show ?thesis
  proof (cases rule: spawn_cases [of e p ?t])
    case stale
    then show ?thesis using job(1,2) by simp
  next
    case (started job' u)
    from assms(1) have jobs: "rel_option (grown (act_config s) (length (filter (\<lambda>w. wr_job_id w = j) new)))
        (map_of (act_jobs s) j) (map_of (act_jobs t) j)" for j
      by (simp add: dispatched_def)
    from jobs [of ?j] job(1) obtain old where old: "map_of (act_jobs s) ?j = Some old"
      "grown (act_config s) (length (filter (\<lambda>w. wr_job_id w = ?j) new)) old job"
      by (auto simp: option_rel_Some2)
    obtain w where w: "act_tasks u = act_tasks t @ [w]" "wr_job_id w = ?j" "wr_version w = pe_version p"
      using started(7) by simp
    have "rel_option (grown (act_config s) (length (filter (\<lambda>w. wr_job_id w = j) (new @ [w]))))
        (map_of (act_jobs s) j) (map_of (act_jobs u) j)" for j
      using jobs [of j] old job(1,4) assms(2) started(4) w(2)
      by (cases "j = ?j") (auto simp: grown_def job_concurrency_limit_def)
    moreover have "act_total_running u \<le> max (act_total_running s) (global_concurrency (act_config s))"
      using assms(2,3) started(5) by simp
    ultimately have "dispatched s u (new @ [w])"
      using assms(1) started(5) w old job(2,3) by (auto simp: dispatched_def grown_def)
    then show ?thesis using started(3) by blast
  qed
qed

lemma dispatch_dispatched:
  assumes "rq_inv (act_ready s)"
  shows "\<exists>new. dispatched s (dispatch_ready e s) new"
proof -
  let ?I = "\<lambda>t. rq_inv (act_ready t) \<and> act_config t = act_config s \<and> (\<exists>new. dispatched s t new)"
  have "?I (dispatch_ready e s)"
  proof (rule dispatch_invariant [of ?I])
    show "?I s" using assms dispatched_refl by blast
  next
    fix t p q
    assume I: "?I t" and room: "act_total_running t < global_concurrency (act_config t)"
      and pop: "pop_dispatchable (dispatchable t) (act_ready t) = (Some p, q)"
    then have "dispatchable t p" "rq_inv q"
      using ready_store.pop_Some ready_store.pop_inv by blast+
    with I room dispatched_spawn [of s t _ p] show "?I (spawn_execution e p (t\<lparr>act_ready := q\<rparr>))"
      by fastforce
  next
    fix t q
    assume "?I t" and "pop_dispatchable (dispatchable t) (act_ready t) = (None, q)"
    then show "?I (t\<lparr>act_ready := q\<rparr>)" using ready_store.pop_inv by auto
  qed
  then show ?thesis by blast
qed

lemma actor_ok_spawn:
  assumes "actor_ok s"
  shows "actor_ok (spawn_execution e p s)"
proof (cases rule: spawn_cases [of e p s])
  case (started job u)
  have "jobs_ok u" using assms started(4) by (auto simp: actor_ok_def jobs_ok_def)
  moreover have "job_version u = job_version s" "job_blocked u = job_blocked s"
    using started(4) by (auto simp: job_version_def job_blocked_def option.map_comp comp_def
        split: option.splits)
  moreover have "act_ready u = act_ready s" using started(3) by auto
  ultimately show ?thesis using assms started(3) by (simp add: actor_ok_def versions_ok_def)
qed (use assms in simp)

lemma actor_ok_pop:
  assumes "actor_ok s" and "pop_dispatchable f (act_ready s) = (r, q)"
  shows "actor_ok (s\<lparr>act_ready := q\<rparr>)"
proof -
  have inv: "rq_inv (act_ready s)" using assms(1) by (simp add: actor_ok_def)
  have "\<forall>p \<in> set (rq_values q). job_version s (pe_job_id p) = Some (pe_version p)"
    using assms(1) by (intro ready_store.all_pop [OF inv assms(2)]) (simp add: actor_ok_def versions_ok_def)
  moreover have "job_version (s\<lparr>act_ready := q\<rparr>) = job_version s"
    "job_blocked (s\<lparr>act_ready := q\<rparr>) = job_blocked s"
    by (auto simp: job_version_def job_blocked_def)
  ultimately show ?thesis
    using assms(1) ready_store.pop_inv [OF inv assms(2)]
    by (simp add: actor_ok_def versions_ok_def jobs_ok_def)
qed

lemma actor_ok_dispatch: "actor_ok s \<Longrightarrow> actor_ok (dispatch_ready e s)"
  by (rule dispatch_invariant [of actor_ok]) (auto intro: actor_ok_spawn actor_ok_pop)

section \<open>Completions are made of a few writes\<close>

text \<open>What every step of an outcome's handling keeps, the handling keeps. The outcome itself
  writes to the Job only its last outcome, its failure count, the time of the change and the
  state \<open>Completed\<close>.\<close>

definition outcome_write :: "(job_entry \<Rightarrow> job_entry) \<Rightarrow> bool" where
  "outcome_write f \<longleftrightarrow>
     (\<forall>job. f job = job\<lparr>je_state := je_state (f job), je_last_outcome := je_last_outcome (f job),
        je_consecutive_failures := je_consecutive_failures (f job),
        je_updated_at := je_updated_at (f job)\<rparr> \<and>
        je_state (f job) \<in> {je_state job, Completed})"

lemma outcome_write_fields:
  assumes "outcome_write f"
  shows "je_id (f job) = je_id job" "je_version (f job) = je_version job"
    "je_running_count (f job) = je_running_count job" "je_blocked (f job) = je_blocked job"
    "je_trigger (f job) = je_trigger job" "je_concurrency (f job) = je_concurrency job"
    "je_retry (f job) = je_retry job" "je_next_run_at (f job) = je_next_run_at job"
    "je_normal_timer_key (f job) = je_normal_timer_key job"
proof -
  have eq: "f job = job\<lparr>je_state := je_state (f job), je_last_outcome := je_last_outcome (f job),
      je_consecutive_failures := je_consecutive_failures (f job),
      je_updated_at := je_updated_at (f job)\<rparr>"
    using assms unfolding outcome_write_def by blast
  show "je_id (f job) = je_id job" "je_version (f job) = je_version job"
    "je_running_count (f job) = je_running_count job" "je_blocked (f job) = je_blocked job"
    "je_trigger (f job) = je_trigger job" "je_concurrency (f job) = je_concurrency job"
    "je_retry (f job) = je_retry job" "je_next_run_at (f job) = je_next_run_at job"
    "je_normal_timer_key (f job) = je_normal_timer_key job"
    by (subst eq, simp)+
qed

lemma outcome_invariant:
  assumes "I s"
    and emit: "\<And>k t. I t \<Longrightarrow> I (emit e k t)"
    and disable: "\<And>j why t. I t \<Longrightarrow> I (snd (force_disable e j why t))"
    and delete: "\<And>j v t. I t \<Longrightarrow> I (snd (delete_job e j v True t))"
    and cancel: "\<And>j v t. I t \<Longrightarrow> I (cancel_job_version j v t)"
    and panic: "\<And>b t. I t \<Longrightarrow> I (t\<lparr>act_panicked := b\<rparr>)"
    and retry: "\<And>j v r w a u t. I t \<Longrightarrow> I (schedule_retry e j v r w a u t)"
    and writing: "\<And>j f t. I t \<Longrightarrow> outcome_write f \<Longrightarrow> I (t\<lparr>act_jobs := modify j f (act_jobs t)\<rparr>)"
  shows "I (record_execution_success e m d b s)" and "I (record_final_failure e j err cnt s)"
    and "I (handle_execution_failure e m err cl s)" and "I (record_callback_failure e m err b s)"
    and "I (handle_closed_output_channel e m s)" and "I (handle_execution_timeout e m s)"
    and "I (handle_execution_panic e m err s)" and "I (record_execution_cancelled e m s)"
proof -
  have writing2: "I (t\<lparr>act_jobs := modify j g (modify j f (act_jobs t))\<rparr>)"
    if "I t" "outcome_write f" "outcome_write g" for j f g t
    using writing [OF writing [OF that(1,2)] that(3), of j j] by simp
  note steps = emit disable delete cancel panic retry
  show "I (record_execution_success e m d b s)"
    using assms(1) by (auto simp: record_execution_success_def Let_def outcome_write_def intro!: steps writing)
  have final: "I (record_final_failure e j err cnt t)" if "I t" for j err cnt t
    using that
    by (auto simp: record_final_failure_def Let_def outcome_write_def intro!: steps writing writing2 split: option.splits)
  then show "I (record_final_failure e j err cnt s)" using assms(1) .
  have failure: "I (handle_execution_failure e m err cl t)" if "I t" for err cl t
    using that
    by (auto simp: handle_execution_failure_def Let_def intro!: steps final split: option.splits)
  then show "I (handle_execution_failure e m err cl s)" using assms(1) .
  show "I (record_callback_failure e m err b s)"
    using assms(1) by (auto simp: record_callback_failure_def Let_def intro!: steps final)
  show "I (handle_closed_output_channel e m s)"
    using assms(1) by (auto simp: handle_closed_output_channel_def Let_def intro!: steps)
  show "I (handle_execution_timeout e m s)" and "I (handle_execution_panic e m err s)"
    using assms(1) by (auto simp: handle_execution_timeout_def handle_execution_panic_def intro!: steps failure)
  show "I (record_execution_cancelled e m s)"
    using assms(1) by (simp add: record_execution_cancelled_def steps)
qed

lemma completion_invariant:
  assumes "I (snd (release_execution_resources e c s))"
    and "\<And>k t. I t \<Longrightarrow> I (emit e k t)"
    and "\<And>j why t. I t \<Longrightarrow> I (snd (force_disable e j why t))"
    and "\<And>j v t. I t \<Longrightarrow> I (snd (delete_job e j v True t))"
    and "\<And>j v t. I t \<Longrightarrow> I (cancel_job_version j v t)"
    and "\<And>b t. I t \<Longrightarrow> I (t\<lparr>act_panicked := b\<rparr>)"
    and "\<And>j v r w a u t. I t \<Longrightarrow> I (schedule_retry e j v r w a u t)"
    and "\<And>j f t. I t \<Longrightarrow> outcome_write f \<Longrightarrow> I (t\<lparr>act_jobs := modify j f (act_jobs t)\<rparr>)"
  shows "I (handle_completion e c s)"
  using outcome_invariant [of I, OF assms]
  by (simp add: handle_completion_def Let_def case_prod_beta assms(1)
      split: completion_outcome.split task_run_result.split)


lemma release_frame [simp]:
  "act_config (snd (release_execution_resources e c s)) = act_config s"
  "act_config_revision (snd (release_execution_resources e c s)) = act_config_revision s"
  "act_timers (snd (release_execution_resources e c s)) = act_timers s"
  "act_retry_timers (snd (release_execution_resources e c s)) = act_retry_timers s"
  "act_ready (snd (release_execution_resources e c s)) = act_ready s"
  "act_tasks (snd (release_execution_resources e c s)) = act_tasks s"
  "act_events (snd (release_execution_resources e c s)) = act_events s"
  "act_event_sequence (snd (release_execution_resources e c s)) = act_event_sequence s"
  "act_status (snd (release_execution_resources e c s)) = act_status s"
  "act_batch_sequence (snd (release_execution_resources e c s)) = act_batch_sequence s"
  "act_shutdown_response (snd (release_execution_resources e c s)) = act_shutdown_response s"
  "act_uuids (snd (release_execution_resources e c s)) = act_uuids s"
  "act_tokens (snd (release_execution_resources e c s)) = act_tokens s"
  "act_cancelled (snd (release_execution_resources e c s)) = act_cancelled s"
  "act_total_running (snd (release_execution_resources e c s)) = act_total_running s - 1"
  "act_running (snd (release_execution_resources e c s)) = AList.delete (tc_run_id c) (act_running s)"
  by (simp_all add: release_execution_resources_def Let_def)

lemma release_jobs:
  "act_jobs (snd (release_execution_resources e c s)) = modify (tc_job_id c)
     (\<lambda>job. job\<lparr>je_running_count := je_running_count job - 1,
       je_last_finished_at := Some (utc_now e)\<rparr>) (act_jobs s)"
  by (simp add: release_execution_resources_def Let_def)

lemma release_current:
  "fst (release_execution_resources e c s) \<longleftrightarrow> job_version s (tc_job_id c) = Some (tc_version c)"
  by (auto simp: release_execution_resources_def Let_def job_version_def split: option.splits)

lemma completion_frame [simp]:
  "act_config (handle_completion e c s) = act_config s"
  "act_config_revision (handle_completion e c s) = act_config_revision s"
  "act_tasks (handle_completion e c s) = act_tasks s"
  "act_status (handle_completion e c s) = act_status s"
  "act_batch_sequence (handle_completion e c s) = act_batch_sequence s"
  "act_shutdown_response (handle_completion e c s) = act_shutdown_response s"
  "act_uuids (handle_completion e c s) = act_uuids s"
  "act_tokens (handle_completion e c s) = act_tokens s"
  "act_total_running (handle_completion e c s) = act_total_running s - 1"
  "act_running (handle_completion e c s) = AList.delete (tc_run_id c) (act_running s)"
  by (rule completion_invariant; simp)+

lemma extends_completion [event_facts]:
  "extends s t \<Longrightarrow> extends s (handle_completion e c t)"
  by (rule completion_invariant)
    (auto intro: event_facts simp: extends_cong [of "snd (release_execution_resources e c t)" t])

lemma actor_ok_modify:
  assumes "actor_ok s" and "\<And>job. je_id (f job) = je_id job" and "\<And>job. je_version (f job) = je_version job"
    and "\<And>job. je_blocked (f job) = je_blocked job"
  shows "actor_ok (s\<lparr>act_jobs := modify j f (act_jobs s)\<rparr>)"
proof -
  let ?t = "s\<lparr>act_jobs := modify j f (act_jobs s)\<rparr>"
  have "job_version ?t = job_version s" "job_blocked ?t = job_blocked s"
    using assms(3,4) by (auto simp: job_version_def job_blocked_def option.map_comp comp_def
        split: option.splits)
  with assms(1) jobs_ok_modify [of s f j] assms(2) show ?thesis
    by (simp add: actor_ok_def versions_ok_def)
qed

lemma actor_ok_completion:
  assumes "actor_ok s"
  shows "actor_ok (handle_completion e c s)"
proof (rule completion_invariant)
  have "actor_ok (s\<lparr>act_jobs := act_jobs (snd (release_execution_resources e c s))\<rparr>)"
    unfolding release_jobs using assms by (rule actor_ok_modify) simp_all
  then show "actor_ok (snd (release_execution_resources e c s))"
    by (subst actor_ok_same [of _ "s\<lparr>act_jobs := act_jobs (snd (release_execution_resources e c s))\<rparr>"])
      simp_all
next
  fix t :: actor and b
  assume "actor_ok t"
  then show "actor_ok (t\<lparr>act_panicked := b\<rparr>)" by (subst actor_ok_same) simp_all
next
  fix t :: actor and j v r w a u
  assume "actor_ok t"
  then show "actor_ok (schedule_retry e j v r w a u t)" by (subst actor_ok_same) simp_all
qed (simp_all add: actor_ok_disable actor_ok_delete actor_ok_modify outcome_write_fields)

lemma job_running_completion:
  "job_running (handle_completion e c s) j \<le>
     (if j = tc_job_id c then job_running s j - 1 else job_running s j)"
proof -
  let ?n = "if j = tc_job_id c then job_running s j - 1 else job_running s j"
  show ?thesis
  proof (rule completion_invariant [where I = "\<lambda>t. job_running t j \<le> ?n"])
    show "job_running (snd (release_execution_resources e c s)) j \<le> ?n"
      by (simp add: job_running_def release_jobs split: option.splits)
  next
    fix t :: actor and b
    assume "job_running t j \<le> ?n"
    then show "job_running (t\<lparr>act_panicked := b\<rparr>) j \<le> ?n" by (simp add: job_running_def)
  next
    fix t :: actor and i v r w a u
    assume "job_running t j \<le> ?n"
    then show "job_running (schedule_retry e i v r w a u t) j \<le> ?n" by (simp add: job_running_def)
  next
    fix t :: actor and i f
    assume "job_running t j \<le> ?n" "outcome_write f"
    then show "job_running (t\<lparr>act_jobs := modify i f (act_jobs t)\<rparr>) j \<le> ?n"
      by (auto simp: job_running_def outcome_write_fields split: option.splits)
  qed (auto intro: order_trans [OF job_running_delete])
qed

section \<open>Properties\<close>

lemma dispatchable_ready [simp]: "dispatchable (s\<lparr>act_ready := q\<rparr>) = dispatchable s"
  by (auto simp: dispatchable_def fun_eq_iff split: option.splits)

text \<open>
  C5: dispatch keeps both concurrency limits. The number of running executions grows by
  exactly the wrappers started and ends at the global limit at most, unless it was above it
  already; each wrapper is for an enabled Job at the version it was queued for; and the
  count of each Job grows by exactly its new wrappers and ends at the limit of the Job at
  most, unless it was above it already.
\<close>

theorem dispatch_respects_limits:
  assumes "rq_inv (act_ready s)"
  shows "\<exists>new. act_tasks (dispatch_ready e s) = act_tasks s @ new \<and>
    act_total_running (dispatch_ready e s) = act_total_running s + length new \<and>
    act_total_running (dispatch_ready e s)
      \<le> max (act_total_running s) (global_concurrency (act_config s)) \<and>
    (\<forall>w \<in> set new. \<exists>job. map_of (act_jobs s) (wr_job_id w) = Some job \<and>
      je_version job = wr_version w \<and> je_state job = Enabled) \<and>
    (\<forall>j old. map_of (act_jobs s) j = Some old \<longrightarrow>
      (\<exists>job. map_of (act_jobs (dispatch_ready e s)) j = Some job \<and>
        je_running_count job = je_running_count old + length (filter (\<lambda>w. wr_job_id w = j) new) \<and>
        je_running_count job \<le> max (je_running_count old) (job_concurrency_limit (act_config s) old)))"
proof -
  obtain new where new: "dispatched s (dispatch_ready e s) new"
    using dispatch_dispatched [OF assms] by blast
  have "\<exists>job. map_of (act_jobs (dispatch_ready e s)) j = Some job \<and>
      je_running_count job = je_running_count old + length (filter (\<lambda>w. wr_job_id w = j) new) \<and>
      je_running_count job \<le> max (je_running_count old) (job_concurrency_limit (act_config s) old)"
    if "map_of (act_jobs s) j = Some old" for j old
  proof -
    from new have "rel_option (grown (act_config s) (length (filter (\<lambda>w. wr_job_id w = j) new)))
        (map_of (act_jobs s) j) (map_of (act_jobs (dispatch_ready e s)) j)"
      by (simp add: dispatched_def)
    with that show ?thesis by (auto simp: option_rel_Some1 grown_def)
  qed
  with new show ?thesis unfolding dispatched_def by blast
qed

definition sample_ready :: actor where
  "sample_ready = sample_actor\<lparr>act_ready := rq_insert (sample_run 10 PNormal) rq_new\<rparr>"

theorem dispatch_respects_limits_witness:
  "\<exists>job. map_of (act_jobs (dispatch_ready sample_env sample_ready)) 1 = Some job \<and>
     je_running_count job \<le> 1"
proof -
  have "rq_inv (act_ready sample_ready)" by (simp add: sample_ready_def insert_inv)
  moreover have "map_of (act_jobs sample_ready) 1 = Some (sample_job 1)"
    by (simp add: sample_ready_def)
  ultimately have "\<exists>job. map_of (act_jobs (dispatch_ready sample_env sample_ready)) 1 = Some job \<and>
      je_running_count job \<le> max (je_running_count (sample_job 1))
        (job_concurrency_limit (act_config sample_ready) (sample_job 1))"
    using dispatch_respects_limits [of sample_ready sample_env] by blast
  then show ?thesis
    by (simp add: sample_job_def job_concurrency_limit_def sample_ready_def default_config_def)
qed

text \<open>
  C14: dispatch leaves no usable slot empty. While every pending execution has its key in the
  heap, after dispatch either the global limit is reached or no execution that still waits
  could start.
\<close>

theorem dispatch_fills_slots:
  assumes "rq_inv (act_ready s)" and "rq_indexed (act_ready s)"
  shows "global_concurrency (act_config s) \<le> act_total_running (dispatch_ready e s) \<or>
    (\<forall>p \<in> set (rq_values (act_ready (dispatch_ready e s))). \<not> dispatchable (dispatch_ready e s) p)"
  using assms
proof (induction e s rule: dispatch_ready.induct)
  case (1 e s)
  let ?go = "act_total_running s < global_concurrency (act_config s) \<and> \<not> rq_is_empty (act_ready s)"
  obtain r q where pop: "pop_dispatchable (dispatchable s) (act_ready s) = (r, q)"
    by (cases "pop_dispatchable (dispatchable s) (act_ready s)")
  show ?case
  proof (cases "?go")
    case True
    show ?thesis
    proof (cases r)
      case None
      with True pop have run: "dispatch_ready e s = s\<lparr>act_ready := q\<rparr>"
        by (subst dispatch_ready.simps) simp
      have "\<not> dispatchable s p" if "p \<in> set (rq_values (act_ready s))" for p
        using pop_None_blocked [OF 1(2,3) _ that] pop None by blast
      moreover have "rq_values q = rq_values (act_ready s)"
        using pop_None_values pop None by blast
      ultimately show ?thesis by (simp add: run)
    next
      case (Some p)
      let ?t = "spawn_execution e p (s\<lparr>act_ready := q\<rparr>)"
      from Some True pop have run: "dispatch_ready e s = dispatch_ready e ?t"
        by (subst dispatch_ready.simps) simp
      have "rq_inv (act_ready ?t)" "rq_indexed (act_ready ?t)"
        using pop_Some_inv pop_Some_indexed 1(2,3) pop Some by auto
      from 1(1) [OF True pop [symmetric] Some this] show ?thesis by (simp add: run)
    qed
  next
    case False
    then have "dispatch_ready e s = s" by (subst dispatch_ready.simps) auto
    with False show ?thesis by (auto simp: rq_is_empty_def rq_values_def)
  qed
qed

theorem dispatch_fills_slots_witness:
  "4 \<le> act_total_running (dispatch_ready sample_env sample_ready) \<or>
   list_all (\<lambda>p. \<not> dispatchable (dispatch_ready sample_env sample_ready) p)
     (rq_values (act_ready (dispatch_ready sample_env sample_ready)))"
proof -
  have "rq_inv (act_ready sample_ready)" "rq_indexed (act_ready sample_ready)"
    using insert_indexed [of rq_new "sample_run 10 PNormal"]
    by (simp_all add: sample_ready_def insert_inv) (simp add: rq_indexed_def rq_new_def)
  from dispatch_fills_slots [OF this, of sample_env] show ?thesis
    by (simp add: list_all_iff sample_ready_def default_config_def usize_saturating_mul_def usize_max_def)
qed




subsection \<open>Failures\<close>

lemma unat_saturating_sub_u32_1: "unat (saturating_sub_u32 a 1) = unat a - 1"
proof (cases "a = 0")
  case True
  then show ?thesis by (simp add: saturating_sub_u32_def)
next
  case False
  then have "1 \<le> a" by (simp add: word_le_nat_alt unat_gt_0 Suc_le_eq)
  then show ?thesis by (simp add: saturating_sub_u32_def unat_sub)
qed

lemma unat_u32_Suc:
  assumes "a < (b :: u32)"
  shows "unat (a + 1) = Suc (unat a)" and "a + 1 \<le> b"
proof -
  have "unat a < unat b" using assms by (simp add: word_less_nat_alt)
  moreover have "unat b < 2 ^ 32" using unsigned_less [of b] by simp
  ultimately show "unat (a + 1) = Suc (unat a)" by (simp add: unat_word_ariths)
  with \<open>unat a < unat b\<close> show "a + 1 \<le> b" by (simp add: word_le_nat_alt)
qed

lemma retry_delay_SomeE:
  assumes "retry_delay j a cl s = Some d" and "map_of (act_jobs s) j = Some job"
  obtains ma i mx rc where "je_retry job = Exponential ma i mx rc" "a < ma" "cl \<noteq> Permanent"
    "d = min (min (i * 2 ^ min (unat a - 1) 31) dur_max) mx"
proof (cases "je_retry job")
  case RetryNone
  with assms show ?thesis by (simp add: retry_delay_def)
next
  case (Exponential ma i mx rc)
  with assms show ?thesis
    by (intro that [OF Exponential])
      (auto simp: retry_delay_def Let_def not_le dur_saturating_mul_def unat_saturating_sub_u32_1
        split: if_splits)
qed

text \<open>
  C12: the backoff stays within its policy. A retry is granted only below the number of
  attempts, so that the attempt counter does not wrap; its delay doubles per attempt from
  the initial one, never exceeds the maximum of the policy, never falls below the minimum
  the configuration demanded when the policy was checked, and never shrinks as attempts go on.
\<close>

theorem retry_backoff:
  assumes "retry_delay j a cl s = Some d" and "map_of (act_jobs s) j = Some job"
    and "validate_retry (je_retry job) c = Inr ()" and "minimum_retry_delay c \<le> dur_max"
  shows "cl \<noteq> Permanent \<and> (\<exists>ma i mx on. je_retry job = Exponential ma i mx on \<and> a < ma \<and>
      unat (a + 1) = Suc (unat a) \<and> a + 1 \<le> ma \<and> d \<le> mx \<and> minimum_retry_delay c \<le> d \<and>
      d = min (min (i * 2 ^ min (unat a - 1) 31) dur_max) mx) \<and>
    (\<forall>b d'. a \<le> b \<longrightarrow> retry_delay j b cl s = Some d' \<longrightarrow> d \<le> d')"
proof -
  from assms(1,2) obtain ma i mx rc where job: "je_retry job = Exponential ma i mx rc"
    and a: "a < ma" and "cl \<noteq> Permanent"
    and d: "d = min (min (i * 2 ^ min (unat a - 1) 31) dur_max) mx"
    by (rule retry_delay_SomeE)
  moreover have "d \<le> d'" if "a \<le> b" "retry_delay j b cl s = Some d'" for b d'
  proof -
    from that(2) assms(2) have "d' = min (min (i * 2 ^ min (unat b - 1) 31) dur_max) mx"
      by (rule retry_delay_SomeE) (simp add: job)
    moreover have "unat a \<le> unat b" using that(1) by (simp add: word_le_nat_alt)
    then have "(2::nat) ^ min (unat a - 1) 31 \<le> 2 ^ min (unat b - 1) 31"
      by (intro power_increasing) auto
    then have "i * 2 ^ min (unat a - 1) 31 \<le> i * 2 ^ min (unat b - 1) 31" by simp
    ultimately show ?thesis unfolding d by (simp add: min_le_iff_disj)
  qed
  moreover have "minimum_retry_delay c \<le> d"
  proof -
    have "minimum_retry_delay c \<le> i" "i \<le> mx"
      using assms(3) by (auto simp: validate_retry_def job split: if_splits)
    moreover have "i * 1 \<le> i * 2 ^ min (unat a - 1) 31" by (intro mult_le_mono2) simp
    ultimately show ?thesis
      using assms(4) unfolding d mult_1_right by (intro min.boundedI) (rule order_trans, assumption+, linarith)
  qed
  moreover have "d \<le> mx" by (simp add: d)
  ultimately show ?thesis
    using unat_u32_Suc [OF a] by blast
qed

theorem retry_backoff_witness:
  "retry_delay 1 2 Transient sample_actor = Some (millis 200) \<and>
   (\<exists>ma i mx on. je_retry (sample_job 1) = Exponential ma i mx on \<and> 2 < ma \<and> millis 200 \<le> mx)"
proof -
  have d: "retry_delay 1 2 Transient sample_actor = Some (millis 200)"
    by (simp add: retry_delay_def sample_job_def default_retry_condition_def Let_def
        unat_saturating_sub_u32_1 dur_saturating_mul_def dur_max_def millis_def secs_def)
  moreover have "map_of (act_jobs sample_actor) 1 = Some (sample_job 1)" by simp
  moreover have "validate_retry (je_retry (sample_job 1)) (default_config 1) = Inr ()"
    by (simp add: validate_retry_def sample_job_def default_config_def millis_def secs_def)
  moreover have "minimum_retry_delay (default_config 1) \<le> dur_max"
    by (simp add: default_config_def dur_max_def millis_def)
  ultimately show ?thesis using retry_backoff by blast
qed


definition sample_execution :: "u32 \<Rightarrow> execution_metadata" where
  "sample_execution a =
     \<lparr>em_job_id = 1, em_version = 1, em_run_id = 10, em_attempt = a, em_scheduled_at = 0\<rparr>"


end
