(* ===== verification/Sched_Actor.thy ===== *)
theory Sched_Actor
  imports Sched_Execution
begin

text \<open>
  The Actor as a whole (\<open>SchedulerActor::run\<close> and \<open>handle_command\<close> of
  \<open>scheduler/runtime/engine.rs\<close>, the commands of \<open>scheduler/runtime.rs\<close>): one turn of
  the loop puts back what was held back, dispatches, and then handles one input, a command,
  a completion, expired timers or the periodic maintenance. Which input comes next is the
  environment's choice, so the loop is a step relation; a state is reachable when steps
  lead to it from the start.
\<close>

section \<open>Commands\<close>

datatype command =
    CmdAdd "job_id option" u64 bool trigger task_binding job_options
  | CmdUpdate job_id u64 job_patch
  | CmdGet job_id
  | CmdList
  | CmdEnable job_id u64
  | CmdDisable job_id u64 string
  | CmdDelete job_id u64
  | CmdReconcile reconcile_plan
  | CmdGetConfig
  | CmdUpdateConfig u64 scheduler_config_patch
  | CmdShutdown

datatype response =
    RespJobId "job_id sresult"
  | RespSnapshot "job_snapshot sresult"
  | RespFound "job_snapshot option"
  | RespSnapshots "job_snapshot list sresult"
  | RespUnit "unit sresult"
  | RespConfig "(u64 \<times> scheduler_config) sresult"

definition command_kind :: "command \<Rightarrow> string" where
  "command_kind c =
     (case c of
        CmdAdd _ _ _ _ _ _ \<Rightarrow> ''add'' | CmdUpdate _ _ _ \<Rightarrow> ''update'' | CmdGet _ \<Rightarrow> ''get''
      | CmdList \<Rightarrow> ''list'' | CmdEnable _ _ \<Rightarrow> ''enable'' | CmdDisable _ _ _ \<Rightarrow> ''disable''
      | CmdDelete _ _ \<Rightarrow> ''delete'' | CmdReconcile _ \<Rightarrow> ''reconcile''
      | CmdGetConfig \<Rightarrow> ''get_config'' | CmdUpdateConfig _ _ \<Rightarrow> ''update_config''
      | CmdShutdown \<Rightarrow> ''shutdown'')"

text \<open>The result says whether to leave the loop, and the response sent, which for a
  shutdown comes only at the end. \<open>None\<close>: the search for a fresh identifier never ends.\<close>

definition handle_command ::
  "env \<Rightarrow> command \<Rightarrow> actor \<Rightarrow> (bool \<times> response option \<times> actor) option" where
  "handle_command e c s =
     (case c of
        CmdAdd requested generation en tr task opts \<Rightarrow>
          (case add_job e requested generation en tr task opts s of
             None \<Rightarrow> None | Some (r, s) \<Rightarrow> Some (False, Some (RespJobId r), s))
      | CmdUpdate j v p \<Rightarrow>
          (case update_job e j v p s of (r, s) \<Rightarrow> Some (False, Some (RespSnapshot r), s))
      | CmdGet j \<Rightarrow>
          Some (False, Some (RespFound (map_option (snapshot s) (map_of (act_jobs s) j))), s)
      | CmdList \<Rightarrow>
          Some (False, Some (RespSnapshots (Inr (map (\<lambda>(_, job). snapshot s job) (act_jobs s)))), s)
      | CmdEnable j v \<Rightarrow>
          (case enable_job e j v s of (r, s) \<Rightarrow> Some (False, Some (RespSnapshot r), s))
      | CmdDisable j v why \<Rightarrow>
          (case disable_job e j v (Reason why) s of (r, s) \<Rightarrow> Some (False, Some (RespSnapshot r), s))
      | CmdDelete j v \<Rightarrow>
          (case delete_job e j v True s of (r, s) \<Rightarrow> Some (False, Some (RespUnit r), s))
      | CmdReconcile plan \<Rightarrow>
          (case reconcile_jobs e plan s of (r, s) \<Rightarrow> Some (False, Some (RespSnapshots r), s))
      | CmdGetConfig \<Rightarrow>
          Some (False, Some (RespConfig (Inr (act_config_revision s, act_config s))), s)
      | CmdUpdateConfig v p \<Rightarrow>
          (case update_config e v p s of (r, s) \<Rightarrow> Some (False, Some (RespConfig r), s))
      | CmdShutdown \<Rightarrow> Some (True, None, s\<lparr>act_shutdown_response := True\<rparr>))"

section \<open>The loop\<close>

datatype input =
    InCancelled
  | InCommand command
  | InCompletion nat dur completion_outcome
  | InWrapperFailed nat
  | InExpired dq_key "dq_key list"
  | InMaintenance

text \<open>What the branches of \<open>select!\<close> wait for: a wrapper of the \<open>JoinSet\<close> that may end
  this way, entries of the \<open>DelayQueue\<close> whose deadline has passed.\<close>

definition expired_key :: "env \<Rightarrow> actor \<Rightarrow> dq_key \<Rightarrow> bool" where
  "expired_key e s k =
     (case map_of (act_timers s) k of Some (_, deadline) \<Rightarrow> deadline \<le> instant_now e | None \<Rightarrow> False)"

definition possible :: "env \<Rightarrow> input \<Rightarrow> actor \<Rightarrow> bool" where
  "possible e i s =
     (case i of
        InCompletion n _ out \<Rightarrow>
          n < length (act_tasks s) \<and>
          wrapper_may_end (act_tasks s ! n) (wr_token (act_tasks s ! n) \<in> set (act_cancelled s)) out
      | InWrapperFailed n \<Rightarrow> n < length (act_tasks s)
      | InExpired k ks \<Rightarrow> distinct (k # ks) \<and> list_all (expired_key e s) (k # ks)
      | _ \<Rightarrow> True)"

definition remove_nth :: "nat \<Rightarrow> 'a list \<Rightarrow> 'a list" where
  "remove_nth n xs = take n xs @ drop (Suc n) xs"

text \<open>One branch of \<open>select!\<close>: whether to leave the loop, and the new state.\<close>

definition receive :: "env \<Rightarrow> input \<Rightarrow> actor \<Rightarrow> (bool \<times> actor) option" where
  "receive e i s =
     (case i of
        InCancelled \<Rightarrow> Some (True, s)
      | InCommand c \<Rightarrow>
          (case handle_command e c s of None \<Rightarrow> None | Some (stop, _, s) \<Rightarrow> Some (stop, s))
      | InCompletion n elapsed out \<Rightarrow>
          (let w = act_tasks s ! n;
               s = s\<lparr>act_tasks := remove_nth n (act_tasks s),
                     act_cancelled := act_cancelled s @ (if out = TimedOut then [wr_token w] else [])\<rparr>
           in Some (False, handle_completion e (wrapper_completion w elapsed out) s))
      | InWrapperFailed n \<Rightarrow> Some (False, s\<lparr>act_tasks := remove_nth n (act_tasks s)\<rparr>)
      | InExpired k ks \<Rightarrow>
          (case map_of (act_timers s) k of
             None \<Rightarrow> Some (False, s)
           | Some (t, _) \<Rightarrow>
               Some (False, handle_expired_batch e t ks
                 (s\<lparr>act_timers := AList.delete k (act_timers s)\<rparr>)))
      | InMaintenance \<Rightarrow> Some (False, reanchor_timers e s))"

definition prepare :: "env \<Rightarrow> actor \<Rightarrow> actor" where
  "prepare e s = dispatch_ready e (restore_blocked e s)"

definition actor_start :: "env \<Rightarrow> scheduler_config \<Rightarrow> actor" where
  "actor_start e c = emit e SchedulerStarted (actor_new c)"

inductive loop_step :: "env \<Rightarrow> input \<Rightarrow> actor \<Rightarrow> bool \<Rightarrow> actor \<Rightarrow> bool" where
  turn: "possible e i (prepare e s) \<Longrightarrow> receive e i (prepare e s) = Some (stop, s') \<Longrightarrow>
    \<not> act_panicked s' \<Longrightarrow> loop_step e i s stop s'"

inductive_cases loop_stepE: "loop_step e i s stop s'"

text \<open>\<open>reachable E c s\<close>: the loop, started with the valid configuration \<open>c\<close>, is at its
  head in the state \<open>s\<close>; every turn runs in an environment that satisfies \<open>E\<close>.\<close>

inductive reachable :: "(env \<Rightarrow> bool) \<Rightarrow> scheduler_config \<Rightarrow> actor \<Rightarrow> bool" for E c where
  start: "E e \<Longrightarrow> validate_config c = Inr () \<Longrightarrow> config_typed c \<Longrightarrow> reachable E c (actor_start e c)"
| turn: "reachable E c s \<Longrightarrow> E e \<Longrightarrow> loop_step e i s False s' \<Longrightarrow> reachable E c s'"

section \<open>Shutdown\<close>

text \<open>The wait ends when every wrapper has ended or, after \<open>shutdown_timeout\<close>, when the
  rest has been aborted: either way the \<open>JoinSet\<close> is empty.\<close>

definition graceful_shutdown :: "env \<Rightarrow> actor \<Rightarrow> actor" where
  "graceful_shutdown e s =
     (let s = emit e SchedulerStopping (s\<lparr>act_status := Stopping\<rparr>);
          s = s\<lparr>act_ready := rq_clear (act_ready s), act_timers := [], act_retry_timers := [],
                act_cancelled := act_cancelled s @ map (\<lambda>(_, r). re_cancellation r) (act_running s)\<rparr>;
          s = s\<lparr>act_tasks := [], act_running := [], act_total_running := 0, act_status := Stopped\<rparr>;
          s = emit e SchedulerStopped s
      in s\<lparr>act_shutdown_response := False\<rparr>)"

section \<open>A fired timer touches the Job table like a disable at most\<close>

lemma timer_cores:
  obtains (kept) "cores (handle_timer e b t s) = cores s"
  | (disabled) u j why where "cores u = cores s" "handle_timer e b t s = snd (force_disable e j why u)"
proof -
  note off = disabled
  let ?u = "s\<lparr>act_jobs := modify (te_job_id t)
      (\<lambda>job. job\<lparr>je_normal_timer_key := None, je_next_run_at := None\<rparr>) (act_jobs s)\<rparr>"
  have normal: ?thesis if run: "handle_timer e b t s = handle_normal_trigger e j at b rn ?u" for j at rn
  proof (cases rule: handle_normal_cases [of ?u j e at b rn])
    case missing
    then show ?thesis using kept run by simp
  next
    case (disabled job err)
    then show ?thesis using off [of ?u j "ErrorText err"] run by simp
  next
    case (admitted job mk once ts t' u)
    have "cores t' = cores ?u" using admitted(3) by auto
    then have "cores u = cores ?u" unfolding admitted(4) by simp
    then show ?thesis using kept run admitted(5) by auto
  qed
  show ?thesis
  proof (cases "map_of (act_jobs s) (te_job_id t)")
    case None
    then show ?thesis using kept by (simp add: handle_timer_def)
  next
    case (Some job)
    show ?thesis
    proof (cases "je_version job \<noteq> te_version t \<or> je_state job \<noteq> Enabled")
      case True
      then show ?thesis using kept Some by (simp add: handle_timer_def)
    next
      case False
      then show ?thesis
        using kept normal Some by (cases "te_kind t") (simp_all add: handle_timer_def)
    qed
  qed
qed

lemma batch_invariant:
  assumes "I s" and "\<And>t u. cores t = cores u \<Longrightarrow> I t = I u"
    and "\<And>j why t. I t \<Longrightarrow> I (snd (force_disable e j why t))"
  shows "I (handle_expired_batch e te ks s)"
proof -
  have timer: "I (handle_timer e b t u)" if "I u" for b t u
  proof (cases rule: timer_cores [of e b t u])
    case kept
    with assms(2) that show ?thesis by blast
  next
    case (disabled w j why)
    with assms(2) [of w u] that show ?thesis by (simp add: assms(3))
  qed
  have "I (fold (handle_timer e b) ts u)" if "I u" for b ts u
    using that by (induction ts arbitrary: u) (simp_all add: timer)
  moreover have "I (snd (take_expired n ks (s\<lparr>act_batch_sequence := b\<rparr>)))" for n b
    using assms(1) assms(2) [of "snd (take_expired n ks (s\<lparr>act_batch_sequence := b\<rparr>))" s]
    by (simp add: cores_def)
  ultimately show ?thesis
    by (simp add: handle_expired_batch_def Let_def case_prod_beta timer)
qed

lemma actor_ok_batch:
  assumes "actor_ok s"
  shows "actor_ok (handle_expired_batch e te ks s)"
proof -
  have "jobs_ok (handle_expired_batch e te ks s)"
  proof (rule batch_invariant)
    show "jobs_ok s" using assms by (simp add: actor_ok_def)
    show "jobs_ok t = jobs_ok u" if "cores t = cores u" for t u
      using that by (rule jobs_ok_cores)
    show "jobs_ok (snd (force_disable e j why t))" if "jobs_ok t" for j why t
      using that by (cases rule: force_disable_cases [of e j why t]) (auto simp: jobs_ok_def)
  qed
  with assms show ?thesis
    by (simp add: actor_ok_def versions_ok_batch ready_inv_timers)
qed

lemma actor_ok_restore:
  assumes "actor_ok s"
  shows "actor_ok (restore_blocked e s)"
  using assms jobs_ok_cores [of "restore_blocked e s" s]
  by (simp add: actor_ok_def versions_ok_restore ready_inv_restore)

lemma cores_reanchor [simp]: "act_jobs (reanchor_timers e s) = act_jobs s"
  by simp

section \<open>Adding and reconciling, once more as a whole\<close>

lemma draw_job_id_fresh: "draw_job_id e taken n = Some r \<Longrightarrow> fst r \<notin> set taken"
  by (erule draw_job_id.raw_induct [rotated]) (auto split: if_splits)

lemma add_job_cases:
  assumes "add_job e req g en tr tk opts s = Some (r, t)"
  obtains (kept) "t = s"
  | (added) i n where "i \<notin> set (keys_of (act_jobs s))"
      "(r, t) = install_job e i g en tr tk opts (s\<lparr>act_uuids := n\<rparr>)"
proof (cases req)
  case (Some i)
  with assms have "(r, t) = add_job_as e i g en tr tk opts s" by (simp add: add_job_def)
  then show ?thesis
    using kept added [of i "act_uuids s"] by (auto simp: add_job_as_def split: sum.splits if_splits)
next
  case None
  show ?thesis
  proof (cases "draw_job_id e (keys_of (act_jobs s)) (act_uuids s)")
    case None
    with \<open>req = None\<close> assms kept show ?thesis by (auto simp: add_job_def split: sum.splits)
  next
    case (Some p)
    then have "fst p \<notin> set (keys_of (act_jobs s))" by (rule draw_job_id_fresh)
    with \<open>req = None\<close> assms kept added [of "fst p" "snd p"] Some show ?thesis
      by (auto simp: add_job_def split: sum.splits prod.splits)
  qed
qed

lemma add_job_frame:
  assumes "add_job e req g en tr tk opts s = Some (r, t)"
  shows "act_tasks t = act_tasks s" "act_running t = act_running s" "act_total_running t = act_total_running s"
    "act_status t = act_status s" "act_config t = act_config s" "act_ready t = act_ready s"
    "act_cancelled t = act_cancelled s" "act_shutdown_response t = act_shutdown_response s"
proof -
  have t: "t = s \<or> (\<exists>i n. t = snd (install_job e i g en tr tk opts (s\<lparr>act_uuids := n\<rparr>)))"
    using assms by (cases rule: add_job_cases) (auto dest: arg_cong [of _ _ snd])
  show "act_tasks t = act_tasks s" "act_running t = act_running s" "act_total_running t = act_total_running s"
    "act_status t = act_status s" "act_config t = act_config s" "act_ready t = act_ready s"
    "act_cancelled t = act_cancelled s" "act_shutdown_response t = act_shutdown_response s"
    using t by auto
qed

lemma reconcile_frame [simp]:
  "act_tasks (snd (reconcile_jobs e plan s)) = act_tasks s"
  "act_running (snd (reconcile_jobs e plan s)) = act_running s"
  "act_total_running (snd (reconcile_jobs e plan s)) = act_total_running s"
  "act_status (snd (reconcile_jobs e plan s)) = act_status s"
  "act_config (snd (reconcile_jobs e plan s)) = act_config s"
  "act_shutdown_response (snd (reconcile_jobs e plan s)) = act_shutdown_response s"
  by (rule reconcile_invariant; simp)+

text \<open>A turn: what the operations keep, the handling of a command keeps, and of an input.\<close>

lemma command_invariant:
  assumes "I s" and "handle_command e c s = Some (stop, r, t)"
    and "\<And>req g en tr tk opts r u. add_job e req g en tr tk opts s = Some (r, u) \<Longrightarrow> I u"
    and "\<And>j v p. I (snd (update_job e j v p s))" and "\<And>j v. I (snd (enable_job e j v s))"
    and "\<And>j v why. I (snd (disable_job e j v why s))" and "\<And>j v. I (snd (delete_job e j v True s))"
    and "\<And>plan. I (snd (reconcile_jobs e plan s))" and "\<And>v p. I (snd (update_config e v p s))"
    and "I (s\<lparr>act_shutdown_response := True\<rparr>)"
  shows "I t"
proof -
  show ?thesis
  proof (cases c)
    case (CmdAdd req g en tr tk opts)
    with assms(2,3) show ?thesis by (auto simp: handle_command_def split: option.splits)
  next
    case (CmdUpdate j v p)
    with assms(2) assms(4) [of j v p] show ?thesis by (auto simp: handle_command_def split: prod.splits)
  next
    case (CmdEnable j v)
    with assms(2) assms(5) [of j v] show ?thesis by (auto simp: handle_command_def split: prod.splits)
  next
    case (CmdDisable j v why)
    with assms(2) assms(6) [of j v] show ?thesis
      by (auto simp: handle_command_def split: prod.splits) (metis snd_conv)
  next
    case (CmdDelete j v)
    with assms(2) assms(7) [of j v] show ?thesis by (auto simp: handle_command_def split: prod.splits)
  next
    case (CmdReconcile plan)
    with assms(2) assms(8) [of plan] show ?thesis by (auto simp: handle_command_def split: prod.splits)
  next
    case (CmdUpdateConfig v p)
    with assms(2) assms(9) [of v p] show ?thesis by (auto simp: handle_command_def split: prod.splits)
  qed (use assms(1,2,10) in \<open>auto simp: handle_command_def\<close>)
qed

section \<open>A turn keeps the invariant and the event stream\<close>

lemma actor_ok_command:
  assumes "actor_ok s" and "handle_command e c s = Some (stop, r, t)"
  shows "actor_ok t"
proof (rule command_invariant [of actor_ok, OF assms])
  fix req g en tr tk opts r u
  assume "add_job e req g en tr tk opts s = Some (r, u)"
  then show "actor_ok u"
  proof (cases rule: add_job_cases)
    case (added i n)
    have "actor_ok (s\<lparr>act_uuids := n\<rparr>)"
      using assms(1) actor_ok_same [of "s\<lparr>act_uuids := n\<rparr>" s] by simp
    then show ?thesis
      using added actor_ok_install [of "s\<lparr>act_uuids := n\<rparr>" i e g en tr tk opts]
      by (metis actor.select_convs(3) actor.update_convs(15) snd_conv actor.surjective)
  qed (use assms in simp)
next
  show "actor_ok (s\<lparr>act_shutdown_response := True\<rparr>)"
    using assms(1) actor_ok_same [of "s\<lparr>act_shutdown_response := True\<rparr>" s] by simp
qed (simp_all add: assms(1) actor_ok_update actor_ok_enable actor_ok_disable_job actor_ok_delete
    actor_ok_reconcile actor_ok_config)

lemma actor_ok_prepare: "actor_ok s \<Longrightarrow> actor_ok (prepare e s)"
  by (simp add: prepare_def actor_ok_dispatch actor_ok_restore)

lemma actor_ok_receive:
  assumes "actor_ok s" and "receive e i s = Some (stop, t)"
  shows "actor_ok t"
proof -
  have upd: "actor_ok (s\<lparr>act_tasks := x\<rparr>)" "actor_ok (s\<lparr>act_tasks := x, act_cancelled := y\<rparr>)"
    "actor_ok (s\<lparr>act_timers := z\<rparr>)" "actor_ok (reanchor_timers e s)" for x y z
    using assms(1) actor_ok_same [of "s\<lparr>act_tasks := x\<rparr>" s]
      actor_ok_same [of "s\<lparr>act_tasks := x, act_cancelled := y\<rparr>" s]
      actor_ok_same [of "s\<lparr>act_timers := z\<rparr>" s] actor_ok_same [of "reanchor_timers e s" s]
    by simp_all
  show ?thesis
  proof (cases i)
    case (InCommand c)
    with assms show ?thesis
      by (auto simp: receive_def split: option.splits intro: actor_ok_command)
  qed (use assms upd in \<open>auto simp: receive_def Let_def actor_ok_completion actor_ok_batch
      split: option.splits\<close>)
qed

lemma extends_add:
  assumes "extends s t" and "add_job e req g en tr tk opts t = Some (r, u)"
  shows "extends s u"
  using assms(2)
proof (cases rule: add_job_cases)
  case (added i n)
  have "extends s (snd (install_job e i g en tr tk opts (t\<lparr>act_uuids := n\<rparr>)))"
    by (rule extends_management) (simp add: assms(1))
  then show ?thesis using added(2) by (metis snd_conv)
qed (use assms in simp)

lemma extends_reconcile [event_facts]: "extends s t \<Longrightarrow> extends s (snd (reconcile_jobs e plan t))"
  by (rule reconcile_invariant [of "extends s"]) (auto intro: event_facts)

lemma extends_command:
  assumes "extends s t" and "handle_command e c t = Some (stop, r, u)"
  shows "extends s u"
  by (rule command_invariant [of "extends s", OF assms]) (auto intro: event_facts extends_add assms(1) simp: assms(1))

lemma extends_turn:
  assumes "loop_step e i s stop t"
  shows "extends s t"
proof -
  let ?p = "prepare e s"
  have p: "extends s ?p" by (simp add: prepare_def event_facts)
  from assms have "receive e i ?p = Some (stop, t)" by (auto elim: loop_stepE)
  then show ?thesis
    using p
    by (cases i) (auto simp: receive_def Let_def split: option.splits intro: event_facts extends_command)
qed

section \<open>Slots\<close>

text \<open>Every wrapper that runs holds a global slot.\<close>

definition slots_ok :: "actor \<Rightarrow> bool" where
  "slots_ok s \<longleftrightarrow> length (act_tasks s) \<le> act_total_running s"

lemma slots_command:
  assumes "handle_command e c s = Some (stop, r, t)"
  shows "act_tasks t = act_tasks s" and "act_total_running t = act_total_running s"
  by (rule command_invariant [OF _ assms]; simp add: add_job_frame)+

lemma slots_receive:
  assumes "slots_ok s" and "possible e i s" and "receive e i s = Some (stop, t)"
  shows "slots_ok t" and "act_total_running t \<le> act_total_running s"
proof -
  have "slots_ok t \<and> act_total_running t \<le> act_total_running s"
  proof (cases i)
    case (InCommand c)
    with assms slots_command [of e c s] show ?thesis
      by (auto simp: receive_def slots_ok_def split: option.splits)
  qed (use assms in \<open>auto simp: receive_def possible_def slots_ok_def remove_nth_def Let_def
      split: option.splits\<close>)
  then show "slots_ok t" and "act_total_running t \<le> act_total_running s" by simp_all
qed

lemma slots_prepare:
  assumes "slots_ok s" and "actor_ok s"
  shows "slots_ok (prepare e s)"
    and "act_total_running (prepare e s) \<le> max (act_total_running s) (global_concurrency (act_config s))"
proof -
  have "rq_inv (act_ready (restore_blocked e s))"
    using actor_ok_restore [OF assms(2)] by (simp add: actor_ok_def)
  from dispatch_dispatched [OF this, of e] assms(1)
  show "slots_ok (prepare e s)"
    and "act_total_running (prepare e s) \<le> max (act_total_running s) (global_concurrency (act_config s))"
    by (auto simp: dispatched_def slots_ok_def prepare_def)
qed

section \<open>The abstract registry\<close>

text \<open>
  What the Actor promises about Jobs, whatever the timing: a registry of versions. A Job
  appears under an identifier that was free, a change of a Job gives it the next version and
  never one that wrapped around, an enabled Job may end, and a Job may go. The boolean says
  whether the Job is enabled.
\<close>

type_synonym registry = "job_id \<rightharpoonup> u64 \<times> bool"

inductive registry_step :: "registry \<Rightarrow> registry \<Rightarrow> bool" where
  appears: "m i = None \<Longrightarrow> registry_step m (m(i \<mapsto> (v, b)))"
| changes: "m i = Some (v, b) \<Longrightarrow> v \<noteq> - 1 \<Longrightarrow> registry_step m (m(i \<mapsto> (v + 1, b')))"
| ends: "m i = Some (v, b) \<Longrightarrow> registry_step m (m(i \<mapsto> (v, False)))"
| goes: "registry_step m (m(i := None))"

definition registry :: "actor \<Rightarrow> registry" where
  "registry s j = map_option (\<lambda>job. (je_version job, je_state job = Enabled)) (map_of (act_jobs s) j)"

abbreviation registry_steps :: "registry \<Rightarrow> registry \<Rightarrow> bool" where
  "registry_steps \<equiv> registry_step\<^sup>*\<^sup>*"

lemma registry_cores:
  assumes "cores t = cores s"
  shows "registry t = registry s"
proof
  fix j
  have core: "registry u j = map_option (\<lambda>job. (je_version job, je_state job = Enabled))
      (map_option je_core (map_of (act_jobs u) j))" for u
    by (simp add: registry_def option.map_comp comp_def)
  show "registry t j = registry s j" unfolding core cores_lookup [OF assms] ..
qed

lemma registry_jobs: "act_jobs t = act_jobs s \<Longrightarrow> registry t = registry s"
  by (rule registry_cores) (simp add: cores_def)

lemma registry_frame [simp]:
  "registry (emit e k s) = registry s" "registry (cancel_job_version j v s) = registry s"
  "registry (schedule_normal e j n tk s) = registry s" "registry (schedule_retry e j v r w a u s) = registry s"
  "registry (restore_blocked e s) = registry s" "registry (reanchor_timers e s) = registry s"
  "registry (s\<lparr>act_panicked := pb\<rparr>) = registry s" "registry (s\<lparr>act_ready := q\<rparr>) = registry s"
  "registry (s\<lparr>act_shutdown_response := pb\<rparr>) = registry s"
  "registry (s\<lparr>act_uuids := x\<rparr>) = registry s"
  "registry (s\<lparr>act_tasks := w'\<rparr>) = registry s" "registry (s\<lparr>act_cancelled := c\<rparr>) = registry s"
  "registry (s\<lparr>act_timers := z\<rparr>) = registry s"
  "registry (s\<lparr>act_config_revision := y, act_config := cf\<rparr>) = registry s"
  by (rule registry_cores; simp add: cores_def; fail | rule registry_cores; simp; fail)+

lemma registry_bump:
  assumes "map_of (act_jobs s) j = Some old" and "checked_add_u64 (je_version old) 1 = Some v"
    and "registry t = (registry s)(j \<mapsto> (v, b))"
  shows "registry_step (registry s) (registry t)"
proof -
  have "v = je_version old + 1" "je_version old \<noteq> - 1"
    using assms(2) by (auto simp: checked_add_u64_1 split: if_splits)
  then show ?thesis
    unfolding assms(3) using assms(1)
    by (auto intro!: changes simp: registry_def)
qed

lemma registry_disable: "registry_steps (registry s) (registry (snd (force_disable e j why s)))"
proof (cases rule: force_disable_cases [of e j why s])
  case (disabled job v t)
  have "registry t = (registry s)(j \<mapsto> (v, False))"
    using disabled(1,4) by (auto simp: registry_def fun_eq_iff)
  from registry_bump [OF disabled(1,2) this] show ?thesis by (simp add: disabled(3))
qed simp

lemma registry_disable_job: "registry_steps (registry s) (registry (snd (disable_job e j v why s)))"
  by (simp add: disable_job_state registry_disable split: sum.splits)

lemma registry_install:
  assumes "i \<notin> set (keys_of (act_jobs s))"
  shows "registry_steps (registry s) (registry (snd (install_job e i g en tr tk opts s)))"
proof (cases rule: install_cases [of e i g en tr tk opts s])
  case (installed job n)
  have "registry (s\<lparr>act_jobs := AList.update i job (act_jobs s)\<rparr>) =
      (registry s)(i \<mapsto> (g, je_state job = Enabled))"
    using installed(2) by (auto simp: registry_def fun_eq_iff)
  moreover have "registry s i = None"
    using assms by (simp add: registry_def map_of_eq_None_iff)
  ultimately show ?thesis by (auto simp: installed(13) intro!: r_into_rtranclp appears)
qed simp

lemma registry_add:
  assumes "add_job e req g en tr tk opts s = Some (r, t)"
  shows "registry_steps (registry s) (registry t)"
  using assms
proof (cases rule: add_job_cases)
  case (added i n)
  with registry_install [of i "s\<lparr>act_uuids := n\<rparr>" e g en tr tk opts] show ?thesis
    by (simp add: prod_eq_iff)
qed simp

lemma registry_add_as: "registry_steps (registry s) (registry (snd (add_job_as e i g en tr tk opts s)))"
  by (auto simp: add_job_as_def intro: registry_install split: sum.splits)

lemma registry_update: "registry_steps (registry s) (registry (snd (update_job e j v p s)))"
proof (cases rule: update_cases [of e j v p s])
  case (updated plan old job u)
  have "registry (snd (update_job e j v p s)) = registry u" using updated(7) by auto
  moreover have "registry u = (registry s)(j \<mapsto> (up_next_version plan, je_state old = Enabled))"
    by (auto simp: registry_def updated(3,4) fun_eq_iff)
  moreover have "checked_add_u64 (je_version old) 1 = Some (up_next_version plan)"
    using plan_version [OF updated(1)] updated(2) by auto
  ultimately show ?thesis using registry_bump [OF updated(2)] by auto
qed simp

lemma registry_enable: "registry_steps (registry s) (registry (snd (enable_job e j v s)))"
proof (cases rule: enable_cases [of e j v s])
  case (cleared err u)
  then show ?thesis using registry_jobs [of u s] by simp
next
  case (enabled old n w u)
  have "registry u = (registry s)(j \<mapsto> (w, True))"
    using enabled(1,5) by (auto simp: registry_def fun_eq_iff)
  from registry_bump [OF enabled(1) _ this] enabled show ?thesis by auto
qed simp

lemma registry_delete: "registry_steps (registry s) (registry (snd (delete_job e j v c s)))"
proof (cases rule: delete_cases [of e j v c s])
  case (deleted old u)
  have "registry u = (registry s)(j := None)"
    by (auto simp: registry_def deleted(4) fun_eq_iff)
  then show ?thesis by (auto simp: deleted(3) intro: goes)
qed simp

lemma registry_outcome:
  assumes "outcome_write f"
  shows "registry_steps (registry s) (registry (s\<lparr>act_jobs := modify j f (act_jobs s)\<rparr>))"
proof (cases "map_of (act_jobs s) j")
  case None
  then have "registry (s\<lparr>act_jobs := modify j f (act_jobs s)\<rparr>) = registry s"
    by (auto simp: registry_def fun_eq_iff)
  then show ?thesis by simp
next
  case (Some job)
  let ?t = "s\<lparr>act_jobs := modify j f (act_jobs s)\<rparr>"
  have "je_state (f job) = je_state job \<or> je_state (f job) = Completed"
    using assms unfolding outcome_write_def by blast
  then have "registry ?t = registry s \<or> registry ?t = (registry s)(j \<mapsto> (je_version job, False))"
    using Some outcome_write_fields(2) [OF assms, of job] by (auto simp: registry_def fun_eq_iff)
  moreover have "registry_step (registry s) ((registry s)(j \<mapsto> (je_version job, False)))"
    by (rule ends) (simp add: registry_def Some)
  ultimately show ?thesis by auto
qed

lemma registry_completion: "registry_steps (registry s) (registry (handle_completion e c s))"
proof (rule completion_invariant [where I = "\<lambda>t. registry_steps (registry s) (registry t)"])
  have "registry (snd (release_execution_resources e c s)) = registry s"
    by (auto simp: registry_def release_jobs fun_eq_iff option.map_comp comp_def)
  then show "registry_steps (registry s) (registry (snd (release_execution_resources e c s)))" by simp
qed (auto intro: rtranclp_trans registry_disable registry_delete registry_outcome)

lemma registry_config: "registry_steps (registry s) (registry (snd (update_config e v p s)))"
  by (rule config_invariant [where I = "\<lambda>t. registry_steps (registry s) (registry t)"])
    (auto intro: rtranclp_trans registry_disable)

lemma registry_reconcile: "registry_steps (registry s) (registry (snd (reconcile_jobs e plan s)))"
  by (rule reconcile_invariant [where I = "\<lambda>t. registry_steps (registry s) (registry t)"])
    (auto intro: rtranclp_trans registry_update registry_enable registry_disable_job registry_delete
      registry_add_as)

lemma registry_command:
  assumes "handle_command e c s = Some (stop, r, t)"
  shows "registry_steps (registry s) (registry t)"
  by (rule command_invariant [where I = "\<lambda>t. registry_steps (registry s) (registry t)", OF _ assms])
    (auto intro: registry_add registry_update registry_enable registry_disable_job registry_delete
      registry_reconcile registry_config)

lemma registry_batch: "registry_steps (registry s) (registry (handle_expired_batch e te ks s))"
proof (rule batch_invariant [where I = "\<lambda>t. registry_steps (registry s) (registry t)"])
  show "registry_steps (registry s) (registry t) = registry_steps (registry s) (registry u)"
    if "cores t = cores u" for t u
    using registry_cores [OF that] by simp
qed (auto intro: rtranclp_trans registry_disable)

lemma registry_dispatch: "registry (dispatch_ready e s) = registry s"
proof (rule dispatch_invariant [where I = "\<lambda>t. registry t = registry s"])
  show "registry (spawn_execution e p (t\<lparr>act_ready := q\<rparr>)) = registry s"
    if "registry t = registry s" for t p q
  proof (cases rule: spawn_cases [of e p "t\<lparr>act_ready := q\<rparr>"])
    case (started job u)
    then have "registry u = registry t"
      by (auto simp: registry_def fun_eq_iff option.map_comp comp_def)
    with started(3) that show ?thesis by simp
  qed (use that in simp)
qed simp_all

section \<open>The pending capacity\<close>

abbreviation pending :: "actor \<Rightarrow> nat" where
  "pending s \<equiv> rq_len (act_ready s)"

lemma rq_len_values: "rq_len q = length (rq_values q)"
  by (simp add: rq_len_def rq_values_def)

lemma remove_job_len: "rq_len (snd (remove_job j q)) \<le> rq_len q"
  by (simp add: rq_len_values remove_job_def ready_store.release_length)

lemma updated_ready_len: "rq_len (updated_ready j plan job q) \<le> rq_len q"
  using ready_store.release_length [of "\<lambda>p. pe_job_id p = j \<and> pe_kind p = PNormal"
      "migrate_job j (je_version job) (je_priority job) q"]
  by (simp add: updated_ready_def Let_def remove_job_len)
    (simp add: remove_normal_triggers_def rq_len_values migrate_values)

lemma pending_disable: "pending (snd (force_disable e j why s)) \<le> pending s"
  by (cases rule: force_disable_cases [of e j why s]) (simp_all add: remove_job_len)

lemma pending_management:
  "pending (snd (update_job e j v p s)) \<le> pending s" "pending (snd (enable_job e j v s)) \<le> pending s"
  "pending (snd (disable_job e j v why s)) \<le> pending s" "pending (snd (delete_job e j v c s)) \<le> pending s"
proof -
  show "pending (snd (update_job e j v p s)) \<le> pending s"
  proof (cases rule: update_cases [of e j v p s])
    case (updated plan old job u)
    have "act_ready (snd (update_job e j v p s)) = act_ready u" using updated(7) by auto
    then show ?thesis by (simp add: updated(5) updated_ready_len)
  qed simp
  show "pending (snd (enable_job e j v s)) \<le> pending s"
    by (cases rule: enable_cases [of e j v s]) (simp_all add: remove_job_len)
  show "pending (snd (disable_job e j v why s)) \<le> pending s"
    by (simp add: disable_job_state pending_disable split: sum.splits)
  show "pending (snd (delete_job e j v c s)) \<le> pending s"
    by (cases rule: delete_cases [of e j v c s]) (simp_all add: remove_job_len)
qed

lemma pending_command:
  assumes "handle_command e c s = Some (stop, r, t)"
  shows "pending t \<le> pending s"
proof (rule command_invariant [where I = "\<lambda>t. pending t \<le> pending s", OF _ assms])
  show "pending (snd (reconcile_jobs e plan s)) \<le> pending s" for plan
    by (rule reconcile_invariant [where I = "\<lambda>t. pending t \<le> pending s"])
      (auto intro: order_trans [OF pending_management(1)] order_trans [OF pending_management(2)]
        order_trans [OF pending_management(3)] order_trans [OF pending_management(4)])
  show "pending (snd (update_config e v p s)) \<le> pending s" for v p
    by (rule config_invariant [where I = "\<lambda>t. pending t \<le> pending s"])
      (auto intro: order_trans [OF pending_disable])
qed (simp_all add: pending_management add_job_frame)

lemma pending_completion: "pending (handle_completion e c s) \<le> pending s"
  by (rule completion_invariant [where I = "\<lambda>t. pending t \<le> pending s"])
    (auto intro: order_trans [OF pending_disable] order_trans [OF pending_management(4)])

lemma pending_dispatch: "pending (dispatch_ready e s) \<le> pending s"
proof (rule dispatch_invariant [where I = "\<lambda>t. pending t \<le> pending s"])
  show "pending (spawn_execution e p (t\<lparr>act_ready := q\<rparr>)) \<le> pending s"
    if "pending t \<le> pending s" "pop_dispatchable (dispatchable t) (act_ready t) = (Some p, q)" for t p q
    using that pop_Some_len_any [OF that(2)] by simp
  show "pending (t\<lparr>act_ready := q\<rparr>) \<le> pending s"
    if "pending t \<le> pending s" "pop_dispatchable (dispatchable t) (act_ready t) = (None, q)" for t q
    using that pop_None_values [OF that(2)] by (simp add: rq_len_values)
qed simp

lemma pending_timer:
  assumes "rq_inv (act_ready s)"
  shows "pending (handle_timer e b t s) \<le> max (pending s) (global_max_pending (act_config s))"
proof -
  let ?u = "s\<lparr>act_jobs := modify (te_job_id t)
      (\<lambda>job. job\<lparr>je_normal_timer_key := None, je_next_run_at := None\<rparr>) (act_jobs s)\<rparr>"
  have normal: "pending (handle_normal_trigger e j at b rn ?u) \<le>
      max (pending s) (global_max_pending (act_config s))" for j at rn
  proof (cases rule: handle_normal_cases [of ?u j e at b rn])
    case (disabled job err)
    then show ?thesis using pending_disable [of e j "ErrorText err" ?u] by simp
  next
    case (admitted job mk once ts t' u)
    have "act_ready t' = act_ready s" "act_config t' = act_config s" using admitted(3) by auto
    then have "pending u \<le> max (pending s) (global_max_pending (act_config s))"
      unfolding admitted(4) using admit_occurrences_len [of t' e mk once ts] assms by simp
    then show ?thesis using admitted(5) by auto
  qed simp
  have retry: "pending (snd (admit e p True (s\<lparr>act_retry_timers := x\<rparr>))) \<le>
      max (pending s) (global_max_pending (act_config s))" for p x
    using admit_bounds(1) [of "s\<lparr>act_retry_timers := x\<rparr>" e p True] assms by simp
  show ?thesis
    by (simp add: handle_timer_def normal retry split: option.splits timer_kind.splits)
qed

lemma pending_batch:
  assumes "rq_inv (act_ready s)"
  shows "pending (handle_expired_batch e te ks s) \<le> max (pending s) (global_max_pending (act_config s))"
proof -
  let ?I = "\<lambda>t. rq_inv (act_ready t) \<and> act_config t = act_config s \<and>
    pending t \<le> max (pending s) (global_max_pending (act_config s))"
  have timer: "?I (handle_timer e b t u)" if "?I u" for b t u
    using that pending_timer [of u e b t] by (auto simp: ready_inv_timers)
  have "?I (fold (handle_timer e b) ts u)" if "?I u" for b ts u
    using that by (induction ts arbitrary: u) (simp_all add: timer del: handle_timer_frame)
  from this [OF timer, of "snd (take_expired (due_batch_size (act_config s) - 1) ks
      (s\<lparr>act_batch_sequence := act_batch_sequence s + 1\<rparr>))"] assms
  show ?thesis by (simp add: handle_expired_batch_def Let_def case_prod_beta)
qed

lemma pending_receive:
  assumes "rq_inv (act_ready s)" and "receive e i s = Some (stop, t)"
  shows "pending t \<le> max (pending s) (global_max_pending (act_config s))"
proof (cases i)
  case (InCommand c)
  with assms(2) pending_command [of e c s] show ?thesis
    by (auto simp: receive_def le_max_iff_disj split: option.splits)
next
  case (InCompletion n d out)
  then obtain c x y where "t = handle_completion e c (s\<lparr>act_tasks := x, act_cancelled := y\<rparr>)"
    using assms(2) by (auto simp: receive_def Let_def)
  with pending_completion [of e c "s\<lparr>act_tasks := x, act_cancelled := y\<rparr>"] show ?thesis
    by (simp add: le_max_iff_disj)
next
  case (InExpired k ks)
  with assms show ?thesis
    using pending_batch [of "s\<lparr>act_timers := AList.delete k (act_timers s)\<rparr>" e _ ks]
    by (auto simp: receive_def split: option.splits)
qed (use assms(2) in \<open>auto simp: receive_def\<close>)

lemma pending_prepare:
  "pending (prepare e s) \<le> max (pending s) (global_max_pending (act_config s))"
  using order_trans [OF pending_dispatch restore_len] by (simp add: prepare_def)

section \<open>Reachable states\<close>

lemma valid_receive:
  assumes "validate_config (act_config s) = Inr ()" and "receive e i s = Some (stop, t)"
  shows "validate_config (act_config t) = Inr ()"
proof (cases i)
  case (InCommand c)
  have "validate_config (act_config (snd (update_config e v p s))) = Inr ()" for v p
    using assms(1) by (simp add: update_config_def Let_def split: sum.splits option.splits)
  then have "validate_config (act_config u) = Inr ()" if "handle_command e c s = Some (b, r, u)" for b r u
    by (intro command_invariant [where I = "\<lambda>u. validate_config (act_config u) = Inr ()", OF _ that])
      (simp_all add: assms(1) add_job_frame)
  with InCommand assms(2) show ?thesis by (auto simp: receive_def split: option.splits)
qed (use assms in \<open>auto simp: receive_def Let_def split: option.splits\<close>)

lemma turn_invariant:
  assumes "loop_step e i s stop t" and "actor_ok s" and "slots_ok s" and "validate_config (act_config s) = Inr ()"
  shows "actor_ok t" and "slots_ok t" and "validate_config (act_config t) = Inr ()"
proof -
  from assms(1) have turn: "possible e i (prepare e s)" "receive e i (prepare e s) = Some (stop, t)"
    by (auto elim: loop_stepE)
  show "actor_ok t" by (rule actor_ok_receive [OF actor_ok_prepare [OF assms(2)] turn(2)])
  show "slots_ok t" by (rule slots_receive(1) [OF slots_prepare(1) [OF assms(3,2)] turn])
  show "validate_config (act_config t) = Inr ()"
    by (rule valid_receive [OF _ turn(2)]) (simp add: prepare_def assms(4))
qed

lemma reachable_ok:
  assumes "reachable E c s"
  shows "actor_ok s \<and> slots_ok s \<and> validate_config (act_config s) = Inr ()"
  using assms
proof (induction rule: reachable.induct)
  case (start e)
  have "actor_ok (actor_new c)"
    by (simp add: actor_ok_def jobs_ok_def versions_ok_def actor_new_def job_blocked_def rq_new_simps)
      (simp add: rq_values_def rq_new_def)
  with start show ?case by (simp add: actor_start_def slots_ok_def) (simp add: actor_new_def)
next
  case (turn s e i s')
  then show ?case using turn_invariant [OF turn.hyps(3)] by blast
qed

lemma reachable_extends:
  assumes "reachable E c s"
  shows "extends (actor_new c) s"
  using assms
  by (induction rule: reachable.induct)
    (auto simp: actor_start_def intro: event_facts extends_trans [OF _ extends_turn])

lemma restore_job_idle:
  assumes "map_of (act_jobs s) j = Some job" and "je_blocked job = []"
  shows "restore_job e j s = s"
proof -
  have "restore_loop e j lim None s = (None, s)" for lim
    using assms by (subst restore_loop.simps) simp
  then show ?thesis using assms by (simp add: restore_job_def)
qed

lemma restore_blocked_idle:
  assumes "\<And>j job. map_of (act_jobs s) j = Some job \<Longrightarrow> je_blocked job = []"
  shows "restore_blocked e s = s"
proof -
  have "restore_job e j s = s" for j
    using restore_job_idle [of s j] assms by (cases "map_of (act_jobs s) j") (auto simp: restore_job_def)
  then have "fold (restore_job e) js s = s" for js by (induction js) simp_all
  then show ?thesis by (simp add: restore_blocked_def)
qed

lemma sample_prepare: "prepare sample_env sample_actor = sample_actor"
proof -
  have "restore_blocked sample_env sample_actor = sample_actor"
    by (rule restore_blocked_idle) (auto simp: sample_job_def split: if_splits)
  then show ?thesis
    by (simp add: prepare_def) (subst dispatch_ready.simps, simp add: rq_is_empty_def rq_new_def)
qed

lemma sample_delete_turn:
  "loop_step sample_env (InCommand (CmdDelete 1 1)) sample_actor False
     (snd (delete_job sample_env 1 1 True sample_actor))"
proof (rule loop_step.turn)
  show "receive sample_env (InCommand (CmdDelete 1 1)) (prepare sample_env sample_actor) =
      Some (False, snd (delete_job sample_env 1 1 True sample_actor))"
    by (simp add: sample_prepare receive_def handle_command_def case_prod_beta)
  show "\<not> act_panicked (snd (delete_job sample_env 1 1 True sample_actor))"
    by simp (simp add: sample_actor_def actor_new_def)
qed (simp add: possible_def)

section \<open>Properties\<close>







text \<open>
  C3: in every reachable state the Job table, the queue and the slots agree. Job identifiers
  are unique and name their entries, every execution in the ready queue belongs to a Job
  that exists and carries its version, what is held back with a Job is its own, every
  running wrapper holds a global slot, and the configuration in force is valid.
\<close>

theorem reachable_invariant:
  assumes "reachable E c s"
  shows "distinct (map fst (act_jobs s)) \<and>
    (\<forall>j job. map_of (act_jobs s) j = Some job \<longrightarrow> je_id job = j) \<and>
    rq_inv (act_ready s) \<and>
    (\<forall>p \<in> set (rq_values (act_ready s)). \<exists>job. map_of (act_jobs s) (pe_job_id p) = Some job \<and>
      je_version job = pe_version p) \<and>
    (\<forall>j job. map_of (act_jobs s) j = Some job \<longrightarrow> (\<forall>p \<in> set (je_blocked job). pe_job_id p = j)) \<and>
    length (act_tasks s) \<le> act_total_running s \<and> validate_config (act_config s) = Inr ()"
proof -
  from reachable_ok [OF assms] have ok: "actor_ok s" "slots_ok s" "validate_config (act_config s) = Inr ()"
    by blast+
  have "\<forall>p \<in> set (rq_values (act_ready s)). \<exists>job. map_of (act_jobs s) (pe_job_id p) = Some job \<and>
      je_version job = pe_version p"
    using ok(1) by (auto simp: actor_ok_def versions_ok_def job_version_def)
  moreover have "\<forall>p \<in> set (je_blocked job). pe_job_id p = j" if "map_of (act_jobs s) j = Some job" for j job
    using ok(1) that by (auto simp: actor_ok_def versions_ok_def job_blocked_def split: option.splits)
  ultimately show ?thesis using ok by (simp add: actor_ok_def jobs_ok_def slots_ok_def)
qed

lemma sample_start: "reachable (\<lambda>e. e = sample_env) (default_config 1) (actor_start sample_env (default_config 1))"
  by (rule reachable.start)
    (simp_all add: validate_config_def config_typed_def default_config_def millis_def secs_def
      usize_saturating_mul_def usize_max_def)

theorem reachable_invariant_witness:
  "distinct (map fst (act_jobs (actor_start sample_env (default_config 1)))) \<and>
   validate_config (act_config (actor_start sample_env (default_config 1))) = Inr ()"
  using reachable_invariant [OF sample_start] by blast

text \<open>
  C11: the events are numbered without a gap. In every reachable state the events emitted so
  far carry the numbers 1, 2, 3 and so on in the order of their emission (modulo the width of
  the counter), and a turn only appends to them.
\<close>

theorem events_numbered:
  assumes "reachable E c s"
  shows "map ev_sequence (act_events s) = map (\<lambda>n. of_nat (Suc n)) [0 ..< length (act_events s)] \<and>
    (\<forall>e i stop t. loop_step e i s stop t \<longrightarrow> (\<exists>new. act_events t = act_events s @ new))"
proof -
  have "\<exists>new. act_events t = act_events s @ new" if "loop_step e i s stop t" for e i stop t
    using extends_turn [OF that] by (auto simp: extends_def)
  with reachable_extends [OF assms] show ?thesis
    by (auto simp: extends_def actor_new_def)
qed

theorem events_numbered_witness:
  "map ev_sequence (act_events (actor_start sample_env (default_config 1))) = [1]"
proof -
  have "length (act_events (actor_start sample_env (default_config 1))) = 1"
    by (simp add: actor_start_def emit_def actor_new_def)
  with events_numbered [OF sample_start] show ?thesis by simp
qed

text \<open>
  C1: a turn keeps the limits. From a reachable state, whatever the input, the executions
  that run afterwards, with the slots that are taken, stay at the global concurrency limit
  at most, or at the number of slots taken before if the limit has since been lowered; and
  the ready queue stays at the global pending limit at most, or at its length before.
\<close>

theorem turn_respects_limits:
  assumes "reachable E c s" and "loop_step e i s stop t"
  shows "length (act_tasks t) \<le> act_total_running t \<and>
    act_total_running t \<le> max (act_total_running s) (global_concurrency (act_config s)) \<and>
    rq_len (act_ready t) \<le> max (rq_len (act_ready s)) (global_max_pending (act_config s))"
proof -
  from reachable_ok [OF assms(1)] have ok: "actor_ok s" "slots_ok s" by blast+
  from assms(2) have turn: "possible e i (prepare e s)" "receive e i (prepare e s) = Some (stop, t)"
    by (auto elim: loop_stepE)
  note prep = slots_prepare [OF ok(2,1), of e]
  have "rq_inv (act_ready (prepare e s))"
    using actor_ok_prepare [OF ok(1)] by (simp add: actor_ok_def)
  from pending_receive [OF this turn(2)] pending_prepare [of e s]
  have "rq_len (act_ready t) \<le> max (rq_len (act_ready s)) (global_max_pending (act_config s))"
    by (simp add: prepare_def)
  moreover note slots_receive [OF prep(1) turn]
  ultimately show ?thesis using prep(2) by (simp add: slots_ok_def)
qed

lemma sample_start_turn:
  "loop_step sample_env InMaintenance (actor_start sample_env (default_config 1)) False
     (actor_start sample_env (default_config 1))"
proof (rule loop_step.turn)
  let ?s = "actor_start sample_env (default_config 1)"
  have jobs: "act_jobs ?s = []" "act_ready ?s = rq_new" "act_retry_timers ?s = []"
    by (simp_all add: actor_start_def) (simp_all add: actor_new_def)
  have "restore_blocked sample_env ?s = ?s" by (rule restore_blocked_idle) (unfold jobs, simp)
  then have "prepare sample_env ?s = ?s"
    by (simp only: prepare_def) (subst dispatch_ready.simps, unfold jobs, simp add: rq_is_empty_def rq_new_def)
  then show "receive sample_env InMaintenance (prepare sample_env ?s) = Some (False, ?s)"
    by (simp only: receive_def input.case reanchor_timers_def jobs list.map fold_simps)
  show "\<not> act_panicked ?s" by (simp add: actor_start_def) (simp add: actor_new_def)
qed (simp add: possible_def)

theorem turn_respects_limits_witness:
  "let s = actor_start sample_env (default_config 1)
   in length (act_tasks s) \<le> act_total_running s \<and>
      act_total_running s \<le> max (act_total_running s) (global_concurrency (act_config s)) \<and>
      rq_len (act_ready s) \<le> max (rq_len (act_ready s)) (global_max_pending (act_config s))"
  unfolding Let_def by (rule turn_respects_limits [OF sample_start sample_start_turn])


lemma take_expired_Nil [simp]: "take_expired n [] s = ([], s)"
  by (cases n) simp_all

lemma dispatch_single:
  assumes "rq_inv (act_ready s)" and "rq_indexed (act_ready s)" and "set (rq_values (act_ready s)) = {p}"
    and "dispatchable s p" and "act_total_running s < global_concurrency (act_config s)"
  shows "\<exists>q. rq_values q = [] \<and> dispatch_ready e s = spawn_execution e p (s\<lparr>act_ready := q\<rparr>)"
proof -
  obtain r q where pop: "pop_dispatchable (dispatchable s) (act_ready s) = (r, q)"
    by (cases "pop_dispatchable (dispatchable s) (act_ready s)")
  have "r \<noteq> None"
    using pop_None_blocked [OF assms(1,2), of "dispatchable s" q p] pop assms(3,4) by auto
  then obtain p' where r: "r = Some p'" by blast
  with pop ready_store.pop_Some [OF assms(1), of "dispatchable s" p' q] assms(3)
  have p': "p' = p" and q: "rq_values q = []" by auto
  have "\<not> rq_is_empty (act_ready s)" using assms(3) by (auto simp: rq_is_empty_def rq_values_def)
  then have "dispatch_ready e s = dispatch_ready e (spawn_execution e p (s\<lparr>act_ready := q\<rparr>))"
    using assms(5) pop r p' by (subst dispatch_ready.simps) simp
  also have "\<dots> = spawn_execution e p (s\<lparr>act_ready := q\<rparr>)"
    using q by (subst dispatch_ready.simps) (simp add: rq_is_empty_def rq_values_def)
  finally show ?thesis using q by blast
qed


definition sample_once :: actor where
  "sample_once = sample_actor\<lparr>act_jobs := [(1, (sample_job 1)\<lparr>je_trigger := trigger_once 0\<rparr>)],
     act_timers := [(1, \<lparr>te_job_id = 1, te_version = 1, te_run_at = 0, te_kind = TimerNormal\<rparr>, 0)]\<rparr>"


end
