(* ===== verification/Actions.thy ===== *)
theory Actions
  imports Prelude
begin

text \<open>
  Calls that change a world and may fail, as the code chains them with \<open>?\<close> and \<open>map_err\<close>, and
  the rules by which the clients prove what a chain of calls leaves behind.
\<close>

section \<open>Actions on the world\<close>

type_synonym ('w, 'e, 'a) action = "'w \<Rightarrow> ('e + 'a) \<times> 'w"

definition return_ok :: "'a \<Rightarrow> ('w, 'e, 'a) action" where
  "return_ok x w = (Inr x, w)"

definition fail_with :: "'e \<Rightarrow> ('w, 'e, 'a) action" where
  "fail_with err w = (Inl err, w)"

definition and_do :: "('w, 'e, 'a) action \<Rightarrow> ('a \<Rightarrow> ('w, 'e, 'b) action) \<Rightarrow> ('w, 'e, 'b) action" where
  "and_do m f w = (case m w of (Inl err, w') \<Rightarrow> (Inl err, w') | (Inr x, w') \<Rightarrow> f x w')"

definition map_err :: "('e \<Rightarrow> 'd) \<Rightarrow> ('w, 'e, 'a) action \<Rightarrow> ('w, 'd, 'a) action" where
  "map_err g m w = (case m w of (Inl err, w') \<Rightarrow> (Inl (g err), w') | (Inr x, w') \<Rightarrow> (Inr x, w'))"

definition of_result :: "('e + 'a) \<Rightarrow> ('w, 'e, 'a) action" where
  "of_result r w = (r, w)"

section \<open>Rules\<close>

text \<open>From a world with \<open>P\<close> an action returns with \<open>Q\<close> or fails with \<open>E\<close>.\<close>

definition triple ::
  "('w \<Rightarrow> bool) \<Rightarrow> ('w, 'e, 'a) action \<Rightarrow> ('a \<Rightarrow> 'w \<Rightarrow> bool) \<Rightarrow> ('e \<Rightarrow> 'w \<Rightarrow> bool) \<Rightarrow> bool" where
  "triple P m Q E \<longleftrightarrow> (\<forall>w. P w \<longrightarrow> (case m w of (Inr x, w') \<Rightarrow> Q x w' | (Inl err, w') \<Rightarrow> E err w'))"

lemma tripleD: "triple P m Q E \<Longrightarrow> P w \<Longrightarrow> (case m w of (Inr x, w') \<Rightarrow> Q x w' | (Inl err, w') \<Rightarrow> E err w')"
  by (simp add: triple_def)

lemma triple_and_do:
  assumes "triple P m R E" and "\<And>x. triple (R x) (f x) Q E"
  shows "triple P (and_do m f) Q E"
  unfolding triple_def
proof (intro allI impI)
  fix w assume "P w"
  obtain r w' where m: "m w = (r, w')" by fastforce
  show "case and_do m f w of (Inr x, w') \<Rightarrow> Q x w' | (Inl err, w') \<Rightarrow> E err w'"
    using tripleD [OF assms(1) \<open>P w\<close>] tripleD [OF assms(2), of _ w'] m
    by (cases r) (simp_all add: and_do_def)
qed

lemma triple_map_err: "triple P m Q (\<lambda>err. E (g err)) \<Longrightarrow> triple P (map_err g m) Q E"
  by (auto simp: triple_def map_err_def split: prod.splits sum.splits)

lemma triple_return: "(\<And>w. P w \<Longrightarrow> Q x w) \<Longrightarrow> triple P (return_ok x) Q E"
  by (simp add: triple_def return_ok_def)

lemma triple_of_result: "(\<And>w. P w \<Longrightarrow> r = Inr x \<and> Q x w) \<Longrightarrow> triple P (of_result r) Q E"
  by (auto simp: triple_def of_result_def)

lemma triple_pre: "triple P' m Q E \<Longrightarrow> (\<And>w. P w \<Longrightarrow> P' w) \<Longrightarrow> triple P m Q E"
  by (simp add: triple_def)

lemma triple_weaken:
  assumes "triple P m Q E" "\<And>x w. Q x w \<Longrightarrow> Q' x w" "\<And>err w. E err w \<Longrightarrow> E' err w"
  shows "triple P m Q' E'"
  using assms by (fastforce simp: triple_def split: prod.splits sum.splits)

lemma map_sum_Inr: "map_sum f id (Inr x) = Inr x"
  by simp

lemma and_do_result: "and_do (of_result (Inr x)) f = f x"
  by (auto simp: and_do_def of_result_def)

lemma triple_fact: "(\<And>w. P w \<Longrightarrow> X) \<Longrightarrow> (X \<Longrightarrow> triple P m Q E) \<Longrightarrow> triple P m Q E"
  by (auto simp: triple_def)

lemma triple_never: "triple P m (\<lambda>_ _. False) E \<Longrightarrow> triple P (and_do m f) Q E"
  by (fastforce simp: triple_def and_do_def split: prod.splits sum.splits)

lemma and_do_error: "and_do (of_result (Inl err)) f = fail_with err"
  by (auto simp: and_do_def of_result_def fail_with_def)

lemma triple_fail: "(\<And>w. P w \<Longrightarrow> E err w) \<Longrightarrow> triple P (fail_with err) Q E"
  by (simp add: triple_def fail_with_def)

end
