(* ===== verification/Remote_Jobs.thy ===== *)
theory Remote_Jobs
  imports Remote_Policy Sched_Actor Actions
begin

text \<open>
  The controller of remote Jobs (\<open>smalux-agent/src/remote_jobs.rs\<close>): the commands of the Server
  (\<open>job/command.proto\<close>) applied to the scheduler, an index of the Jobs the Server owns with the
  version each has in the scheduler, the results of past commands, the local policy and the
  pausing of plugins. The controller calls the scheduler through the record \<open>scheduler_calls\<close>;
  what it relies on is the locale \<open>scheduler_registry\<close>, and \<open>Remote_Host\<close> interprets it on the
  Actor.
\<close>

section \<open>Commands and results\<close>

record 'c replace_all_jobs =
  rx_catalog_revision :: u64
  rx_jobs :: "'c job_definition list"

record 'c upsert_job =
  ux_catalog_revision :: u64
  ux_job :: "'c job_definition option"

record remove_job_command =
  dx_catalog_revision :: u64
  dx_job_id :: "u8 list"
  dx_expected_revision :: u64

record run_job_now =
  nx_job_id :: "u8 list"
  nx_expected_revision :: u64

datatype 'c command_action =
    ActReplaceAll "'c replace_all_jobs"
  | ActUpsert "'c upsert_job"
  | ActDelete remove_job_command
  | ActRunNow run_job_now

record 'c job_command =
  jc_command_id :: "u8 list"
  jc_action :: "'c command_action option"

datatype command_status = Applied | Rejected | ResyncRequired

datatype command_code =
    InvalidCommand | InvalidJob | NotFound | RevisionConflict | OwnershipConflict
  | CapacityExceeded | SchedulerUnavailable | LocalPolicyDenied

datatype control_text =
    ControlText string
  | ControlCompile compile_fault
  | ControlScheduler scheduler_error
  | ControlDenied policy_denial
  | ControlGeneration job_id u64 u64
  | ControlMissing job_id
  | ControlOwned job_id
  | ControlCapacity nat nat

record control_error =
  ce_status :: command_status
  ce_code :: command_code
  ce_text :: control_text

datatype runtime_state = StateEnabled | StateCompleted | StateDisabled

record job_status =
  js_job_id :: "u8 list"
  js_revision :: u64
  js_task_kind :: string
  js_state :: runtime_state
  js_disabled_reason :: reason
  js_concurrency :: u32
  js_max_pending :: u32
  js_running_count :: u32
  js_pending_count :: u32
  js_consecutive_failures :: u32
  js_next_run_at :: "wire_timestamp option"
  js_last_started_at :: "wire_timestamp option"
  js_last_finished_at :: "wire_timestamp option"
  js_last_outcome :: string
  js_created_at :: "wire_timestamp option"
  js_updated_at :: "wire_timestamp option"

record job_command_result =
  jr_command_id :: "u8 list"
  jr_status :: command_status
  jr_catalog_revision :: u64
  jr_job :: "job_status option"
  jr_error :: "(command_code \<times> control_text) option"

definition rejected :: "command_code \<Rightarrow> control_text \<Rightarrow> control_error" where
  "rejected code text = \<lparr>ce_status = Rejected, ce_code = code, ce_text = text\<rparr>"

definition resync :: "control_text \<Rightarrow> control_error" where
  "resync text = \<lparr>ce_status = ResyncRequired, ce_code = RevisionConflict, ce_text = text\<rparr>"

definition scheduler_error :: "scheduler_error \<Rightarrow> control_error" where
  "scheduler_error err =
     rejected
       (case err of
          JobNotFound _ \<Rightarrow> NotFound
        | JobAlreadyExists _ \<Rightarrow> OwnershipConflict
        | VersionConflict _ _ _ \<Rightarrow> RevisionConflict
        | MaximumJobsReached _ \<Rightarrow> CapacityExceeded
        | _ \<Rightarrow> SchedulerUnavailable)
       (ControlScheduler err)"

definition invalid_job :: "string \<Rightarrow> control_error" where
  "invalid_job message = rejected InvalidJob (ControlText message)"

definition local_policy_error :: "policy_denial \<Rightarrow> control_error" where
  "local_policy_error denial = rejected LocalPolicyDenied (ControlDenied denial)"

definition command_error :: "u8 list \<Rightarrow> u64 \<Rightarrow> control_error \<Rightarrow> job_command_result" where
  "command_error i revision err =
     \<lparr>jr_command_id = i, jr_status = ce_status err, jr_catalog_revision = revision, jr_job = None,
      jr_error = Some (ce_code err, ce_text err)\<rparr>"

section \<open>State of the controller\<close>

record 'c managed_job =
  mj_definition :: "'c job_definition"
  mj_revision :: u64
  mj_generation :: u64
  mj_task_kind :: string
  mj_plugin :: "(string \<times> string) option"

record 'c controller_state =
  ct_catalog_revision :: u64
  ct_remote_jobs :: "(job_id \<times> 'c managed_job) list"
  ct_cached_results :: "(uuid \<times> job_command_result) list"
  ct_cache_order :: "uuid list"
  ct_paused_plugins :: "(string \<times> string) list"

definition controller_default :: "'c controller_state" where
  "controller_default =
     \<lparr>ct_catalog_revision = 0, ct_remote_jobs = [], ct_cached_results = [], ct_cache_order = [],
      ct_paused_plugins = []\<rparr>"

text \<open>The scheduler handle: each call is one request to the Actor and its answer.\<close>

record 'w scheduler_calls =
  sc_install :: "job_id \<Rightarrow> u64 \<Rightarrow> bool \<Rightarrow> trigger \<Rightarrow> task_binding \<Rightarrow> job_options
    \<Rightarrow> ('w, scheduler_error, job_id) action"
  sc_update :: "job_id \<Rightarrow> u64 \<Rightarrow> job_patch \<Rightarrow> ('w, scheduler_error, job_snapshot) action"
  sc_get :: "job_id \<Rightarrow> ('w, scheduler_error, job_snapshot option) action"
  sc_list :: "('w, scheduler_error, job_snapshot list) action"
  sc_enable :: "job_id \<Rightarrow> u64 \<Rightarrow> ('w, scheduler_error, job_snapshot) action"
  sc_disable :: "job_id \<Rightarrow> u64 \<Rightarrow> string \<Rightarrow> ('w, scheduler_error, job_snapshot) action"
  sc_delete :: "job_id \<Rightarrow> u64 \<Rightarrow> ('w, scheduler_error, unit) action"
  sc_reconcile :: "reconcile_plan \<Rightarrow> ('w, scheduler_error, job_snapshot list) action"
  sc_get_config :: "('w, scheduler_error, u64 \<times> scheduler_config) action"

record ('c, 'w) controller =
  rc_scheduler :: 'w
  rc_state :: "'c controller_state"
  rc_policy :: policy_manager

definition controller_new :: "'w \<Rightarrow> policy_manager \<Rightarrow> ('c, 'w) controller" where
  "controller_new w m = \<lparr>rc_scheduler = w, rc_state = controller_default, rc_policy = m\<rparr>"

definition on_scheduler ::
  "('w, 'e, 'a) action \<Rightarrow> (('c, 'w) controller, 'e, 'a) action" where
  "on_scheduler m c = (case m (rc_scheduler c) of (r, w) \<Rightarrow> (r, c\<lparr>rc_scheduler := w\<rparr>))"

definition request ::
  "('w, scheduler_error, 'a) action \<Rightarrow> (('c, 'w) controller, control_error, 'a) action" where
  "request m = map_err scheduler_error (on_scheduler m)"

definition change_state ::
  "('c controller_state \<Rightarrow> 'c controller_state) \<Rightarrow> (('c, 'w) controller, 'e, unit) action" where
  "change_state f c = (Inr (), c\<lparr>rc_state := f (rc_state c)\<rparr>)"

section \<open>Helpers\<close>

definition full_patch :: "trigger \<Rightarrow> task_binding \<Rightarrow> job_options \<Rightarrow> job_patch" where
  "full_patch trigger task opts =
     \<lparr>jp_task = Some task, jp_trigger = Some trigger,
      jp_concurrency = (case opt_concurrency opts of Some n \<Rightarrow> Set n | None \<Rightarrow> Inherit),
      jp_max_pending = (case opt_max_pending opts of Some n \<Rightarrow> Set n | None \<Rightarrow> Inherit),
      jp_priority = Some (opt_priority opts), jp_coalescing = opt_coalescing opts,
      jp_capacity = opt_capacity opts, jp_retry = Some (opt_retry opts),
      jp_failure = Some (opt_failure opts), jp_reschedule = Recalculate\<rparr>"

definition set_enabled ::
  "'w scheduler_calls \<Rightarrow> job_snapshot \<Rightarrow> bool \<Rightarrow> ('w, scheduler_error, job_snapshot) action" where
  "set_enabled calls sn en =
     (case (en, sn_state sn) of
        (True, Enabled) \<Rightarrow> return_ok sn
      | (False, Disabled _) \<Rightarrow> return_ok sn
      | (True, _) \<Rightarrow> sc_enable calls (sn_id sn) (sn_version sn)
      | (False, _) \<Rightarrow> sc_disable calls (sn_id sn) (sn_version sn) ''disabled by job definition'')"

text \<open>The addition is that of the machine: it wraps in a build without overflow checks.\<close>

definition require_next_catalog :: "'c controller_state \<Rightarrow> u64 \<Rightarrow> control_error + unit" where
  "require_next_catalog st revision =
     (if revision \<noteq> ct_catalog_revision st + 1
      then Inl (resync (ControlText ''catalog revision must be exactly current + 1'')) else Inr ())"

definition require_replace_all_catalog :: "'c controller_state \<Rightarrow> u64 \<Rightarrow> control_error + unit" where
  "require_replace_all_catalog st revision =
     (if revision = 0 \<or> revision < ct_catalog_revision st
      then Inl (rejected RevisionConflict (ControlText
        ''replace-all catalog revision must be positive and not older than current''))
      else Inr ())"

definition cache_capacity :: nat where
  "cache_capacity = 1024"

text \<open>\<open>while cache_order.len() > CACHE_CAPACITY\<close>: drops from the front.\<close>

fun evict :: "uuid list \<Rightarrow> (uuid \<times> job_command_result) list \<Rightarrow> uuid list \<times> (uuid \<times> job_command_result) list" where
  "evict [] results = ([], results)"
| "evict (expired # order) results =
     (if cache_capacity < length (expired # order) then evict order (AList.delete expired results)
      else (expired # order, results))"

definition cache_result :: "uuid \<Rightarrow> job_command_result \<Rightarrow> 'c controller_state \<Rightarrow> 'c controller_state" where
  "cache_result i result st =
     (case evict (ct_cache_order st @ [i]) (AList.update i result (ct_cached_results st)) of
        (order, results) \<Rightarrow> st\<lparr>ct_cached_results := results, ct_cache_order := order\<rparr>)"

definition should_cache_result :: "job_command_result \<Rightarrow> bool" where
  "should_cache_result result =
     (case jr_error result of
        None \<Rightarrow> True
      | Some (code, _) \<Rightarrow> code \<noteq> SchedulerUnavailable \<and> code \<noteq> CapacityExceeded)"

definition bytes_of_uuid :: "uuid \<Rightarrow> u8 list" where
  "bytes_of_uuid u = map (\<lambda>i. ucast (drop_bit (8 * (15 - i)) u)) [0..<16]"

definition saturate_u32 :: "nat \<Rightarrow> u32" where
  "saturate_u32 n = (if n < 2 ^ 32 then of_nat n else - 1)"

definition timestamp_proto :: "time \<Rightarrow> wire_timestamp" where
  "timestamp_proto t = \<lparr>ts_seconds = word_of_int (t div nanos_per_sec), ts_nanos = word_of_int (t mod nanos_per_sec)\<rparr>"

definition job_status_of :: "job_snapshot \<Rightarrow> u64 \<Rightarrow> job_status" where
  "job_status_of sn revision =
     \<lparr>js_job_id = bytes_of_uuid (sn_id sn), js_revision = revision, js_task_kind = sn_task_kind sn,
      js_state = (case sn_state sn of
        Enabled \<Rightarrow> StateEnabled | Completed \<Rightarrow> StateCompleted | Disabled _ \<Rightarrow> StateDisabled),
      js_disabled_reason = (case sn_state sn of Disabled why \<Rightarrow> why | _ \<Rightarrow> Reason []),
      js_concurrency = saturate_u32 (sn_concurrency sn),
      js_max_pending = saturate_u32 (sn_max_pending sn),
      js_running_count = saturate_u32 (sn_running_count sn),
      js_pending_count = saturate_u32 (sn_pending_count sn),
      js_consecutive_failures = sn_consecutive_failures sn,
      js_next_run_at = map_option timestamp_proto (sn_next_run_at sn),
      js_last_started_at = map_option timestamp_proto (sn_last_started_at sn),
      js_last_finished_at = map_option timestamp_proto (sn_last_finished_at sn),
      js_last_outcome = (case sn_last_outcome sn of Some s \<Rightarrow> s | None \<Rightarrow> []),
      js_created_at = Some (timestamp_proto (sn_created_at sn)),
      js_updated_at = Some (timestamp_proto (sn_updated_at sn))\<rparr>"


section \<open>The commands\<close>

definition managed_of :: "'c compiled_job \<Rightarrow> u64 \<Rightarrow> 'c managed_job" where
  "managed_of compiled generation =
     \<lparr>mj_definition = cj_definition compiled, mj_revision = cj_revision compiled,
      mj_generation = generation, mj_task_kind = cj_task_kind compiled, mj_plugin = cj_plugin compiled\<rparr>"

definition upsert_compiled ::
  "'w scheduler_calls \<Rightarrow> 'c compiled_job \<Rightarrow> bool \<Rightarrow> (('c, 'w) controller, control_error, job_status) action" where
  "upsert_compiled calls compiled require_increase =
     and_do
       (\<lambda>c. (case map_of (ct_remote_jobs (rc_state c)) (cj_id compiled) of
          Some current \<Rightarrow>
            if cj_revision compiled < mj_revision current
               \<or> require_increase \<and> cj_revision compiled = mj_revision current
            then fail_with (rejected RevisionConflict (ControlText ''job revision must increase''))
            else
              and_do (request (sc_update calls (cj_id compiled) (mj_generation current)
                  (full_patch (cj_trigger compiled) (cj_task compiled) (cj_options compiled))))
                (\<lambda>sn. request (set_enabled calls sn (cj_enabled compiled)))
        | None \<Rightarrow>
            and_do (request (sc_install calls (cj_id compiled) 1 (cj_enabled compiled)
                (cj_trigger compiled) (cj_task compiled) (cj_options compiled)))
              (\<lambda>_. and_do (request (sc_get calls (cj_id compiled)))
                (\<lambda>found. case found of
                   Some sn \<Rightarrow> return_ok sn
                 | None \<Rightarrow> fail_with (rejected SchedulerUnavailable
                     (ControlText ''installed job is missing''))))) c)
       (\<lambda>sn. and_do
          (change_state (\<lambda>st. st\<lparr>ct_remote_jobs := AList.update (cj_id compiled)
             (managed_of compiled (sn_version sn)) (ct_remote_jobs st)\<rparr>))
          (\<lambda>_. return_ok (job_status_of sn (cj_revision compiled))))"

definition set_catalog :: "u64 \<Rightarrow> (('c, 'w) controller, 'e, unit) action" where
  "set_catalog revision = change_state (\<lambda>st. st\<lparr>ct_catalog_revision := revision\<rparr>)"

definition upsert ::
  "'c task_factory \<Rightarrow> 'w scheduler_calls \<Rightarrow> 'c upsert_job
   \<Rightarrow> (('c, 'w) controller, control_error, job_status option) action" where
  "upsert f calls cmd c =
     (case require_next_catalog (rc_state c) (ux_catalog_revision cmd) of
        Inl err \<Rightarrow> (Inl err, c)
      | Inr _ \<Rightarrow>
     (case ux_job cmd of
        None \<Rightarrow> (Inl (invalid_job ''upsert job is required''), c)
      | Some definition \<Rightarrow>
     (case check_definition (pm_policy (rc_policy c)) definition of
        Inl denial \<Rightarrow> (Inl (local_policy_error denial), c)
      | Inr _ \<Rightarrow>
     (case compile_job f definition of
        Inl err \<Rightarrow> (Inl (rejected InvalidJob (ControlCompile err)), c)
      | Inr compiled \<Rightarrow>
          and_do (upsert_compiled calls compiled True)
            (\<lambda>status. and_do (set_catalog (ux_catalog_revision cmd)) (\<lambda>_. return_ok (Some status))) c))))"

definition delete_remote ::
  "'w scheduler_calls \<Rightarrow> remove_job_command \<Rightarrow> (('c, 'w) controller, control_error, job_status option) action" where
  "delete_remote calls cmd c =
     (case require_next_catalog (rc_state c) (dx_catalog_revision cmd) of
        Inl err \<Rightarrow> (Inl err, c)
      | Inr _ \<Rightarrow>
     (case parse_uuid (dx_job_id cmd) ''job_id'' of
        Inl err \<Rightarrow> (Inl (rejected InvalidCommand (ControlCompile err)), c)
      | Inr i \<Rightarrow>
     (case map_of (ct_remote_jobs (rc_state c)) i of
        None \<Rightarrow> (Inl (rejected NotFound (ControlText ''remote job was not found'')), c)
      | Some current \<Rightarrow>
          if dx_expected_revision cmd \<noteq> mj_revision current
          then (Inl (rejected RevisionConflict (ControlText ''expected revision does not match'')), c)
          else
            and_do (request (sc_delete calls i (mj_generation current)))
              (\<lambda>_. and_do
                (change_state (\<lambda>st. st\<lparr>ct_remote_jobs := AList.delete i (ct_remote_jobs st)\<rparr>))
                (\<lambda>_. and_do (set_catalog (dx_catalog_revision cmd)) (\<lambda>_. return_ok None))) c)))"

definition run_now ::
  "'w scheduler_calls \<Rightarrow> run_job_now \<Rightarrow> (('c, 'w) controller, control_error, job_status option) action" where
  "run_now calls cmd c =
     (case parse_uuid (nx_job_id cmd) ''job_id'' of
        Inl err \<Rightarrow> (Inl (rejected InvalidCommand (ControlCompile err)), c)
      | Inr i \<Rightarrow>
     (case map_of (ct_remote_jobs (rc_state c)) i of
        None \<Rightarrow> (Inl (rejected NotFound (ControlText ''remote job was not found'')), c)
      | Some current \<Rightarrow>
          if nx_expected_revision cmd \<noteq> mj_revision current
          then (Inl (rejected RevisionConflict (ControlText ''expected revision does not match'')), c)
          else
     (case check_installed (pm_policy (rc_policy c)) (mj_task_kind current) of
        Inl denial \<Rightarrow> (Inl (local_policy_error denial), c)
      | Inr _ \<Rightarrow>
          and_do (request (sc_update calls i (mj_generation current) (job_patch_new\<lparr>jp_reschedule := RunNow\<rparr>)))
            (\<lambda>sn. and_do
              (change_state (\<lambda>st. st\<lparr>ct_remote_jobs := AList.update i
                 (current\<lparr>mj_generation := sn_version sn\<rparr>) (ct_remote_jobs st)\<rparr>))
              (\<lambda>_. return_ok (Some (job_status_of sn (mj_revision current))))) c)))"

subsection \<open>Replacing the whole catalogue\<close>

text \<open>The first phase: identifiers, policy and compilation of every definition.\<close>

fun compile_all ::
  "'c task_factory \<Rightarrow> remote_job_policy \<Rightarrow> job_id list \<Rightarrow> 'c job_definition list
   \<Rightarrow> control_error + 'c compiled_job list" where
  "compile_all f policy ids [] = Inr []"
| "compile_all f policy ids (job # jobs) =
     (case parse_uuid (jd_job_id job) ''job_id'' of
        Inl err \<Rightarrow> Inl (rejected InvalidJob (ControlCompile err))
      | Inr i \<Rightarrow>
          if i \<in> set ids
          then Inl (rejected InvalidJob (ControlText ''replace_all contains duplicate job_id''))
          else
     (case check_definition policy job of
        Inl denial \<Rightarrow> Inl (local_policy_error denial)
      | Inr _ \<Rightarrow>
     (case compile_job f job of
        Inl err \<Rightarrow> Inl (rejected InvalidJob (ControlCompile err))
      | Inr compiled \<Rightarrow>
     (case compile_all f policy (i # ids) jobs of
        Inl err \<Rightarrow> Inl err
      | Inr rest \<Rightarrow> Inr (compiled # rest)))))"

text \<open>The second phase: the index against the versions in the scheduler, ownership, capacity.\<close>

fun check_generations ::
  "(job_id \<times> u64) list \<Rightarrow> (job_id \<times> 'c managed_job) list \<Rightarrow> control_error + unit" where
  "check_generations versions [] = Inr ()"
| "check_generations versions ((i, managed) # index) =
     (case map_of versions i of
        Some version \<Rightarrow>
          if version = mj_generation managed then check_generations versions index
          else Inl (rejected RevisionConflict (ControlGeneration i (mj_generation managed) version))
      | None \<Rightarrow> Inl (rejected SchedulerUnavailable (ControlMissing i)))"

fun check_ownership ::
  "(job_id \<times> u64) list \<Rightarrow> (job_id \<times> 'c managed_job) list \<Rightarrow> job_id list \<Rightarrow> control_error + unit" where
  "check_ownership versions index [] = Inr ()"
| "check_ownership versions index (i # ids) =
     (if map_of index i = None \<and> map_of versions i \<noteq> None
      then Inl (rejected OwnershipConflict (ControlOwned i))
      else check_ownership versions index ids)"

definition reconcile_plan_new :: reconcile_plan where
  "reconcile_plan_new = \<lparr>rp_updates = [], rp_additions = [], rp_deletions = []\<rparr>"

fun plan_jobs ::
  "(job_id \<times> 'c managed_job) list \<Rightarrow> 'c compiled_job list \<Rightarrow> reconcile_plan \<Rightarrow> control_error + reconcile_plan" where
  "plan_jobs index [] plan = Inr plan"
| "plan_jobs index (compiled # rest) plan =
     (case map_of index (cj_id compiled) of
        Some current \<Rightarrow>
          if cj_revision compiled < mj_revision current
          then Inl (rejected RevisionConflict (ControlText ''job revision must not move backwards''))
          else if cj_revision compiled = mj_revision current
               \<and> cj_definition compiled \<noteq> mj_definition current
          then Inl (rejected RevisionConflict
                 (ControlText ''same job revision contains different definition''))
          else plan_jobs index rest
            (if cj_definition compiled \<noteq> mj_definition current
             then plan\<lparr>rp_updates := rp_updates plan @
               [\<lparr>ru_job_id = cj_id compiled, ru_expected_version = mj_generation current,
                 ru_patch = full_patch (cj_trigger compiled) (cj_task compiled) (cj_options compiled),
                 ru_enabled = cj_enabled compiled\<rparr>]\<rparr>
             else plan)
      | None \<Rightarrow>
          plan_jobs index rest
            (plan\<lparr>rp_additions := rp_additions plan @
               [\<lparr>ra_job_id = cj_id compiled, ra_enabled = cj_enabled compiled,
                 ra_trigger = cj_trigger compiled, ra_task = cj_task compiled,
                 ra_options = cj_options compiled\<rparr>]\<rparr>))"

definition plan_deletions ::
  "(job_id \<times> 'c managed_job) list \<Rightarrow> job_id list \<Rightarrow> (job_id \<times> u64) list" where
  "plan_deletions index ids = [(i, mj_generation m). (i, m) \<leftarrow> index, i \<notin> set ids]"

text \<open>The new index: a Job that did not change keeps its generation.\<close>

definition reconciled_generation ::
  "(job_id \<times> 'c managed_job) list \<Rightarrow> (job_id \<times> u64) list \<Rightarrow> 'c compiled_job \<Rightarrow> u64 option" where
  "reconciled_generation index applied compiled =
     (case (case map_of index (cj_id compiled) of
              Some current \<Rightarrow>
                if mj_definition current = cj_definition compiled then Some (mj_generation current) else None
            | None \<Rightarrow> None) of
        Some generation \<Rightarrow> Some generation
      | None \<Rightarrow> map_of applied (cj_id compiled))"

fun rebuild_index ::
  "(job_id \<times> 'c managed_job) list \<Rightarrow> (job_id \<times> u64) list \<Rightarrow> 'c compiled_job list
   \<Rightarrow> (job_id \<times> 'c managed_job) list \<Rightarrow> control_error + (job_id \<times> 'c managed_job) list" where
  "rebuild_index index applied [] jobs = Inr jobs"
| "rebuild_index index applied (compiled # rest) jobs =
     (case reconciled_generation index applied compiled of
        None \<Rightarrow> Inl (rejected SchedulerUnavailable
          (ControlText ''reconciled Job is missing from Scheduler result''))
      | Some generation \<Rightarrow>
          rebuild_index index applied rest
            (AList.update (cj_id compiled) (managed_of compiled generation) jobs))"

definition versions_of :: "job_snapshot list \<Rightarrow> (job_id \<times> u64) list" where
  "versions_of snapshots = map (\<lambda>sn. (sn_id sn, sn_version sn)) snapshots"

definition replace_plan ::
  "(job_id \<times> 'c managed_job) list \<Rightarrow> job_snapshot list \<Rightarrow> scheduler_config \<Rightarrow> 'c compiled_job list
   \<Rightarrow> control_error + reconcile_plan" where
  "replace_plan index snapshots config compiled =
     (let final_job_count = usize_saturating_add (length snapshots - length index) (length compiled)
      in if max_jobs config < final_job_count
         then Inl (rejected CapacityExceeded (ControlCapacity final_job_count (max_jobs config)))
         else
           (case plan_jobs index compiled reconcile_plan_new of
              Inl err \<Rightarrow> Inl err
            | Inr plan \<Rightarrow> Inr (plan\<lparr>rp_deletions := plan_deletions index (map cj_id compiled)\<rparr>)))"

text \<open>List, check, plan, reconcile, and the index that follows.\<close>

definition reconcile_index ::
  "'w scheduler_calls \<Rightarrow> (job_id \<times> 'c managed_job) list \<Rightarrow> 'c compiled_job list
   \<Rightarrow> (('c, 'w) controller, control_error, (job_id \<times> 'c managed_job) list) action" where
  "reconcile_index calls index compiled =
     and_do (request (sc_list calls)) (\<lambda>snapshots.
     and_do (of_result (check_generations (versions_of snapshots) index)) (\<lambda>_.
     and_do (of_result (check_ownership (versions_of snapshots) index (map cj_id compiled))) (\<lambda>_.
     and_do (request (sc_get_config calls)) (\<lambda>config.
     and_do (of_result (replace_plan index snapshots (snd config) compiled)) (\<lambda>plan.
     and_do (request (sc_reconcile calls plan)) (\<lambda>applied.
     of_result (rebuild_index index (versions_of applied) compiled [])))))))"

definition replace_all ::
  "'c task_factory \<Rightarrow> 'w scheduler_calls \<Rightarrow> 'c replace_all_jobs
   \<Rightarrow> (('c, 'w) controller, control_error, job_status option) action" where
  "replace_all f calls cmd c =
     (case require_replace_all_catalog (rc_state c) (rx_catalog_revision cmd) of
        Inl err \<Rightarrow> (Inl err, c)
      | Inr _ \<Rightarrow>
     (case compile_all f (pm_policy (rc_policy c)) [] (rx_jobs cmd) of
        Inl err \<Rightarrow> (Inl err, c)
      | Inr compiled \<Rightarrow>
          and_do (reconcile_index calls (ct_remote_jobs (rc_state c)) compiled) (\<lambda>jobs.
          and_do (change_state (\<lambda>st. st\<lparr>ct_remote_jobs := jobs\<rparr>)) (\<lambda>_.
          and_do (set_catalog (rx_catalog_revision cmd)) (\<lambda>_. return_ok None))) c))"

subsection \<open>Applying a command once\<close>

definition apply_action ::
  "'c task_factory \<Rightarrow> 'w scheduler_calls \<Rightarrow> 'c command_action option
   \<Rightarrow> (('c, 'w) controller, control_error, job_status option) action" where
  "apply_action f calls action =
     (case action of
        Some (ActUpsert cmd) \<Rightarrow> upsert f calls cmd
      | Some (ActDelete cmd) \<Rightarrow> delete_remote calls cmd
      | Some (ActRunNow cmd) \<Rightarrow> run_now calls cmd
      | Some (ActReplaceAll cmd) \<Rightarrow> replace_all f calls cmd
      | None \<Rightarrow> fail_with (rejected InvalidCommand (ControlText ''job command action is required'')))"

definition apply_locked ::
  "'c task_factory \<Rightarrow> 'w scheduler_calls \<Rightarrow> 'c job_command \<Rightarrow> ('c, 'w) controller
   \<Rightarrow> job_command_result \<times> ('c, 'w) controller" where
  "apply_locked f calls cmd c =
     (case apply_action f calls (jc_action cmd) c of
        (Inr status, c) \<Rightarrow>
          (\<lparr>jr_command_id = jc_command_id cmd, jr_status = Applied,
            jr_catalog_revision = ct_catalog_revision (rc_state c), jr_job = status, jr_error = None\<rparr>, c)
      | (Inl err, c) \<Rightarrow> (command_error (jc_command_id cmd) (ct_catalog_revision (rc_state c)) err, c))"

definition apply_command ::
  "'c task_factory \<Rightarrow> 'w scheduler_calls \<Rightarrow> 'c job_command \<Rightarrow> ('c, 'w) controller
   \<Rightarrow> job_command_result \<times> ('c, 'w) controller" where
  "apply_command f calls cmd c =
     (case parse_uuid (jc_command_id cmd) ''command_id'' of
        Inl err \<Rightarrow> (command_error (jc_command_id cmd) 0 (rejected InvalidCommand (ControlCompile err)), c)
      | Inr i \<Rightarrow>
          (case map_of (ct_cached_results (rc_state c)) i of
             Some result \<Rightarrow> (result, c)
           | None \<Rightarrow>
               (case apply_locked f calls cmd c of
                  (result, c) \<Rightarrow>
                    (result,
                     if should_cache_result result
                     then c\<lparr>rc_state := cache_result i result (rc_state c)\<rparr> else c))))"


section \<open>Policy, plugins and the catalogue as a whole\<close>

datatype controller_fault = PolicyFault state_error | SchedulerFault scheduler_error

record policy_application =
  pa_policy :: policy_snapshot
  pa_affected_jobs :: nat

definition set_generation :: "job_id \<Rightarrow> u64 \<Rightarrow> 'c controller_state \<Rightarrow> 'c controller_state" where
  "set_generation i generation st =
     st\<lparr>ct_remote_jobs := modify i (\<lambda>m. m\<lparr>mj_generation := generation\<rparr>) (ct_remote_jobs st)\<rparr>"

text \<open>The loop that disables the Jobs of a list, one call for each, and stops at the first error.\<close>

fun disable_all ::
  "'w scheduler_calls \<Rightarrow> string \<Rightarrow> (job_id \<times> 'c managed_job) list \<Rightarrow> (('c, 'w) controller, scheduler_error, nat) action" where
  "disable_all calls why [] = return_ok 0"
| "disable_all calls why ((i, managed) # jobs) =
     and_do (on_scheduler (sc_disable calls i (mj_generation managed) why)) (\<lambda>sn.
     and_do (change_state (set_generation i (sn_version sn))) (\<lambda>_.
     and_do (disable_all calls why jobs) (\<lambda>n. return_ok (Suc n))))"

definition update_policy ::
  "(policy_document \<Rightarrow> bytes) \<Rightarrow> (file_call \<Rightarrow> bool) \<Rightarrow> nat \<Rightarrow> state_files \<Rightarrow> 'w scheduler_calls \<Rightarrow> policy_change
   \<Rightarrow> ('c, 'w) controller \<Rightarrow> (controller_fault + policy_application) \<times> ('c, 'w) controller \<times> state_files list" where
  "update_policy to_json fails wrote fs calls change c =
     (case apply_policy to_json fails wrote change (rc_policy c) fs of
        (Inl err, m, trace) \<Rightarrow> (Inl (PolicyFault err), c\<lparr>rc_policy := m\<rparr>, trace)
      | (Inr update, m, trace) \<Rightarrow>
          let c = c\<lparr>rc_policy := m\<rparr>
          in if \<not> pu_changed update
             then (Inr \<lparr>pa_policy = pu_snapshot update, pa_affected_jobs = 0\<rparr>, c, trace)
             else
               (case disable_all calls ''disabled by local Agent Job policy''
                       [(i, managed) \<leftarrow> ct_remote_jobs (rc_state c).
                          policy_denies (pu_snapshot update) (mj_task_kind managed)] c of
                  (Inl err, c) \<Rightarrow> (Inl (SchedulerFault err), c, trace)
                | (Inr n, c) \<Rightarrow> (Inr \<lparr>pa_policy = pu_snapshot update, pa_affected_jobs = n\<rparr>, c, trace)))"

definition list_jobs ::
  "'w scheduler_calls \<Rightarrow> (('c, 'w) controller, scheduler_error, job_status list) action" where
  "list_jobs calls c =
     (let managed_jobs = ct_remote_jobs (rc_state c)
      in and_do (on_scheduler (sc_list calls))
           (\<lambda>snapshots. return_ok (sort_key js_job_id (List.map_filter
              (\<lambda>sn. map_option (\<lambda>managed. job_status_of sn (mj_revision managed))
                 (map_of managed_jobs (sn_id sn))) snapshots))) c)"

fun clear_all ::
  "'w scheduler_calls \<Rightarrow> (job_id \<times> 'c managed_job) list \<Rightarrow> (('c, 'w) controller, scheduler_error, unit) action" where
  "clear_all calls [] = return_ok ()"
| "clear_all calls ((i, managed) # jobs) =
     and_do (on_scheduler (sc_delete calls i (mj_generation managed))) (\<lambda>_.
     and_do (change_state (\<lambda>st. st\<lparr>ct_remote_jobs := AList.delete i (ct_remote_jobs st)\<rparr>)) (\<lambda>_.
     clear_all calls jobs))"

definition clear_remote_jobs ::
  "'w scheduler_calls \<Rightarrow> (('c, 'w) controller, scheduler_error, unit) action" where
  "clear_remote_jobs calls c =
     and_do (clear_all calls (ct_remote_jobs (rc_state c))) (\<lambda>_. set_catalog 0) c"

definition pause_plugin ::
  "'w scheduler_calls \<Rightarrow> string \<Rightarrow> string \<Rightarrow> (('c, 'w) controller, scheduler_error, nat) action" where
  "pause_plugin calls plugin_id plugin_version c =
     (if (plugin_id, plugin_version) \<in> set (ct_paused_plugins (rc_state c)) then (Inr 0, c)
      else
        and_do (disable_all calls ''Plus Worker paused after repeated failures''
                  [(i, job) \<leftarrow> ct_remote_jobs (rc_state c). mj_plugin job = Some (plugin_id, plugin_version)])
          (\<lambda>affected. and_do
             (change_state (\<lambda>st. st\<lparr>ct_paused_plugins :=
                List.insert (plugin_id, plugin_version) (ct_paused_plugins st)\<rparr>))
             (\<lambda>_. return_ok affected)) c)"

definition resume_plugin :: "string \<Rightarrow> string \<Rightarrow> ('c, 'w) controller \<Rightarrow> ('c, 'w) controller" where
  "resume_plugin plugin_id plugin_version c =
     c\<lparr>rc_state := (rc_state c)\<lparr>ct_paused_plugins :=
       removeAll (plugin_id, plugin_version) (ct_paused_plugins (rc_state c))\<rparr>\<rparr>"

text \<open>The digest of a catalogue (\<open>smalux-protocol/src/reconciliation.rs\<close>): its Jobs in the order
  of their identifiers, encoded and hashed.\<close>

definition catalog_digest ::
  "('c replace_all_jobs \<Rightarrow> bytes) \<Rightarrow> (bytes \<Rightarrow> bytes) \<Rightarrow> 'c replace_all_jobs \<Rightarrow> bytes" where
  "catalog_digest encode blake catalog =
     blake (encode (catalog\<lparr>rx_jobs := sort_key jd_job_id (rx_jobs catalog)\<rparr>))"

definition catalog_reconcile_state ::
  "('c replace_all_jobs \<Rightarrow> bytes) \<Rightarrow> (bytes \<Rightarrow> bytes) \<Rightarrow> ('c, 'w) controller \<Rightarrow> u64 \<times> bytes" where
  "catalog_reconcile_state encode blake c =
     (let st = rc_state c
      in if ct_catalog_revision st = 0 then (0, [])
         else (ct_catalog_revision st,
               catalog_digest encode blake
                 \<lparr>rx_catalog_revision = ct_catalog_revision st,
                  rx_jobs = map (\<lambda>(_, managed). mj_definition managed) (ct_remote_jobs st)\<rparr>))"


section \<open>What a command leaves behind\<close>

text \<open>A command that fails changes at most the scheduler; one that succeeds writes the index and
  the revision as below, after the checks named.\<close>

lemmas action_defs = and_do_def request_def map_err_def on_scheduler_def change_state_def return_ok_def
  fail_with_def of_result_def set_catalog_def


definition scheduler_only :: "(('c, 'w) controller, 'e, 'a) action \<Rightarrow> bool" where
  "scheduler_only m \<longleftrightarrow> (\<forall>c. rc_state (snd (m c)) = rc_state c \<and> rc_policy (snd (m c)) = rc_policy c)"

lemma scheduler_only_intros:
  "scheduler_only (request m)" "scheduler_only (on_scheduler m')" "scheduler_only (return_ok x)"
  "scheduler_only (fail_with err)" "scheduler_only (of_result r)"
  by (auto simp: scheduler_only_def action_defs split: prod.splits sum.splits)

lemma scheduler_only_and_do:
  assumes "scheduler_only m" and "\<And>x. scheduler_only (f x)"
  shows "scheduler_only (and_do m f)"
  using assms unfolding scheduler_only_def and_do_def
  by (auto split: prod.splits sum.splits) (metis snd_conv)+

lemma scheduler_only_shape:
  assumes "scheduler_only m"
  obtains (failed) err w where "m c = (Inl err, c\<lparr>rc_scheduler := w\<rparr>)"
  | (returned) x w where "m c = (Inr x, c\<lparr>rc_scheduler := w\<rparr>)"
proof -
  obtain r c' where m: "m c = (r, c')" by fastforce
  then have "c' = c\<lparr>rc_scheduler := rc_scheduler c'\<rparr>"
    using assms unfolding scheduler_only_def by (metis controller.cases controller.select_convs(2,3)
        controller.update_convs(1) snd_conv controller.select_convs(1))
  with m failed returned show ?thesis by (cases r) metis+
qed

lemma upsert_calls_only:
  "scheduler_only (and_do (request (sc_update calls i g p)) (\<lambda>sn. request (set_enabled calls sn en)))"
  "scheduler_only (and_do (request (sc_install calls i 1 en tr tk opts))
     (\<lambda>_. and_do (request (sc_get calls i))
       (\<lambda>found. case found of Some sn \<Rightarrow> return_ok sn
          | None \<Rightarrow> fail_with (rejected SchedulerUnavailable (ControlText ''installed job is missing'')))))"
  by (auto intro!: scheduler_only_and_do scheduler_only_intros split: option.split)

lemma upsert_compiled_cases:
  obtains (failed) err w where "upsert_compiled calls job True c = (Inl err, c\<lparr>rc_scheduler := w\<rparr>)"
  | (stored) sn w where "upsert_compiled calls job True c =
      (Inr (job_status_of sn (cj_revision job)),
       c\<lparr>rc_scheduler := w, rc_state := (rc_state c)\<lparr>ct_remote_jobs :=
         AList.update (cj_id job) (managed_of job (sn_version sn)) (ct_remote_jobs (rc_state c))\<rparr>\<rparr>)"
      "\<And>m. map_of (ct_remote_jobs (rc_state c)) (cj_id job) = Some m \<Longrightarrow> mj_revision m < cj_revision job"
proof (cases "map_of (ct_remote_jobs (rc_state c)) (cj_id job)")
  case None
  show ?thesis
    by (rule scheduler_only_shape [OF upsert_calls_only(2), of calls "cj_id job" "cj_enabled job"
          "cj_trigger job" "cj_task job" "cj_options job" c])
      (use None failed stored in \<open>auto simp: upsert_compiled_def and_do_def [of "\<lambda>c. _ c"] change_state_def return_ok_def\<close>)
next
  case (Some m)
  show ?thesis
  proof (cases "cj_revision job < mj_revision m \<or> cj_revision job = mj_revision m")
    case True
    then show ?thesis
      using Some failed [of _ "rc_scheduler c"] by (auto simp: upsert_compiled_def and_do_def [of "\<lambda>c. _ c"] fail_with_def)
  next
    case False
    show ?thesis
      by (rule scheduler_only_shape [OF upsert_calls_only(1), of calls "cj_id job" "mj_generation m"
            "full_patch (cj_trigger job) (cj_task job) (cj_options job)" "cj_enabled job" c])
        (use Some False failed stored in \<open>auto simp: upsert_compiled_def and_do_def [of "\<lambda>c. _ c"] change_state_def return_ok_def\<close>)
  qed
qed


lemma reconcile_index_only: "scheduler_only (reconcile_index calls index jobs)"
  unfolding reconcile_index_def by (intro scheduler_only_and_do scheduler_only_intros)

lemma reconcile_index_result:
  assumes "reconcile_index calls index jobs c = (Inr r, c')"
  obtains sns w1 config w2 plan applied where
    "sc_list calls (rc_scheduler c) = (Inr sns, w1)"
    "check_generations (versions_of sns) index = Inr ()"
    "check_ownership (versions_of sns) index (map cj_id jobs) = Inr ()"
    "sc_get_config calls w1 = (Inr config, w2)"
    "replace_plan index sns (snd config) jobs = Inr plan"
    "sc_reconcile calls plan w2 = (Inr applied, rc_scheduler c')"
    "rebuild_index index (versions_of applied) jobs [] = Inr r"
  using assms
  by (fastforce simp: reconcile_index_def action_defs split: prod.splits sum.splits)

lemma delete_remote_cases:
  obtains (failed) err w where "delete_remote calls cmd c = (Inl err, c\<lparr>rc_scheduler := w\<rparr>)"
  | (deleted) m w where "length (dx_job_id cmd) = 16" "dx_expected_revision cmd = mj_revision m"
      "dx_catalog_revision cmd = ct_catalog_revision (rc_state c) + 1"
      "map_of (ct_remote_jobs (rc_state c)) (uuid_of_bytes (dx_job_id cmd)) = Some m"
      "sc_delete calls (uuid_of_bytes (dx_job_id cmd)) (mj_generation m) (rc_scheduler c) = (Inr (), w)"
      "delete_remote calls cmd c = (Inr None,
         c\<lparr>rc_scheduler := w, rc_state := (rc_state c)\<lparr>ct_remote_jobs :=
           AList.delete (uuid_of_bytes (dx_job_id cmd)) (ct_remote_jobs (rc_state c)),
           ct_catalog_revision := dx_catalog_revision cmd\<rparr>\<rparr>)"
proof (cases "\<exists>m. dx_catalog_revision cmd = ct_catalog_revision (rc_state c) + 1 \<and> length (dx_job_id cmd) = 16 \<and>
    map_of (ct_remote_jobs (rc_state c)) (uuid_of_bytes (dx_job_id cmd)) = Some m \<and>
    dx_expected_revision cmd = mj_revision m")
  case True
  then obtain m where ok: "dx_catalog_revision cmd = ct_catalog_revision (rc_state c) + 1"
    "length (dx_job_id cmd) = 16" "dx_expected_revision cmd = mj_revision m"
    "map_of (ct_remote_jobs (rc_state c)) (uuid_of_bytes (dx_job_id cmd)) = Some m" by blast
  obtain r w where del: "sc_delete calls (uuid_of_bytes (dx_job_id cmd)) (mj_generation m) (rc_scheduler c) = (r, w)"
    by fastforce
  show ?thesis
    using failed [of _ w] deleted [of m w] ok del
    by (cases r) (simp_all add: delete_remote_def require_next_catalog_def parse_uuid_def action_defs)
next
  case False
  then have "\<exists>err. delete_remote calls cmd c = (Inl err, c)"
    by (auto simp: delete_remote_def require_next_catalog_def parse_uuid_def split: option.splits)
  then show ?thesis using failed [of _ "rc_scheduler c"] by auto
qed

lemma run_now_cases:
  obtains (failed) err w where "run_now calls cmd c = (Inl err, c\<lparr>rc_scheduler := w\<rparr>)"
  | (ran) m sn w where "length (nx_job_id cmd) = 16" "nx_expected_revision cmd = mj_revision m"
      "map_of (ct_remote_jobs (rc_state c)) (uuid_of_bytes (nx_job_id cmd)) = Some m"
      "check_installed (pm_policy (rc_policy c)) (mj_task_kind m) = Inr ()"
      "sc_update calls (uuid_of_bytes (nx_job_id cmd)) (mj_generation m)
         (job_patch_new\<lparr>jp_reschedule := RunNow\<rparr>) (rc_scheduler c) = (Inr sn, w)"
      "run_now calls cmd c = (Inr (Some (job_status_of sn (mj_revision m))),
         c\<lparr>rc_scheduler := w, rc_state := (rc_state c)\<lparr>ct_remote_jobs :=
           AList.update (uuid_of_bytes (nx_job_id cmd)) (m\<lparr>mj_generation := sn_version sn\<rparr>)
             (ct_remote_jobs (rc_state c))\<rparr>\<rparr>)"
proof (cases "\<exists>m. length (nx_job_id cmd) = 16 \<and> nx_expected_revision cmd = mj_revision m \<and>
    map_of (ct_remote_jobs (rc_state c)) (uuid_of_bytes (nx_job_id cmd)) = Some m \<and>
    check_installed (pm_policy (rc_policy c)) (mj_task_kind m) = Inr ()")
  case True
  then obtain m where ok: "length (nx_job_id cmd) = 16" "nx_expected_revision cmd = mj_revision m"
    "map_of (ct_remote_jobs (rc_state c)) (uuid_of_bytes (nx_job_id cmd)) = Some m"
    "check_installed (pm_policy (rc_policy c)) (mj_task_kind m) = Inr ()" by blast
  obtain r w where up: "sc_update calls (uuid_of_bytes (nx_job_id cmd)) (mj_generation m)
      (job_patch_new\<lparr>jp_reschedule := RunNow\<rparr>) (rc_scheduler c) = (r, w)"
    by fastforce
  show ?thesis
    using failed [of _ w] ran [of m _ w] ok up
    by (cases r) (simp_all add: run_now_def parse_uuid_def action_defs)
next
  case False
  then have "\<exists>err. run_now calls cmd c = (Inl err, c)"
    by (auto simp: run_now_def parse_uuid_def split: option.splits sum.splits)
  then show ?thesis using failed [of _ "rc_scheduler c"] by auto
qed

lemma apply_action_cases:
  obtains (failed) err w where "apply_action f calls a c = (Inl err, c\<lparr>rc_scheduler := w\<rparr>)"
  | (upserted) cmd d job sn w where "a = Some (ActUpsert cmd)" "ux_job cmd = Some d"
      "ux_catalog_revision cmd = ct_catalog_revision (rc_state c) + 1"
      "check_definition (pm_policy (rc_policy c)) d = Inr ()" "compile_job f d = Inr job"
      "\<And>m. map_of (ct_remote_jobs (rc_state c)) (cj_id job) = Some m \<Longrightarrow> mj_revision m < cj_revision job"
      "apply_action f calls a c = (Inr (Some (job_status_of sn (cj_revision job))),
         c\<lparr>rc_scheduler := w, rc_state := (rc_state c)\<lparr>ct_remote_jobs :=
           AList.update (cj_id job) (managed_of job (sn_version sn)) (ct_remote_jobs (rc_state c)),
           ct_catalog_revision := ux_catalog_revision cmd\<rparr>\<rparr>)"
  | (deleted) cmd m w where "a = Some (ActDelete cmd)" "dx_expected_revision cmd = mj_revision m"
      "dx_catalog_revision cmd = ct_catalog_revision (rc_state c) + 1"
      "map_of (ct_remote_jobs (rc_state c)) (uuid_of_bytes (dx_job_id cmd)) = Some m"
      "apply_action f calls a c = (Inr None,
         c\<lparr>rc_scheduler := w, rc_state := (rc_state c)\<lparr>ct_remote_jobs :=
           AList.delete (uuid_of_bytes (dx_job_id cmd)) (ct_remote_jobs (rc_state c)),
           ct_catalog_revision := dx_catalog_revision cmd\<rparr>\<rparr>)"
  | (ran) cmd m sn w where "a = Some (ActRunNow cmd)" "nx_expected_revision cmd = mj_revision m"
      "map_of (ct_remote_jobs (rc_state c)) (uuid_of_bytes (nx_job_id cmd)) = Some m"
      "check_installed (pm_policy (rc_policy c)) (mj_task_kind m) = Inr ()"
      "apply_action f calls a c = (Inr (Some (job_status_of sn (mj_revision m))),
         c\<lparr>rc_scheduler := w, rc_state := (rc_state c)\<lparr>ct_remote_jobs :=
           AList.update (uuid_of_bytes (nx_job_id cmd)) (m\<lparr>mj_generation := sn_version sn\<rparr>)
             (ct_remote_jobs (rc_state c))\<rparr>\<rparr>)"
  | (replaced) cmd jobs sns config plan applied index w where "a = Some (ActReplaceAll cmd)"
      "rx_catalog_revision cmd \<noteq> 0" "ct_catalog_revision (rc_state c) \<le> rx_catalog_revision cmd"
      "compile_all f (pm_policy (rc_policy c)) [] (rx_jobs cmd) = Inr jobs"
      "replace_plan (ct_remote_jobs (rc_state c)) sns config jobs = Inr plan"
      "rebuild_index (ct_remote_jobs (rc_state c)) applied jobs [] = Inr index"
      "apply_action f calls a c = (Inr None,
         c\<lparr>rc_scheduler := w, rc_state := (rc_state c)\<lparr>ct_remote_jobs := index,
           ct_catalog_revision := rx_catalog_revision cmd\<rparr>\<rparr>)"
proof (cases a)
  case None
  then show ?thesis using failed [of _ "rc_scheduler c"] by (simp add: apply_action_def fail_with_def)
next
  case (Some act)
  have stay: thesis if "apply_action f calls a c = (Inl err, c)" for err
    using that failed [of err "rc_scheduler c"] by simp
  show ?thesis
  proof (cases act)
    case (ActReplaceAll cmd)
    let ?run = "reconcile_index calls (ct_remote_jobs (rc_state c))"
    show ?thesis
    proof (cases "require_replace_all_catalog (rc_state c) (rx_catalog_revision cmd)")
      case (Inr u)
      show ?thesis
      proof (cases "compile_all f (pm_policy (rc_policy c)) [] (rx_jobs cmd)")
        case (Inr jobs)
        show ?thesis
        proof (rule scheduler_only_shape [OF reconcile_index_only, of calls "ct_remote_jobs (rc_state c)" jobs c])
          fix err w
          assume "?run jobs c = (Inl err, c\<lparr>rc_scheduler := w\<rparr>)"
          then show ?thesis
            using failed Some ActReplaceAll Inr \<open>require_replace_all_catalog _ _ = _\<close>
            by (simp add: apply_action_def replace_all_def and_do_def)
        next
          fix index w
          assume run: "?run jobs c = (Inr index, c\<lparr>rc_scheduler := w\<rparr>)"
          from run obtain sns config plan applied where
            "replace_plan (ct_remote_jobs (rc_state c)) sns config jobs = Inr plan"
            "rebuild_index (ct_remote_jobs (rc_state c)) applied jobs [] = Inr index"
            by (rule reconcile_index_result)
          with run show ?thesis
            using replaced [of cmd jobs sns config plan applied index w] Some ActReplaceAll Inr
              \<open>require_replace_all_catalog _ _ = _\<close>
            by (auto simp: apply_action_def replace_all_def action_defs require_replace_all_catalog_def
                not_less split: if_splits)
        qed
      qed (use stay Some ActReplaceAll Inr in \<open>simp add: apply_action_def replace_all_def\<close>)
    qed (use stay Some ActReplaceAll in \<open>simp add: apply_action_def replace_all_def\<close>)
  next
    case (ActUpsert cmd)
    show ?thesis
    proof (cases "\<exists>d job. require_next_catalog (rc_state c) (ux_catalog_revision cmd) = Inr () \<and> ux_job cmd = Some d \<and>
        check_definition (pm_policy (rc_policy c)) d = Inr () \<and> compile_job f d = Inr job")
      case True
      then obtain d job where ok: "require_next_catalog (rc_state c) (ux_catalog_revision cmd) = Inr ()"
        "ux_job cmd = Some d" "check_definition (pm_policy (rc_policy c)) d = Inr ()" "compile_job f d = Inr job"
        by blast
      then show ?thesis
        by (cases rule: upsert_compiled_cases [of calls job c])
          (use failed upserted [of cmd d job] Some ActUpsert ok in
            \<open>auto simp: apply_action_def upsert_def action_defs require_next_catalog_def split: if_splits\<close>)
    next
      case False
      then have "\<exists>err. upsert f calls cmd c = (Inl err, c)"
        by (auto simp: upsert_def split: sum.splits option.splits)
      then show ?thesis using stay Some ActUpsert by (auto simp: apply_action_def)
    qed
  next
    case (ActDelete cmd)
    then show ?thesis
      using Some failed deleted [of cmd]
      by (cases rule: delete_remote_cases [of calls cmd c]) (auto simp: apply_action_def)
  next
    case (ActRunNow cmd)
    then show ?thesis
      using Some failed ran [of cmd]
      by (cases rule: run_now_cases [of calls cmd c]) (auto simp: apply_action_def)
  qed
qed

end
