(* ===== verification/Keyring_Store.thy ===== *)
theory Keyring_Store
  imports Key_Rotation
begin

text \<open>
  The key ring of the Server in the database and in the Server processes
  (\<open>database/keyring.rs\<close> and \<open>service/agent/keyring_manager.rs\<close>): the one row with its
  revision, its validation on the way in and out, the conditional update, and the manager of
  a process that works on a copy, commits it and then installs it. A database is the row, or
  nothing. Every SQL statement is one step; failures of the connection end an operation
  before it changes anything and are not modelled.
\<close>

section \<open>The row\<close>

datatype database_error =
    InvalidServerKeyring string
  | MissingServerKeyring
  | ServerKeyringRevisionConflict int "int option"
  | ServerKeyringRevisionOverflow
  | DatabaseNoise noise_error

type_synonym 'a dresult = "database_error + 'a"

record keyring_row =
  kr_current_private_key :: bytes
  kr_current_public_key :: bytes
  kr_next_private_key :: "bytes option"
  kr_next_public_key :: "bytes option"
  kr_previous_private_key :: "bytes option"
  kr_previous_public_key :: "bytes option"
  kr_rotation_id :: "bytes option"
  kr_revision :: int
  kr_created_at :: int
  kr_updated_at :: int

type_synonym database = "keyring_row option"

record keyring_record =
  rec_snapshot :: server_key_ring
  rec_revision :: int

text \<open>The messages leave out the printed cause behind the colon.\<close>

definition restore_required_identity :: "string \<Rightarrow> bytes \<Rightarrow> bytes \<Rightarrow> noise_identity dresult" where
  "restore_required_identity name priv pub =
     (case identity_from_parts priv pub of
        Inl _ \<Rightarrow> Inl (InvalidServerKeyring (name @ '' identity is invalid'')) | Inr i \<Rightarrow> Inr i)"

definition restore_optional_identity ::
  "string \<Rightarrow> bytes option \<Rightarrow> bytes option \<Rightarrow> noise_identity option dresult" where
  "restore_optional_identity name priv pub =
     (case (priv, pub) of
        (None, None) \<Rightarrow> Inr None
      | (Some a, Some b) \<Rightarrow>
          (case identity_from_parts a b of
             Inl _ \<Rightarrow> Inl (InvalidServerKeyring (name @ '' identity is invalid'')) | Inr i \<Rightarrow> Inr (Some i))
      | _ \<Rightarrow> Inl (InvalidServerKeyring
          (name @ '' private/public key must be both present or both absent'')))"

definition export_optional_identity :: "noise_identity option \<Rightarrow> bytes option \<times> bytes option" where
  "export_optional_identity i =
     (case i of None \<Rightarrow> (None, None)
      | Some i \<Rightarrow> (Some (ni_private_key i), Some (pk_bytes (ni_public_key i))))"

definition restore_rotation_id :: "bytes option \<Rightarrow> rotation_id option dresult" where
  "restore_rotation_id b =
     (case b of
        None \<Rightarrow> Inr None
      | Some b \<Rightarrow>
          (case rotation_id_from_bytes b of Inl err \<Rightarrow> Inl (DatabaseNoise err) | Inr r \<Rightarrow> Inr (Some r)))"

text \<open>The columns both the insertion and the update write.\<close>

definition row_of :: "server_key_ring \<Rightarrow> int \<Rightarrow> int \<Rightarrow> int \<Rightarrow> keyring_row" where
  "row_of s revision created updated =
     \<lparr>kr_current_private_key = ni_private_key (sk_current s),
      kr_current_public_key = pk_bytes (ni_public_key (sk_current s)),
      kr_next_private_key = fst (export_optional_identity (sk_next s)),
      kr_next_public_key = snd (export_optional_identity (sk_next s)),
      kr_previous_private_key = fst (export_optional_identity (sk_previous s)),
      kr_previous_public_key = snd (export_optional_identity (sk_previous s)),
      kr_rotation_id = map_option rid_bytes (sk_rotation_id s),
      kr_revision = revision, kr_created_at = created, kr_updated_at = updated\<rparr>"

definition load_row :: "keyring_row \<Rightarrow> keyring_record dresult" where
  "load_row row =
     (if kr_revision row < 0 then Inl (InvalidServerKeyring ''revision must not be negative'')
      else case restore_required_identity ''current'' (kr_current_private_key row) (kr_current_public_key row) of
        Inl err \<Rightarrow> Inl err
      | Inr c \<Rightarrow>
      (case restore_optional_identity ''next'' (kr_next_private_key row) (kr_next_public_key row) of
        Inl err \<Rightarrow> Inl err
      | Inr n \<Rightarrow>
      (case restore_optional_identity ''previous'' (kr_previous_private_key row) (kr_previous_public_key row) of
        Inl err \<Rightarrow> Inl err
      | Inr p \<Rightarrow>
      (case restore_rotation_id (kr_rotation_id row) of
        Inl err \<Rightarrow> Inl err
      | Inr r \<Rightarrow>
          let snapshot = \<lparr>sk_current = c, sk_next = n, sk_previous = p, sk_rotation_id = r\<rparr>
          in case key_ring_from_snapshot snapshot of
               Inl err \<Rightarrow> Inl (DatabaseNoise err)
             | Inr _ \<Rightarrow> Inr \<lparr>rec_snapshot = snapshot, rec_revision = kr_revision row\<rparr>))))"

definition load_server_keyring_record :: "database \<Rightarrow> keyring_record option dresult" where
  "load_server_keyring_record db =
     (case db of
        None \<Rightarrow> Inr None
      | Some row \<Rightarrow> (case load_row row of Inl err \<Rightarrow> Inl err | Inr r \<Rightarrow> Inr (Some r)))"

text \<open>\<open>load()?.ok_or(MissingServerKeyring)\<close>, the end of both writing operations.\<close>

definition reload :: "database \<Rightarrow> keyring_record dresult" where
  "reload db =
     (case load_server_keyring_record db of
        Inl err \<Rightarrow> Inl err | Inr None \<Rightarrow> Inl MissingServerKeyring | Inr (Some r) \<Rightarrow> Inr r)"

text \<open>\<open>now\<close> is what \<open>unix_timestamp_micros\<close> returns.\<close>

definition insert_server_keyring_if_absent ::
  "int dresult \<Rightarrow> server_key_ring \<Rightarrow> database \<Rightarrow> keyring_record dresult \<times> database" where
  "insert_server_keyring_if_absent now s db =
     (case key_ring_from_snapshot s of
        Inl err \<Rightarrow> (Inl (DatabaseNoise err), db)
      | Inr _ \<Rightarrow>
          (case now of
             Inl err \<Rightarrow> (Inl err, db)
           | Inr now \<Rightarrow>
               let db = (case db of None \<Rightarrow> Some (row_of s 0 now now) | Some row \<Rightarrow> Some row)
               in (reload db, db)))"

text \<open>The update with its filter on the revision, and whether it matched the row.\<close>

definition update_if_revision ::
  "int \<Rightarrow> int \<Rightarrow> server_key_ring \<Rightarrow> database \<Rightarrow> bool \<times> database" where
  "update_if_revision now expected s db =
     (case db of
        None \<Rightarrow> (False, None)
      | Some row \<Rightarrow>
          if kr_revision row = expected
          then (True, Some (row_of s (expected + 1) (kr_created_at row) now))
          else (False, Some row))"

text \<open>
  The operation is two statements. \<open>between\<close> is what other processes do to the database
  between the update and the reload; alone it is the identity.
\<close>

definition save_server_keyring_if_revision ::
  "(database \<Rightarrow> database) \<Rightarrow> int dresult \<Rightarrow> int \<Rightarrow> server_key_ring \<Rightarrow> database
   \<Rightarrow> keyring_record dresult \<times> database" where
  "save_server_keyring_if_revision between now expected s db =
     (case key_ring_from_snapshot s of
        Inl err \<Rightarrow> (Inl (DatabaseNoise err), db)
      | Inr _ \<Rightarrow>
          if expected = i64_max then (Inl ServerKeyringRevisionOverflow, db)
          else case now of
                 Inl err \<Rightarrow> (Inl err, db)
               | Inr now \<Rightarrow>
                   let (matched, db) = update_if_revision now expected s db;
                       db = between db
                   in if \<not> matched
                      then (case load_server_keyring_record db of
                              Inl err \<Rightarrow> (Inl err, db)
                            | Inr r \<Rightarrow>
                                (Inl (ServerKeyringRevisionConflict expected (map_option rec_revision r)), db))
                      else (reload db, db))"

section \<open>The manager of a process\<close>

datatype manager_error = ManagerDatabase database_error | ManagerNoise noise_error

type_synonym 'a mresult = "manager_error + 'a"

record runtime_keyring =
  rk_keyring :: server_key_ring
  rk_revision :: int

definition manager_load_or_create ::
  "noise_identity nresult \<Rightarrow> int dresult \<Rightarrow> database \<Rightarrow> runtime_keyring mresult \<times> database" where
  "manager_load_or_create gi now db =
     (case load_server_keyring_record db of
        Inl err \<Rightarrow> (Inl (ManagerDatabase err), db)
      | Inr found \<Rightarrow>
          (case (case found of
                   Some r \<Rightarrow> (Inr r, db)
                 | None \<Rightarrow>
                     (case gi of
                        Inl err \<Rightarrow> (Inl (ManagerNoise err), db)
                      | Inr i \<Rightarrow>
                          (case insert_server_keyring_if_absent now (key_ring_new i) db of
                             (Inl err, db) \<Rightarrow> (Inl (ManagerDatabase err), db)
                           | (Inr r, db) \<Rightarrow> (Inr r, db)))) of
             (Inl err, db) \<Rightarrow> (Inl err, db)
           | (Inr r, db) \<Rightarrow>
               (case key_ring_from_snapshot (rec_snapshot r) of
                  Inl err \<Rightarrow> (Inl (ManagerNoise err), db)
                | Inr k \<Rightarrow> (Inr \<lparr>rk_keyring = k, rk_revision = rec_revision r\<rparr>, db))))"

definition sync_once :: "database \<Rightarrow> runtime_keyring \<Rightarrow> bool mresult \<times> runtime_keyring" where
  "sync_once db m =
     (case load_server_keyring_record db of
        Inl err \<Rightarrow> (Inl (ManagerDatabase err), m)
      | Inr None \<Rightarrow> (Inl (ManagerDatabase MissingServerKeyring), m)
      | Inr (Some r) \<Rightarrow>
          if rec_revision r \<le> rk_revision m then (Inr False, m)
          else case key_ring_from_snapshot (rec_snapshot r) of
                 Inl err \<Rightarrow> (Inl (ManagerNoise err), m)
               | Inr k \<Rightarrow> (Inr True, \<lparr>rk_keyring = k, rk_revision = rec_revision r\<rparr>))"

definition mutate ::
  "(database \<Rightarrow> database) \<Rightarrow> int dresult \<Rightarrow> (server_key_ring \<Rightarrow> 'a nresult \<times> server_key_ring)
   \<Rightarrow> runtime_keyring \<Rightarrow> database \<Rightarrow> 'a mresult \<times> runtime_keyring \<times> database" where
  "mutate between now operation m db =
     (case key_ring_from_snapshot (rk_keyring m) of
        Inl err \<Rightarrow> (Inl (ManagerNoise err), m, db)
      | Inr candidate \<Rightarrow>
          (case operation candidate of
             (Inl err, _) \<Rightarrow> (Inl (ManagerNoise err), m, db)
           | (Inr result, candidate) \<Rightarrow>
               (case save_server_keyring_if_revision between now (rk_revision m) candidate db of
                  (Inl err, db) \<Rightarrow> (Inl (ManagerDatabase err), m, db)
                | (Inr r, db) \<Rightarrow>
                    (Inr result, \<lparr>rk_keyring = candidate, rk_revision = rec_revision r\<rparr>, db))))"

definition manager_prepare_rotation where
  "manager_prepare_rotation blake gi gr between now =
     mutate between now (server_prepare_rotation blake gi gr)"

definition manager_promote_next where
  "manager_promote_next r between now = mutate between now (promote_next r)"

definition manager_cancel_rotation where
  "manager_cancel_rotation between now = mutate between now server_cancel_rotation"

definition manager_retire_previous where
  "manager_retire_previous between now = mutate between now retire_previous"

section \<open>What goes in comes out\<close>

definition ring_typed :: "server_key_ring \<Rightarrow> bool" where
  "ring_typed s \<longleftrightarrow> identity_typed (sk_current s) \<and> pred_option identity_typed (sk_next s) \<and>
     pred_option identity_typed (sk_previous s) \<and>
     pred_option (\<lambda>r. length (rid_bytes r) = rotation_id_len) (sk_rotation_id s)"

lemma restore_optional_export:
  "pred_option identity_typed i \<Longrightarrow>
   restore_optional_identity name (fst (export_optional_identity i)) (snd (export_optional_identity i)) = Inr i"
  by (cases i) (simp_all add: restore_optional_identity_def export_optional_identity_def)

lemma restore_rotation_export:
  "pred_option (\<lambda>r. length (rid_bytes r) = rotation_id_len) r \<Longrightarrow>
   restore_rotation_id (map_option rid_bytes r) = Inr r"
  by (cases r) (simp_all add: restore_rotation_id_def rotation_id_from_bytes_def)

lemma load_row_of:
  assumes "ring_typed s" and "in_step (sk_next s) (sk_rotation_id s)" and "0 \<le> n"
  shows "load_row (row_of s n c u) = Inr \<lparr>rec_snapshot = s, rec_revision = n\<rparr>"
proof -
  have "key_ring_from_snapshot s = Inr s"
    using assms(2) by (simp add: ring_rotation.restore_consistent)
  with assms show ?thesis
    by (cases s) (simp add: load_row_def row_of_def Let_def ring_typed_def restore_required_identity_def
        restore_optional_export restore_rotation_export)
qed


section \<open>Several processes on one database\<close>

definition ring_ok :: "server_key_ring \<Rightarrow> bool" where
  "ring_ok s \<longleftrightarrow> ring_typed s \<and> in_step (sk_next s) (sk_rotation_id s)"

text \<open>The abstract view: one key ring, changed by one operation at a time.\<close>

inductive ring_next :: "(bytes \<Rightarrow> bytes) \<Rightarrow> server_key_ring \<Rightarrow> server_key_ring \<Rightarrow> bool" for blake where
  prepared: "server_prepare_rotation blake (Inr i) (Inr r) s = (Inr x, t) \<Longrightarrow> identity_typed i \<Longrightarrow>
    length (rid_bytes r) = rotation_id_len \<Longrightarrow> ring_next blake s t"
| promoted: "promote_next r s = (Inr (), t) \<Longrightarrow> ring_next blake s t"
| cancelled: "server_cancel_rotation s = (Inr (), t) \<Longrightarrow> ring_next blake s t"
| retired: "retire_previous s = (Inr (), t) \<Longrightarrow> ring_next blake s t"

lemma ring_next_ok:
  assumes "ring_next blake s t" and "ring_ok s"
  shows "ring_ok t"
  using assms
  by (cases rule: ring_next.cases)
    (auto simp: ring_ok_def ring_typed_def in_step_def server_prepare_rotation_def promote_next_def
      server_cancel_rotation_def retire_previous_def split: if_splits option.splits)

text \<open>A cluster: the database and the managers of the processes that run. \<open>history\<close> is the
  sequence of rings committed so far, the revision of each its position.\<close>

record cluster =
  cl_database :: database
  cl_managers :: "runtime_keyring list"

inductive cluster_step :: "(bytes \<Rightarrow> bytes) \<Rightarrow> cluster \<Rightarrow> cluster \<Rightarrow> bool" for blake where
  starts: "manager_load_or_create (Inr i) (Inr now) (cl_database c) = (Inr m, db) \<Longrightarrow> identity_typed i \<Longrightarrow>
    cluster_step blake c (c\<lparr>cl_database := db, cl_managers := cl_managers c @ [m]\<rparr>)"
| syncs: "n < length (cl_managers c) \<Longrightarrow> cluster_step blake c
    (c\<lparr>cl_managers := (cl_managers c)[n := snd (sync_once (cl_database c) (cl_managers c ! n))]\<rparr>)"
| prepares: "n < length (cl_managers c) \<Longrightarrow>
    manager_prepare_rotation blake (Inr i) (Inr r) id (Inr now) (cl_managers c ! n) (cl_database c) = (res, m, db) \<Longrightarrow>
    identity_typed i \<Longrightarrow> length (rid_bytes r) = rotation_id_len \<Longrightarrow>
    cluster_step blake c (c\<lparr>cl_database := db, cl_managers := (cl_managers c)[n := m]\<rparr>)"
| promotes: "n < length (cl_managers c) \<Longrightarrow>
    manager_promote_next r id (Inr now) (cl_managers c ! n) (cl_database c) = (res, m, db) \<Longrightarrow>
    cluster_step blake c (c\<lparr>cl_database := db, cl_managers := (cl_managers c)[n := m]\<rparr>)"
| cancels: "n < length (cl_managers c) \<Longrightarrow>
    manager_cancel_rotation id (Inr now) (cl_managers c ! n) (cl_database c) = (res, m, db) \<Longrightarrow>
    cluster_step blake c (c\<lparr>cl_database := db, cl_managers := (cl_managers c)[n := m]\<rparr>)"
| retires: "n < length (cl_managers c) \<Longrightarrow>
    manager_retire_previous id (Inr now) (cl_managers c ! n) (cl_database c) = (res, m, db) \<Longrightarrow>
    cluster_step blake c (c\<lparr>cl_database := db, cl_managers := (cl_managers c)[n := m]\<rparr>)"

definition in_history :: "server_key_ring list \<Rightarrow> runtime_keyring \<Rightarrow> bool" where
  "in_history history m \<longleftrightarrow> 0 \<le> rk_revision m \<and> nat (rk_revision m) < length history \<and>
     rk_keyring m = history ! nat (rk_revision m)"

definition committed :: "server_key_ring list \<Rightarrow> database \<Rightarrow> bool" where
  "committed history db \<longleftrightarrow>
     (case db of
        None \<Rightarrow> history = []
      | Some row \<Rightarrow> history \<noteq> [] \<and> (\<exists>created updated.
          row = row_of (last history) (int (length history) - 1) created updated))"

definition linear :: "(bytes \<Rightarrow> bytes) \<Rightarrow> server_key_ring list \<Rightarrow> bool" where
  "linear blake history \<longleftrightarrow> (\<forall>s \<in> set history. ring_ok s) \<and>
     (\<forall>n. Suc n < length history \<longrightarrow> ring_next blake (history ! n) (history ! Suc n))"

lemma linear_snoc:
  assumes "linear blake h" and "h \<noteq> []" and "ring_next blake (last h) t"
  shows "linear blake (h @ [t])"
proof -
  have "ring_ok t" using assms ring_next_ok by (auto simp: linear_def)
  with assms show ?thesis
    by (auto simp: linear_def nth_append last_conv_nth less_Suc_eq) (metis One_nat_def diff_Suc_1)
qed

lemma in_history_snoc: "in_history h m \<Longrightarrow> in_history (h @ [t]) m"
  by (auto simp: in_history_def nth_append)

lemma load_committed:
  assumes "committed h (Some row)" and "linear blake h"
  shows "load_row row = Inr \<lparr>rec_snapshot = last h, rec_revision = int (length h) - 1\<rparr>"
proof -
  from assms(1) obtain c u where row: "row = row_of (last h) (int (length h) - 1) c u" and "h \<noteq> []"
    by (auto simp: committed_def)
  then have "ring_ok (last h)" "0 \<le> int (length h) - 1"
    using assms(2) by (auto simp: linear_def Suc_le_eq)
  then show ?thesis unfolding row by (intro load_row_of) (auto simp: ring_ok_def)
qed

lemma last_in_history: "h \<noteq> [] \<Longrightarrow> in_history h \<lparr>rk_keyring = last h, rk_revision = int (length h) - 1\<rparr>"
  by (simp add: in_history_def last_conv_nth nat_diff_distrib')

lemma restore_ok: "ring_ok s \<Longrightarrow> key_ring_from_snapshot s = Inr s"
  by (simp add: ring_rotation.restore_consistent ring_ok_def)

lemma mutate_history:
  assumes "mutate id (Inr now) operation m db = (res, m', db')" and "committed h db" and "linear blake h"
    and "in_history h m" and "\<And>s x t. operation s = (Inr x, t) \<Longrightarrow> ring_next blake s t"
  shows "m' = m \<and> db' = db \<or> (\<exists>t. committed (h @ [t]) db' \<and> linear blake (h @ [t]) \<and> in_history (h @ [t]) m')"
proof -
  have ok: "ring_ok (rk_keyring m)" using assms(3,4) by (auto simp: linear_def in_history_def)
  obtain row where row: "db = Some row" using assms(2,4) by (cases db) (auto simp: committed_def in_history_def)
  obtain r t where run: "operation (rk_keyring m) = (r, t)" by fastforce
  show ?thesis
  proof (cases "\<exists>x. r = Inr x \<and> rk_revision m \<noteq> i64_max \<and> kr_revision row = rk_revision m")
    case False
    then show ?thesis
      using assms(1) run row restore_ok [OF ok]
      by (auto simp: mutate_def save_server_keyring_if_revision_def update_if_revision_def
          load_server_keyring_record_def split: sum.splits if_splits)
  next
    case True
    then obtain x where x: "r = Inr x" "rk_revision m \<noteq> i64_max" "kr_revision row = rk_revision m" by blast
    have rev: "rk_revision m = int (length h) - 1" and "h \<noteq> []"
      using assms(2) row x(3) by (auto simp: committed_def row_of_def)
    then have last: "rk_keyring m = last h"
      using assms(4) by (simp add: in_history_def last_conv_nth nat_diff_distrib')
    have nxt: "ring_next blake (last h) t" using assms(5) run x(1) last by auto
    then have lin: "linear blake (h @ [t])" using linear_snoc assms(3) \<open>h \<noteq> []\<close> by blast
    then have "ring_ok t" by (simp add: linear_def)
    let ?row = "row_of t (rk_revision m + 1) (kr_created_at row) now"
    have com: "committed (h @ [t]) (Some ?row)"
      using rev by (auto simp: committed_def)
    have "m' = \<lparr>rk_keyring = t, rk_revision = int (length h)\<rparr> \<and> db' = Some ?row"
      using assms(1) run x row restore_ok [OF ok] restore_ok [OF \<open>ring_ok t\<close>] load_committed [OF com lin]
      by (simp add: mutate_def save_server_keyring_if_revision_def update_if_revision_def reload_def
          load_server_keyring_record_def)
    then show ?thesis using com lin last_in_history [of "h @ [t]"] by auto
  qed
qed

lemma sync_history:
  assumes "committed h db" and "linear blake h" and "in_history h m"
  shows "in_history h (snd (sync_once db m))"
proof -
  obtain row where row: "db = Some row" and "h \<noteq> []"
    using assms(1,3) by (cases db) (auto simp: committed_def in_history_def)
  then have "ring_ok (last h)" using assms(2) by (auto simp: linear_def)
  with row assms show ?thesis
    using load_committed [of h row blake] last_in_history [OF \<open>h \<noteq> []\<close>] restore_ok
    by (auto simp: sync_once_def load_server_keyring_record_def)
qed

lemma start_history:
  assumes "manager_load_or_create (Inr i) (Inr now) db = (Inr m, db')" and "committed h db"
    and "linear blake h" and "identity_typed i"
  shows "\<exists>tl. committed (h @ tl) db' \<and> linear blake (h @ tl) \<and> in_history (h @ tl) m"
proof (cases db)
  case (Some row)
  then have h: "h \<noteq> []" "ring_ok (last h)" using assms(2,3) by (auto simp: committed_def linear_def)
  have "m = \<lparr>rk_keyring = last h, rk_revision = int (length h) - 1\<rparr>" "db' = db"
    using assms(1-3) Some load_committed [of h row blake] restore_ok [OF h(2)]
    by (auto simp: manager_load_or_create_def load_server_keyring_record_def)
  then show ?thesis using assms(2,3) last_in_history [OF h(1)] by (intro exI [of _ "[]"]) simp
next
  case None
  then have [simp]: "h = []" using assms(2) by (simp add: committed_def)
  let ?s = "key_ring_new i"
  have ok: "ring_ok ?s"
    using assms(4) by (simp add: ring_ok_def ring_typed_def key_ring_new_def in_step_def)
  have com: "committed [?s] (Some (row_of ?s 0 now now))" by (auto simp: committed_def)
  have lin: "linear blake [?s]" using ok by (simp add: linear_def)
  have "m = \<lparr>rk_keyring = ?s, rk_revision = 0\<rparr>" "db' = Some (row_of ?s 0 now now)"
    using assms(1) None load_committed [OF com lin] restore_ok [OF ok]
    by (auto simp: manager_load_or_create_def load_server_keyring_record_def reload_def
        insert_server_keyring_if_absent_def)
  then show ?thesis using com lin last_in_history [of "[?s]"] by (intro exI [of _ "[?s]"]) simp
qed

definition cluster_refines :: "(bytes \<Rightarrow> bytes) \<Rightarrow> server_key_ring list \<Rightarrow> cluster \<Rightarrow> bool" where
  "cluster_refines blake h c \<longleftrightarrow>
     committed h (cl_database c) \<and> linear blake h \<and> list_all (in_history h) (cl_managers c)"

lemma list_all_update: "list_all P xs \<Longrightarrow> P x \<Longrightarrow> list_all P (xs[n := x])"
  using set_update_subset_insert [of xs n x] by (auto simp: list_all_iff)

lemma mutate_refines:
  assumes "n < length (cl_managers c)"
    and "mutate id (Inr now) operation (cl_managers c ! n) (cl_database c) = (res, m, db)"
    and "\<And>s x t. operation s = (Inr x, t) \<Longrightarrow> ring_next blake s t" and "cluster_refines blake h c"
  shows "\<exists>tl. cluster_refines blake (h @ tl) (c\<lparr>cl_database := db, cl_managers := (cl_managers c)[n := m]\<rparr>)"
proof -
  have "in_history h (cl_managers c ! n)" using assms(1,4) by (simp add: cluster_refines_def list_all_length)
  then consider "m = cl_managers c ! n" "db = cl_database c"
    | t where "committed (h @ [t]) db" "linear blake (h @ [t])" "in_history (h @ [t]) m"
    using mutate_history [OF assms(2), of h blake] assms(3,4) unfolding cluster_refines_def by blast
  then show ?thesis
  proof cases
    case 1
    then show ?thesis using assms(4) by (intro exI [of _ "[]"]) simp
  next
    case (2 t)
    moreover have "list_all (in_history (h @ [t])) (cl_managers c)"
      using assms(4) in_history_snoc by (auto simp: cluster_refines_def list_all_iff)
    ultimately show ?thesis by (intro exI [of _ "[t]"]) (simp add: cluster_refines_def list_all_update)
  qed
qed

lemma cluster_step_refines:
  assumes "cluster_step blake c d" and "cluster_refines blake h c"
  shows "\<exists>tl. cluster_refines blake (h @ tl) d"
  using assms(1)
proof (cases rule: cluster_step.cases)
  case (starts i now m db)
  then obtain tl where tl: "committed (h @ tl) db" "linear blake (h @ tl)" "in_history (h @ tl) m"
    using start_history [of i now "cl_database c" m db h blake] assms(2) by (auto simp: cluster_refines_def)
  moreover have "list_all (in_history (h @ tl)) (cl_managers c)"
    using assms(2) by (auto simp: cluster_refines_def list_all_iff in_history_def nth_append)
  ultimately show ?thesis using starts by (intro exI [of _ tl]) (simp add: cluster_refines_def)
next
  case (syncs n)
  then have "in_history h (cl_managers c ! n)" using assms(2) by (simp add: cluster_refines_def list_all_length)
  then show ?thesis
    using syncs assms(2) sync_history [of h "cl_database c" blake]
    by (intro exI [of _ "[]"]) (simp add: cluster_refines_def list_all_update)
next
  case (prepares n i r now res m db)
  show ?thesis unfolding prepares(1)
    by (rule mutate_refines [OF prepares(2) prepares(3) [unfolded manager_prepare_rotation_def] _ assms(2)])
      (rule ring_next.prepared, assumption, rule prepares(4), rule prepares(5))
next
  case (promotes n r now res m db)
  show ?thesis unfolding promotes(1)
    by (rule mutate_refines [OF promotes(2) promotes(3) [unfolded manager_promote_next_def] _ assms(2)])
      (simp add: ring_next.promoted)
next
  case (cancels n now res m db)
  show ?thesis unfolding cancels(1)
    by (rule mutate_refines [OF cancels(2) cancels(3) [unfolded manager_cancel_rotation_def] _ assms(2)])
      (simp add: ring_next.cancelled)
next
  case (retires n now res m db)
  show ?thesis unfolding retires(1)
    by (rule mutate_refines [OF retires(2) retires(3) [unfolded manager_retire_previous_def] _ assms(2)])
      (simp add: ring_next.retired)
qed


lemma sample_typed: "identity_typed (sample_identity b)" "length (rid_bytes (sample_rotation n)) = rotation_id_len"
  by (simp_all add: sample_identity_def identity_typed_def sample_rotation_def key_len_def rotation_id_len_def)


section \<open>Validation on the way in\<close>

lemma restore_optional_iff:
  "restore_optional_identity name a b = Inr i \<longleftrightarrow>
   pred_option identity_typed i \<and> a = fst (export_optional_identity i) \<and> b = snd (export_optional_identity i)"
  by (cases i)
    (auto simp: restore_optional_identity_def export_optional_identity_def identity_from_parts_iff
      intro: identity_inj split: option.splits sum.splits)

lemma restore_rotation_iff:
  "restore_rotation_id b = Inr r \<longleftrightarrow>
   pred_option (\<lambda>r. length (rid_bytes r) = rotation_id_len) r \<and> b = map_option rid_bytes r"
  by (cases r) (auto simp: restore_rotation_id_def rotation_id_from_bytes_def split: option.splits sum.splits if_splits)

text \<open>
  Loading is exactly the inverse of writing. A row is accepted as a record if and only
  if it is what writing that record's ring at that revision gives, where the ring has keys and
  rotation ids of the right length, has a rotation id exactly when it has a next key, and the
  revision is not negative. So every ring that is written can be read back, and half an
  identity, a key of the wrong length or a rotation without its key is refused.
\<close>

theorem keyring_row_round_trip:
  "load_row row = Inr r \<longleftrightarrow>
   ring_ok (rec_snapshot r) \<and> 0 \<le> rec_revision r \<and>
   row = row_of (rec_snapshot r) (rec_revision r) (kr_created_at row) (kr_updated_at row)"
proof
  assume "load_row row = Inr r"
  then show "ring_ok (rec_snapshot r) \<and> 0 \<le> rec_revision r \<and>
     row = row_of (rec_snapshot r) (rec_revision r) (kr_created_at row) (kr_updated_at row)"
    by (cases row)
      (auto simp: load_row_def row_of_def ring_ok_def ring_typed_def Let_def restore_required_identity_def
        identity_from_parts_iff restore_optional_iff restore_rotation_iff ring_rotation.restore_consistent
        split: if_splits sum.splits)
next
  assume *: "ring_ok (rec_snapshot r) \<and> 0 \<le> rec_revision r \<and>
     row = row_of (rec_snapshot r) (rec_revision r) (kr_created_at row) (kr_updated_at row)"
  then have "ring_ok (rec_snapshot r)" "0 \<le> rec_revision r" by simp_all
  then have "load_row (row_of (rec_snapshot r) (rec_revision r) (kr_created_at row) (kr_updated_at row)) = Inr r"
    by (cases r) (simp add: load_row_of ring_ok_def)
  with * show "load_row row = Inr r" by metis
qed

section \<open>Between the update and the reload\<close>

lemma mutate_commits:
  assumes "ring_ok s" and "operation s = (Inr x, t)" and "ring_ok t" and "n \<noteq> i64_max"
    and "between (Some (row_of t (n + 1) created now)) = Some row'" and "load_row row' = Inr r"
  shows "mutate between (Inr now) operation \<lparr>rk_keyring = s, rk_revision = n\<rparr>
      (Some (row_of q n created updated)) =
    (Inr x, \<lparr>rk_keyring = t, rk_revision = rec_revision r\<rparr>, Some row')"
  using assms restore_ok
  by (simp add: mutate_def save_server_keyring_if_revision_def update_if_revision_def reload_def
      load_server_keyring_record_def row_of_def)

text \<open>
  C33: The commit and the reload of \<open>save_server_keyring_if_revision\<close> are two statements, and
  only the revision of the reload is used. If another process commits a ring \<open>u\<close> on top
  of the ring \<open>t\<close> between the two, the manager installs its own \<open>t\<close> under the revision of
  \<open>u\<close>. Synchronising then finds nothing new, and the next operation of the manager passes
  the check of the revision and replaces \<open>u\<close> by a successor of \<open>t\<close>.
\<close>

theorem reload_race_loses_commit:
  assumes "ring_ok s" and "operation s = (Inr x, t)" and "ring_ok t" and "ring_ok u"
    and "0 \<le> n" and "n + 2 < i64_max"
    and "between (Some (row_of t (n + 1) created now)) = Some (row_of u (n + 2) created later)"
    and "mutate between (Inr now) operation \<lparr>rk_keyring = s, rk_revision = n\<rparr>
        (Some (row_of s n created updated)) = (res, m, db)"
    and "operation' t = (Inr y, v)" and "ring_ok v"
  shows "res = Inr x \<and> m = \<lparr>rk_keyring = t, rk_revision = n + 2\<rparr> \<and> sync_once db m = (Inr False, m) \<and>
    mutate id (Inr again) operation' m db =
      (Inr y, \<lparr>rk_keyring = v, rk_revision = n + 3\<rparr>, Some (row_of v (n + 3) created again))"
proof -
  have load: "load_row (row_of z k c w) = Inr \<lparr>rec_snapshot = z, rec_revision = k\<rparr>" if "ring_ok z" "0 \<le> k" for z k c w
    using load_row_of that by (simp add: ring_ok_def)
  have first: "res = Inr x" "m = \<lparr>rk_keyring = t, rk_revision = n + 2\<rparr>" "db = Some (row_of u (n + 2) created later)"
    using mutate_commits [where operation = operation and s = s and t = t and x = x and n = n and q = s
        and updated = updated and between = between and created = created and now = now
        and row' = "row_of u (n + 2) created later", OF assms(1-3) _ assms(7) load] assms(4,5,6,8)
    by auto
  have "mutate id (Inr again) operation' m db =
      (Inr y, \<lparr>rk_keyring = v, rk_revision = n + 3\<rparr>, Some (row_of v (n + 3) created again))"
    unfolding first using mutate_commits [where operation = operation' and s = t and t = v and x = y
        and n = "n + 2" and between = id and created = created and now = again and q = u
        and updated = later and row' = "row_of v (n + 3) created again", OF assms(3,9,10) _ _ load]
      assms(5,6,10) by (simp add: add.commute)
  with first assms(4,5) show ?thesis by (simp add: sync_once_def load_server_keyring_record_def load)
qed

definition sample_prepare ::
  "server_key_ring \<Rightarrow> (rotation_id \<times> noise_identity \<times> key_announcement) nresult \<times> server_key_ring" where
  "sample_prepare = server_prepare_rotation id (Inr (sample_identity 2)) (Inr (sample_rotation 7))"

definition sample_rival :: "server_key_ring \<Rightarrow> database \<Rightarrow> database" where
  "sample_rival t db = snd (snd (manager_cancel_rotation id (Inr 7) \<lparr>rk_keyring = t, rk_revision = 1\<rparr> db))"

theorem reload_race_loses_commit_witness:
  "let s = key_ring_new (sample_identity 1); t = snd (sample_prepare s);
       (res, m, db) = mutate (sample_rival t) (Inr 6) sample_prepare \<lparr>rk_keyring = s, rk_revision = 0\<rparr>
         (Some (row_of s 0 5 5))
   in isl res = False \<and> m = \<lparr>rk_keyring = t, rk_revision = 2\<rparr> \<and> sync_once db m = (Inr False, m) \<and>
      snd (snd (mutate id (Inr 8) (promote_next (sample_rotation 7)) m db)) =
        Some (row_of (snd (promote_next (sample_rotation 7) t)) 3 5 8)"
proof -
  let ?s = "key_ring_new (sample_identity 1)"
  let ?t = "?s\<lparr>sk_next := Some (sample_identity 2), sk_rotation_id := Some (sample_rotation 7)\<rparr>"
  let ?x = "(sample_rotation 7, sample_identity 2, announcement_for id (sample_rotation 7) (sample_identity 2))"
  let ?v = "snd (promote_next (sample_rotation 7) ?t)"
  have prep: "sample_prepare ?s = (Inr ?x, ?t)"
    by (simp add: sample_prepare_def server_prepare_rotation_def key_ring_new_def)
  have prom: "promote_next (sample_rotation 7) ?t = (Inr (), ?v)" by (simp add: promote_next_def)
  have ok: "ring_ok ?s" "ring_ok ?t" "ring_ok ?v"
    by (simp_all add: ring_ok_def ring_typed_def key_ring_new_def in_step_def promote_next_def sample_typed)
  have cancel: "server_cancel_rotation ?t = (Inr (), ?s)"
    by (simp add: server_cancel_rotation_def key_ring_new_def)
  have load: "load_row (row_of ?s 2 5 7) = Inr \<lparr>rec_snapshot = ?s, rec_revision = 2\<rparr>"
    using ok(1) load_row_of by (simp add: ring_ok_def)
  have rival: "sample_rival ?t (Some (row_of ?t (0 + 1) 5 6)) = Some (row_of ?s (0 + 2) 5 7)"
    unfolding sample_rival_def manager_cancel_rotation_def
    using mutate_commits [where operation = server_cancel_rotation and s = ?t and t = ?s and x = "()"
        and n = 1 and q = ?t and between = id and created = 5 and now = 7 and updated = 6
        and row' = "row_of ?s 2 5 7", OF ok(2) cancel ok(1) _ _ load] by (simp add: i64_max_def)
  obtain res m db where run: "mutate (sample_rival ?t) (Inr 6) sample_prepare \<lparr>rk_keyring = ?s, rk_revision = 0\<rparr>
      (Some (row_of ?s 0 5 5)) = (res, m, db)" by (rule prod_cases3)
  have big: "0 + 2 < i64_max" by (simp add: i64_max_def)
  note lost = reload_race_loses_commit [where operation = sample_prepare and operation' = "promote_next (sample_rotation 7)"
      and s = ?s and t = ?t and n = 0 and between = "sample_rival ?t" and again = 8, OF ok(1) prep ok(2,1) order.refl big rival run prom ok(3)]
  then show ?thesis unfolding Let_def prep snd_conv fst_conv run by clarsimp
qed
end
