(* ===== verification/Outbox.thy ===== *)
theory Outbox
  imports Client_Error "HOL-Library.Sublist"
begin

text \<open>
  The three bounded queues between the Agent and its session (\<open>outbox.rs\<close>): Task reports, Job
  events and results of Job commands wait here while the connection is down. The client they
  send through is a parameter \<open>send\<close> with a state of its own. The three are written out
  separately in the code and here; the locale \<open>outbox\<close> states what they share.
\<close>

section \<open>The queues\<close>

record 'm task_report_outbox =
  tro_pending :: "'m list"
  tro_capacity :: nat
  tro_dropped :: u64

record 'm job_event_outbox =
  jeo_pending :: "'m list"
  jeo_capacity :: nat
  jeo_dropped :: u64
  jeo_stats :: "nat \<times> u64"

record 'm job_result_outbox =
  jro_pending :: "'m list"
  jro_capacity :: nat
  jro_dropped :: u64
  jro_stats :: "nat \<times> u64"

type_synonym ('m, 'c) sender = "'m \<Rightarrow> 'c \<Rightarrow> unit cresult \<times> 'c"

subsection \<open>Task reports\<close>

definition task_report_new :: "nat \<Rightarrow> string + 'm task_report_outbox" where
  "task_report_new capacity =
     (if 0 < capacity
      then Inr \<lparr>tro_pending = [], tro_capacity = capacity, tro_dropped = 0\<rparr>
      else Inl ''Task report outbox capacity must be greater than zero'')"

definition task_report_push :: "'m \<Rightarrow> 'm task_report_outbox \<Rightarrow> 'm task_report_outbox" where
  "task_report_push m b =
     (let b = (if length (tro_pending b) = tro_capacity b
               then b\<lparr>tro_pending := tl (tro_pending b), tro_dropped := saturating_add_u64 (tro_dropped b) 1\<rparr>
               else b)
      in b\<lparr>tro_pending := tro_pending b @ [m]\<rparr>)"

definition task_report_submit ::
  "('m, 'c) sender \<Rightarrow> 'm \<Rightarrow> 'm task_report_outbox \<Rightarrow> 'c \<Rightarrow> unit cresult \<times> 'm task_report_outbox \<times> 'c" where
  "task_report_submit send m b c =
     (if tro_pending b \<noteq> [] then (Inr (), task_report_push m b, c)
      else case send m c of
             (Inr _, c) \<Rightarrow> (Inr (), b, c)
           | (Inl err, c) \<Rightarrow>
               if is_retryable err then (Inr (), task_report_push m b, c) else (Inl err, b, c))"

function task_report_flush ::
  "('m, 'c) sender \<Rightarrow> 'm task_report_outbox \<Rightarrow> 'c \<Rightarrow> unit cresult \<times> 'm task_report_outbox \<times> 'c" where
  "task_report_flush send b c =
     (case tro_pending b of
        [] \<Rightarrow> (Inr (), b, c)
      | m # rest \<Rightarrow>
          (case send m c of
             (Inr _, c) \<Rightarrow> task_report_flush send (b\<lparr>tro_pending := rest\<rparr>) c
           | (Inl err, c) \<Rightarrow> (if is_retryable err then Inr () else Inl err, b, c)))"
  by pat_completeness auto
termination
  by (relation "measure (\<lambda>(_, b, _). length (tro_pending b))") auto

subsection \<open>Job events\<close>

definition job_event_new :: "nat \<Rightarrow> nat \<times> u64 \<Rightarrow> string + 'm job_event_outbox" where
  "job_event_new capacity stats =
     (if 0 < capacity
      then Inr \<lparr>jeo_pending = [], jeo_capacity = capacity, jeo_dropped = 0, jeo_stats = stats\<rparr>
      else Inl ''Job event outbox capacity must be greater than zero'')"

definition job_event_push :: "'m \<Rightarrow> 'm job_event_outbox \<Rightarrow> 'm job_event_outbox" where
  "job_event_push m b =
     (let b = (if length (jeo_pending b) = jeo_capacity b
               then b\<lparr>jeo_pending := tl (jeo_pending b), jeo_dropped := saturating_add_u64 (jeo_dropped b) 1\<rparr>
               else b);
          b = b\<lparr>jeo_pending := jeo_pending b @ [m]\<rparr>
      in b\<lparr>jeo_stats := (length (jeo_pending b), jeo_dropped b)\<rparr>)"

definition job_event_submit ::
  "('m, 'c) sender \<Rightarrow> 'm \<Rightarrow> 'm job_event_outbox \<Rightarrow> 'c \<Rightarrow> unit cresult \<times> 'm job_event_outbox \<times> 'c" where
  "job_event_submit send m b c =
     (if jeo_pending b \<noteq> [] then (Inr (), job_event_push m b, c)
      else case send m c of
             (Inr _, c) \<Rightarrow> (Inr (), b, c)
           | (Inl err, c) \<Rightarrow>
               if is_retryable err then (Inr (), job_event_push m b, c) else (Inl err, b, c))"

function job_event_flush ::
  "('m, 'c) sender \<Rightarrow> 'm job_event_outbox \<Rightarrow> 'c \<Rightarrow> unit cresult \<times> 'm job_event_outbox \<times> 'c" where
  "job_event_flush send b c =
     (case jeo_pending b of
        [] \<Rightarrow> (Inr (), b, c)
      | m # rest \<Rightarrow>
          (case send m c of
             (Inr _, c) \<Rightarrow>
               job_event_flush send (b\<lparr>jeo_pending := rest, jeo_stats := (length rest, jeo_dropped b)\<rparr>) c
           | (Inl err, c) \<Rightarrow> (if is_retryable err then Inr () else Inl err, b, c)))"
  by pat_completeness auto
termination
  by (relation "measure (\<lambda>(_, b, _). length (jeo_pending b))") auto

subsection \<open>Results of Job commands\<close>

definition job_result_new :: "nat \<Rightarrow> nat \<times> u64 \<Rightarrow> string + 'm job_result_outbox" where
  "job_result_new capacity stats =
     (if 0 < capacity
      then Inr \<lparr>jro_pending = [], jro_capacity = capacity, jro_dropped = 0, jro_stats = stats\<rparr>
      else Inl ''Job result outbox capacity must be greater than zero'')"

definition job_result_push :: "'m \<Rightarrow> 'm job_result_outbox \<Rightarrow> 'm job_result_outbox" where
  "job_result_push m b =
     (let b = (if length (jro_pending b) = jro_capacity b
               then b\<lparr>jro_pending := tl (jro_pending b), jro_dropped := saturating_add_u64 (jro_dropped b) 1\<rparr>
               else b);
          b = b\<lparr>jro_pending := jro_pending b @ [m]\<rparr>
      in b\<lparr>jro_stats := (length (jro_pending b), jro_dropped b)\<rparr>)"

definition job_result_submit ::
  "('m, 'c) sender \<Rightarrow> 'm \<Rightarrow> 'm job_result_outbox \<Rightarrow> 'c \<Rightarrow> unit cresult \<times> 'm job_result_outbox \<times> 'c" where
  "job_result_submit send m b c =
     (if jro_pending b \<noteq> [] then (Inr (), job_result_push m b, c)
      else case send m c of
             (Inr _, c) \<Rightarrow> (Inr (), b, c)
           | (Inl err, c) \<Rightarrow>
               if is_retryable err then (Inr (), job_result_push m b, c) else (Inl err, b, c))"

function job_result_flush ::
  "('m, 'c) sender \<Rightarrow> 'm job_result_outbox \<Rightarrow> 'c \<Rightarrow> unit cresult \<times> 'm job_result_outbox \<times> 'c" where
  "job_result_flush send b c =
     (case jro_pending b of
        [] \<Rightarrow> (Inr (), b, c)
      | m # rest \<Rightarrow>
          (case send m c of
             (Inr _, c) \<Rightarrow>
               job_result_flush send (b\<lparr>jro_pending := rest, jro_stats := (length rest, jro_dropped b)\<rparr>) c
           | (Inl err, c) \<Rightarrow> (if is_retryable err then Inr () else Inl err, b, c)))"
  by pat_completeness auto
termination
  by (relation "measure (\<lambda>(_, b, _). length (jro_pending b))") auto

declare task_report_flush.simps [simp del] job_event_flush.simps [simp del] job_result_flush.simps [simp del]

section \<open>What they share\<close>

text \<open>
  What the event loop does to a queue: it hands over a message, or flushes the queue after a
  reconnect. An error leaves the loop.
\<close>

datatype 'm outbox_call = Submit 'm | Flush

fun submitted :: "'m outbox_call list \<Rightarrow> 'm list" where
  "submitted [] = []"
| "submitted (Submit m # calls) = m # submitted calls"
| "submitted (Flush # calls) = submitted calls"

fun run_calls ::
  "('m \<Rightarrow> 'b \<Rightarrow> 'c \<Rightarrow> unit cresult \<times> 'b \<times> 'c) \<Rightarrow> ('b \<Rightarrow> 'c \<Rightarrow> unit cresult \<times> 'b \<times> 'c)
   \<Rightarrow> 'm outbox_call list \<Rightarrow> 'b \<Rightarrow> 'c \<Rightarrow> unit cresult \<times> 'b \<times> 'c" where
  "run_calls submit flush [] b c = (Inr (), b, c)"
| "run_calls submit flush (x # calls) b c =
     (case (case x of Submit m \<Rightarrow> submit m b c | Flush \<Rightarrow> flush b c) of
        (Inr _, b, c) \<Rightarrow> run_calls submit flush calls b c
      | (Inl err, b, c) \<Rightarrow> (Inl err, b, c))"

text \<open>
  The client delivers a message exactly when it answers that it did: \<open>sent\<close> reads the
  messages that went out, in order, from its state.
\<close>

definition delivers :: "('m, 'c) sender \<Rightarrow> ('c \<Rightarrow> 'm list) \<Rightarrow> bool" where
  "delivers send sent \<longleftrightarrow>
     (\<forall>m c. sent (snd (send m c)) = (case fst (send m c) of Inr _ \<Rightarrow> sent c @ [m] | Inl _ \<Rightarrow> sent c))"

definition saturated :: "u64 \<Rightarrow> nat \<Rightarrow> bool" where
  "saturated w n \<longleftrightarrow> unat w = min n (2 ^ 64 - 1)"

lemma saturated_0: "saturated 0 0"
  by (simp add: saturated_def)

lemma saturated_Suc: "saturated w n \<Longrightarrow> saturated (saturating_add_u64 w 1) (Suc n)"
proof -
  assume *: "saturated w n"
  show ?thesis
  proof (cases "w = - 1")
    case True
    then have "unat w = 2 ^ 64 - 1" using unat_eq_max_u64 by blast
    then show ?thesis using * True by (simp add: saturated_def saturating_add_u64_def)
  next
    case False
    then have "unat w \<noteq> 2 ^ 64 - 1" using unat_eq_max_u64 by blast
    moreover have "unat w < 2 ^ 64" using unsigned_less [of w] by simp
    ultimately have "unat w + 1 < 2 ^ 64" by linarith
    then show ?thesis using * by (auto simp: saturated_def saturating_add_u64_def unat_word_ariths min_def split: if_splits)
  qed
qed

locale outbox =
  fixes pending :: "'b \<Rightarrow> 'm list" and capacity :: "'b \<Rightarrow> nat" and dropped :: "'b \<Rightarrow> u64"
    and push :: "'m \<Rightarrow> 'b \<Rightarrow> 'b" and pop :: "'b \<Rightarrow> 'b"
    and submit :: "('m, 'c) sender \<Rightarrow> 'm \<Rightarrow> 'b \<Rightarrow> 'c \<Rightarrow> unit cresult \<times> 'b \<times> 'c"
    and flush :: "('m, 'c) sender \<Rightarrow> 'b \<Rightarrow> 'c \<Rightarrow> unit cresult \<times> 'b \<times> 'c"
  assumes pending_push: "pending (push m b) =
      (if length (pending b) = capacity b then tl (pending b) else pending b) @ [m]"
    and dropped_push: "dropped (push m b) =
      (if length (pending b) = capacity b then saturating_add_u64 (dropped b) 1 else dropped b)"
    and capacity_push: "capacity (push m b) = capacity b"
    and pop: "pending (pop b) = tl (pending b)" "dropped (pop b) = dropped b" "capacity (pop b) = capacity b"
    and submit: "submit send m b c =
      (if pending b \<noteq> [] then (Inr (), push m b, c)
       else case send m c of
              (Inr _, c) \<Rightarrow> (Inr (), b, c)
            | (Inl err, c) \<Rightarrow> if is_retryable err then (Inr (), push m b, c) else (Inl err, b, c))"
    and flush: "flush send b c =
      (case pending b of
         [] \<Rightarrow> (Inr (), b, c)
       | m # rest \<Rightarrow>
           (case send m c of
              (Inr _, c) \<Rightarrow> flush send (pop b) c
            | (Inl err, c) \<Rightarrow> (if is_retryable err then Inr () else Inl err, b, c)))"
begin

text \<open>\<open>through\<close> are the messages that entered before the step, \<open>lost\<close> the number of them
  that are gone.\<close>

definition holds :: "('c \<Rightarrow> 'm list) \<Rightarrow> nat \<Rightarrow> 'm list \<Rightarrow> nat \<Rightarrow> 'b \<Rightarrow> 'c \<Rightarrow> bool" where
  "holds sent cap through lost b c \<longleftrightarrow> capacity b = cap \<and> length (pending b) \<le> cap \<and>
     subseq (sent c @ pending b) through \<and>
     length through = length (sent c) + length (pending b) + lost \<and> saturated (dropped b) lost"

lemma holds_push:
  assumes "holds sent cap through lost b c" and "0 < cap"
  shows "\<exists>lost'. holds sent cap (through @ [m]) lost' (push m b) c"
proof (cases "length (pending b) = cap")
  case True
  then obtain x xs where p: "pending b = x # xs" using assms(2) by (cases "pending b") auto
  have "subseq (sent c @ xs) (sent c @ x # xs)" by (intro list_emb_append_mono) auto
  then have "subseq (sent c @ xs) through" using assms(1) p unfolding holds_def by (metis subseq_order.trans)
  then have "subseq ((sent c @ xs) @ [m]) (through @ [m])" by (rule list_emb_append_mono) simp
  then show ?thesis
    using assms(1) True p
    by (intro exI [of _ "Suc lost"]) (auto simp: holds_def pending_push dropped_push capacity_push saturated_Suc)
next
  case False
  have "subseq ((sent c @ pending b) @ [m]) (through @ [m])"
    using assms(1) unfolding holds_def by (intro list_emb_append_mono) auto
  then show ?thesis
    using assms(1) False
    by (intro exI [of _ lost]) (auto simp: holds_def pending_push dropped_push capacity_push)
qed

lemma holds_submit:
  assumes "holds sent cap through lost b c" and "0 < cap" and "delivers send sent"
    and "submit send m b c = (res, b', c')"
  shows "case res of
      Inr _ \<Rightarrow> \<exists>lost'. holds sent cap (through @ [m]) lost' b' c'
    | Inl err \<Rightarrow> \<not> is_retryable err \<and> holds sent cap through lost b' c'"
proof (cases "pending b")
  case (Cons x xs)
  then have "res = Inr ()" "b' = push m b" "c' = c" using assms(4) by (simp_all add: submit)
  then show ?thesis using holds_push [OF assms(1,2)] by simp
next
  case Nil
  obtain r d where s: "send m c = (r, d)" by fastforce
  have d: "sent d = (case r of Inr _ \<Rightarrow> sent c @ [m] | Inl _ \<Rightarrow> sent c)"
    using assms(3) s unfolding delivers_def by (metis fst_conv snd_conv)
  have "subseq ((sent c @ []) @ [m]) (through @ [m])"
    using assms(1) Nil unfolding holds_def by (intro list_emb_append_mono) auto
  then have sentm: "r = Inr () \<Longrightarrow> holds sent cap (through @ [m]) lost b d"
    using assms(1) Nil d by (auto simp: holds_def)
  have kept: "r = Inl err \<Longrightarrow> holds sent cap through lost b d" for err
    using assms(1) d by (simp add: holds_def)
  show ?thesis
  proof (cases r)
    case (Inl err)
    then have "c' = d" and "if is_retryable err then res = Inr () \<and> b' = push m b else res = Inl err \<and> b' = b"
      using assms(4) Nil s by (simp_all add: submit split: if_splits)
    then show ?thesis using kept [OF Inl] holds_push [OF kept [OF Inl] assms(2)] by (simp split: if_splits)
  next
    case (Inr u)
    then have "res = Inr ()" "b' = b" "c' = d" using assms(4) Nil s by (simp_all add: submit)
    then show ?thesis using sentm Inr by auto
  qed
qed

lemma flush_Nil: "pending b = [] \<Longrightarrow> flush send b c = (Inr (), b, c)"
  by (subst flush) simp

lemma flush_Cons: "pending b = x # xs \<Longrightarrow> flush send b c =
   (case send x c of
      (Inr _, c) \<Rightarrow> flush send (pop b) c
    | (Inl err, c) \<Rightarrow> (if is_retryable err then Inr () else Inl err, b, c))"
  by (subst flush) simp

lemma holds_flush:
  assumes "holds sent cap through lost b c" and "delivers send sent" and "flush send b c = (res, b', c')"
  shows "holds sent cap through lost b' c' \<and> (case res of Inl err \<Rightarrow> \<not> is_retryable err | Inr _ \<Rightarrow> True)"
  using assms
proof (induction "length (pending b)" arbitrary: b c)
  case 0
  then show ?case by (auto simp: flush_Nil)
next
  case (Suc n)
  then obtain x xs where p: "pending b = x # xs" by (cases "pending b") auto
  obtain r d where s: "send x c = (r, d)" by fastforce
  have d: "sent d = (case r of Inr _ \<Rightarrow> sent c @ [x] | Inl _ \<Rightarrow> sent c)"
    using Suc.prems(2) s unfolding delivers_def by (metis fst_conv snd_conv)
  show ?case
  proof (cases r)
    case (Inl err)
    then show ?thesis using Suc.prems p s d by (auto simp: holds_def flush_Cons)
  next
    case (Inr u)
    have "holds sent cap through lost (pop b) d"
      using Suc.prems(1) p d Inr by (auto simp: holds_def pop)
    then show ?thesis
      using Suc.hyps(1) [of "pop b" d] Suc.hyps(2) Suc.prems(2,3) p s Inr by (auto simp: pop flush_Cons)
  qed
qed

lemma holds_run:
  assumes "holds sent cap through lost b c" and "0 < cap" and "delivers send sent"
    and "run_calls (submit send) (flush send) calls b c = (Inr (), b', c')"
  shows "\<exists>lost'. holds sent cap (through @ submitted calls) lost' b' c'"
  using assms(1,4)
proof (induction calls arbitrary: through lost b c)
  case Nil
  then show ?case by auto
next
  case (Cons x calls)
  show ?case
  proof (cases x)
    case (Submit m)
    then obtain d e where s: "submit send m b c = (Inr (), d, e)"
      "run_calls (submit send) (flush send) calls d e = (Inr (), b', c')"
      using Cons.prems(2) by (auto split: sum.splits prod.splits)
    then obtain lost' where "holds sent cap (through @ [m]) lost' d e"
      using holds_submit [OF Cons.prems(1) assms(2,3) s(1)] by auto
    from Cons.IH [OF this s(2)] show ?thesis using Submit by simp
  next
    case Flush
    then obtain d e where s: "flush send b c = (Inr (), d, e)"
      "run_calls (submit send) (flush send) calls d e = (Inr (), b', c')"
      using Cons.prems(2) by (auto split: sum.splits prod.splits)
    then have "holds sent cap through lost d e" using holds_flush [OF Cons.prems(1) assms(3) s(1)] by simp
    from Cons.IH [OF this s(2)] show ?thesis using Flush by simp
  qed
qed

lemma run_keeps_order:
  assumes "delivers send sent" and "pending b = []" and "dropped b = 0" and "0 < capacity b"
    and "run_calls (submit send) (flush send) calls b c = (Inr (), b', c')" and "sent c = []"
  shows "length (pending b') \<le> capacity b \<and> subseq (sent c' @ pending b') (submitted calls) \<and>
    unat (dropped b') = min (length (submitted calls) - length (sent c' @ pending b')) (2 ^ 64 - 1) \<and>
    (dropped b' = 0 \<longleftrightarrow> sent c' @ pending b' = submitted calls)"
proof -
  have "holds sent (capacity b) [] 0 b c" using assms by (simp add: holds_def saturated_0)
  then obtain lost where h: "holds sent (capacity b) (submitted calls) lost b' c'"
    using holds_run [OF _ assms(4,1,5)] by fastforce
  have "dropped b' = 0 \<longleftrightarrow> lost = 0"
    using h by (auto simp: holds_def saturated_def unat_eq_0 min_def split: if_splits)
  moreover have "lost = 0 \<longleftrightarrow> sent c' @ pending b' = submitted calls"
    using h subseq_same_length [of "sent c' @ pending b'" "submitted calls"]
    by (auto simp: holds_def) (metis add_cancel_left_right length_append)
  ultimately show ?thesis using h by (auto simp: holds_def saturated_def)
qed

end

interpretation task_reports: outbox tro_pending tro_capacity tro_dropped task_report_push
  "\<lambda>b. b\<lparr>tro_pending := tl (tro_pending b)\<rparr>" task_report_submit task_report_flush
  by (unfold_locales; (simp add: task_report_push_def task_report_submit_def Let_def)?)
    (subst task_report_flush.simps, simp split: list.splits prod.splits sum.splits)

interpretation job_events: outbox jeo_pending jeo_capacity jeo_dropped job_event_push
  "\<lambda>b. b\<lparr>jeo_pending := tl (jeo_pending b), jeo_stats := (length (tl (jeo_pending b)), jeo_dropped b)\<rparr>"
  job_event_submit job_event_flush
  by (unfold_locales; (simp add: job_event_push_def job_event_submit_def Let_def)?)
    (subst job_event_flush.simps, simp split: list.splits prod.splits sum.splits)

interpretation job_results: outbox jro_pending jro_capacity jro_dropped job_result_push
  "\<lambda>b. b\<lparr>jro_pending := tl (jro_pending b), jro_stats := (length (tl (jro_pending b)), jro_dropped b)\<rparr>"
  job_result_submit job_result_flush
  by (unfold_locales; (simp add: job_result_push_def job_result_submit_def Let_def)?)
    (subst job_result_flush.simps, simp split: list.splits prod.splits sum.splits)

text \<open>Everything accepted is sent or still waits, in the order it came, but for the oldest
  messages a full queue gave up, and those are counted.\<close>

definition keeps_order :: "nat \<Rightarrow> 'm list \<Rightarrow> 'm list \<Rightarrow> u64 \<Rightarrow> 'm list \<Rightarrow> bool" where
  "keeps_order cap through waiting dropped out \<longleftrightarrow>
     length waiting \<le> cap \<and> subseq (out @ waiting) through \<and>
     unat dropped = min (length through - length (out @ waiting)) (2 ^ 64 - 1) \<and>
     (dropped = 0 \<longleftrightarrow> out @ waiting = through)"


text \<open>A client that answers from a script and keeps what it sent.\<close>

fun scripted :: "nat \<Rightarrow> bool list \<times> nat list \<Rightarrow> unit cresult \<times> bool list \<times> nat list" where
  "scripted m (True # script, out) = (Inr (), script, out @ [m])"
| "scripted m (False # script, out) = (Inl TemporarilyUnavailable, script, out)"
| "scripted m ([], out) = (Inl TemporarilyUnavailable, [], out)"

lemma scripted_delivers: "delivers scripted snd"
  unfolding delivers_def
proof (intro allI)
  fix m c
  show "snd (snd (scripted m c)) = (case fst (scripted m c) of Inr _ \<Rightarrow> snd c @ [m] | Inl _ \<Rightarrow> snd c)"
    by (cases "(m, c)" rule: scripted.cases) simp_all
qed


definition sample_calls :: "nat outbox_call list" where
  "sample_calls = [Submit 1, Submit 2, Submit 3, Submit 4, Flush, Submit 5]"

definition sample_client :: "bool list \<times> nat list" where
  "sample_client = ([True, False, True, False], [])"

lemmas outbox_eval = sample_calls_def sample_client_def task_report_push_def job_event_push_def job_result_push_def
  task_report_submit_def job_event_submit_def job_result_submit_def
  task_report_flush.simps job_event_flush.simps job_result_flush.simps Let_def saturating_add_u64_def


end
