(* ===== verification/Registration_Credential.thy ===== *)
theory Registration_Credential
  imports Client_Error "HOL-Library.Char_ord" "HOL-Library.Sublist"
begin

text \<open>
  Registration tokens: the checks of \<open>tonic_transport.rs\<close> and the printing of the Server
  (\<open>service/agent/agent_registry.rs\<close>). A \<open>str\<close> is the list of its UTF-8 bytes.
\<close>

section \<open>Checks and parser\<close>

definition max_registration_token_id_bytes :: nat where
  "max_registration_token_id_bytes = 128"

definition registration_psk_bytes :: nat where
  "registration_psk_bytes = 32"

definition max_agent_display_name_bytes :: nat where
  "max_agent_display_name_bytes = 64"

definition is_ascii_alphanumeric :: "char \<Rightarrow> bool" where
  "is_ascii_alphanumeric c \<longleftrightarrow>
     CHR ''0'' \<le> c \<and> c \<le> CHR ''9'' \<or> CHR ''A'' \<le> c \<and> c \<le> CHR ''Z'' \<or> CHR ''a'' \<le> c \<and> c \<le> CHR ''z''"

definition is_label_char :: "char \<Rightarrow> bool" where
  "is_label_char c \<longleftrightarrow> is_ascii_alphanumeric c \<or> c = CHR ''-'' \<or> c = CHR ''_'' \<or> c = CHR ''.''"

definition validate_registration_token_id :: "string \<Rightarrow> transport_error + unit" where
  "validate_registration_token_id t =
     (if t = [] \<or> max_registration_token_id_bytes < length t \<or> \<not> list_all is_label_char t
      then Inl (TransportProtocol ''registration Token ID is invalid'') else Inr ())"

definition validate_agent_display_name :: "string \<Rightarrow> transport_error + unit" where
  "validate_agent_display_name t =
     (if t = [] \<or> max_agent_display_name_bytes < length t \<or> \<not> list_all is_label_char t
      then Inl (TransportProtocol ''Agent display name is invalid'')
      else Inr ())"

definition hex_nibble :: "char \<Rightarrow> u8 option" where
  "hex_nibble c =
     (if CHR ''0'' \<le> c \<and> c \<le> CHR ''9'' then Some (of_nat (of_char c - 48))
      else if CHR ''a'' \<le> c \<and> c \<le> CHR ''f'' then Some (of_nat (of_char c - 97 + 10))
      else if CHR ''A'' \<le> c \<and> c \<le> CHR ''F'' then Some (of_nat (of_char c - 65 + 10))
      else None)"

fun decode_pairs :: "string \<Rightarrow> bytes option" where
  "decode_pairs (h # l # rest) =
     (case hex_nibble h of
        None \<Rightarrow> None
      | Some high \<Rightarrow>
          (case hex_nibble l of
             None \<Rightarrow> None
           | Some low \<Rightarrow>
               (case decode_pairs rest of
                  None \<Rightarrow> None
                | Some bs \<Rightarrow> Some (or (push_bit 4 high) low # bs))))"
| "decode_pairs _ = Some []"

fun split_once :: "char \<Rightarrow> string \<Rightarrow> (string \<times> string) option" where
  "split_once d [] = None"
| "split_once d (c # cs) =
     (if c = d then Some ([], cs)
      else case split_once d cs of None \<Rightarrow> None | Some (a, b) \<Rightarrow> Some (c # a, b))"

definition parse_registration_credential :: "string \<Rightarrow> transport_error + (string \<times> bytes)" where
  "parse_registration_credential credential =
     (case split_once (CHR ''.'') credential of
        None \<Rightarrow> Inl (TransportProtocol ''registration token must use the token_id.psk format'')
      | Some (token_id, encoded_psk) \<Rightarrow>
          (case validate_registration_token_id token_id of
             Inl err \<Rightarrow> Inl err
           | Inr _ \<Rightarrow>
               if length encoded_psk \<noteq> registration_psk_bytes * 2
               then Inl (TransportProtocol ''registration PSK must contain 64 hexadecimal characters'')
               else case decode_pairs encoded_psk of
                      None \<Rightarrow> Inl (TransportProtocol ''registration PSK contains a non-hexadecimal character'')
                    | Some psk \<Rightarrow> Inr (token_id, psk)))"

section \<open>Printer\<close>

definition hex_digit :: "nat \<Rightarrow> char" where
  "hex_digit n = (if n < 10 then char_of (48 + n) else char_of (87 + n))"

fun encode_hex :: "bytes \<Rightarrow> string" where
  "encode_hex [] = []"
| "encode_hex (b # bs) = hex_digit (unat b div 16) # hex_digit (unat b mod 16) # encode_hex bs"

definition credential_of :: "string \<Rightarrow> bytes \<Rightarrow> string" where
  "credential_of token_id psk = token_id @ ''.'' @ encode_hex psk"

section \<open>Round trip\<close>

lemma hex_digits:
  "list_all (\<lambda>n. hex_nibble (hex_digit n) = Some (of_nat n) \<and> is_label_char (hex_digit n) \<and>
     hex_digit n \<noteq> CHR ''.'') [0..<16]"
  by code_simp

lemma hex_digit_ok:
  assumes "n < 16"
  shows "hex_nibble (hex_digit n) = Some (of_nat n)" "is_label_char (hex_digit n)" "hex_digit n \<noteq> CHR ''.''"
  using hex_digits assms by (auto simp: list_all_iff)

lemma unat_u8_less: "unat (b :: u8) < 256"
  using unsigned_less [of b] by simp

lemma nibbles_join: "or (push_bit 4 (of_nat (unat b div 16))) (of_nat (unat b mod 16)) = (b :: u8)"
proof -
  have "of_nat (unat b div 16) = drop_bit 4 b"
    by (rule word_unat_eq_iff [THEN iffD2]) (use unat_u8_less [of b] in \<open>simp add: unat_drop_bit_eq unat_of_nat drop_bit_nat_eq drop_bit_eq_div [where ?'a = nat]\<close>)
  moreover have "of_nat (unat b mod 16) = take_bit 4 b"
    by (rule word_unat_eq_iff [THEN iffD2]) (use unat_u8_less [of b] in \<open>simp add: unat_of_nat unsigned_take_bit_eq take_bit_eq_mod [where ?'a = nat]\<close>)
  ultimately show ?thesis
    by (auto intro!: bit_word_eqI simp: bit_or_iff bit_push_bit_iff bit_drop_bit_eq bit_take_bit_iff)
qed

lemma decode_encode: "decode_pairs (encode_hex bs) = Some bs"
proof (induction bs)
  case (Cons b bs)
  have "unat b div 16 < 16" using unat_u8_less [of b] by (simp add: less_mult_imp_div_less)
  then show ?case using Cons by (simp add: hex_digit_ok nibbles_join)
qed simp

lemma length_encode_hex: "length (encode_hex bs) = 2 * length bs"
  by (induction bs) simp_all

lemma split_once_append: "d \<notin> set a \<Longrightarrow> split_once d (a @ d # b) = Some (a, b)"
  by (induction a) auto

lemma split_once_Some: "split_once d s = Some (a, b) \<longleftrightarrow> s = a @ d # b \<and> d \<notin> set a"
proof
  show "split_once d s = Some (a, b) \<Longrightarrow> s = a @ d # b \<and> d \<notin> set a"
    by (induction s arbitrary: a) (auto split: if_splits option.splits)
qed (auto simp: split_once_append)


lemma decode_pairs_length: "decode_pairs s = Some bs \<Longrightarrow> even (length s) \<Longrightarrow> length s = 2 * length bs"
  by (induction s arbitrary: bs rule: decode_pairs.induct) (auto split: option.splits)

lemma encode_hex_label: "list_all is_label_char (encode_hex bs) \<and> CHR ''.'' \<notin> set (encode_hex bs)"
proof (induction bs)
  case (Cons b bs)
  have "unat b div 16 < 16" using unat_u8_less [of b] by (simp add: less_mult_imp_div_less)
  from hex_digit_ok(2,3) [OF this] hex_digit_ok(2,3) [of "unat b mod 16"] show ?case using Cons by auto
qed simp

lemma parse_credential_of:
  "parse_registration_credential (credential_of t psk) = Inr (t, psk) \<longleftrightarrow>
   length psk = registration_psk_bytes \<and> CHR ''.'' \<notin> set t \<and> validate_registration_token_id t = Inr ()"
proof (cases "CHR ''.'' \<in> set t")
  case False
  then have "split_once (CHR ''.'') (credential_of t psk) = Some (t, encode_hex psk)"
    by (simp add: credential_of_def split_once_append)
  with False show ?thesis
    by (auto simp: parse_registration_credential_def decode_encode length_encode_hex split: sum.splits)
next
  case True
  have "split_once (CHR ''.'') (credential_of t psk) \<noteq> Some (t, b)" for b
    using True by (simp add: split_once_Some)
  with True show ?thesis
    by (auto simp: parse_registration_credential_def split: option.splits sum.splits if_splits)
qed

lemma parse_credential_sound:
  assumes "parse_registration_credential c = Inr (t, psk)"
  shows "length psk = 32 \<and> validate_registration_token_id t = Inr () \<and> prefix (t @ ''.'') c"
proof -
  obtain e where s: "split_once (CHR ''.'') c = Some (t, e)" and v: "validate_registration_token_id t = Inr ()"
    and l: "length e = registration_psk_bytes * 2" and d: "decode_pairs e = Some psk"
    using assms by (auto simp: parse_registration_credential_def split: option.splits sum.splits if_splits)
  have "even (length e)" using l by simp
  from decode_pairs_length [OF d this] l have "length psk = 32" by (simp add: registration_psk_bytes_def)
  with s v show ?thesis by (simp add: split_once_Some)
qed

lemma issued_id_valid: "length i = 16 \<Longrightarrow> validate_registration_token_id (encode_hex i) = Inr ()"
  using encode_hex_label [of i] length_encode_hex [of i]
  by (auto simp: validate_registration_token_id_def max_registration_token_id_bytes_def)

text \<open>
  C25: The credential the Server prints for a generated token is read back by Agent and Server as
  the same token identifier and the same key; what the reader accepts always carries a key of
  32 bytes and a valid identifier. For identifiers in general the credential is read back
  exactly when the identifier is valid and has no full stop: the check of identifiers allows a
  full stop, and such an identifier cannot be used in a credential.
\<close>

theorem credential_round_trip:
  assumes "length i = 16" and "length psk = 32"
  shows "parse_registration_credential (credential_of (encode_hex i) psk) = Inr (encode_hex i, psk) \<and>
    (parse_registration_credential (credential_of t psk) = Inr (t, psk) \<longleftrightarrow>
       CHR ''.'' \<notin> set t \<and> validate_registration_token_id t = Inr ()) \<and>
    (case parse_registration_credential c of
       Inl _ \<Rightarrow> True
     | Inr (t', psk') \<Rightarrow> length psk' = 32 \<and> validate_registration_token_id t' = Inr () \<and> prefix (t' @ ''.'') c)"
  using assms encode_hex_label [of i] issued_id_valid [of i] parse_credential_sound [of c]
  by (simp add: parse_credential_of registration_psk_bytes_def split: sum.splits prod.splits)

theorem credential_round_trip_witness:
  "parse_registration_credential (credential_of (encode_hex (replicate 16 171)) (replicate 32 7)) =
     Inr (encode_hex (replicate 16 171), replicate 32 7) \<and>
   parse_registration_credential (credential_of ''node.1'' (replicate 32 7)) \<noteq> Inr (''node.1'', replicate 32 7)"
  using credential_round_trip [of "replicate 16 171" "replicate 32 7" "''node.1''" "[]"] by simp

end
