(* ===== verification/Secure_Message.thy ===== *)
theory Secure_Message
  imports Client_Error
begin

text \<open>
  The messages inside an encrypted session (\<open>transport.proto\<close>, \<open>registration.proto\<close>,
  \<open>session_control.proto\<close>, \<open>key_rotation.proto\<close>) and their classification into events of a
  session (\<open>tonic_transport/session/policy.rs\<close>). Every \<open>oneof\<close> can be absent. What the
  business messages carry is a type parameter.
\<close>

datatype registration_body =
    MsgRequest string
  | MsgPrepared bytes string
  | MsgCommit bytes
  | MsgCommitted bytes

datatype session_control =
    Ping u64 u64
  | Pong u64 u64 u64 u64
  | RekeyRequired u64
  | RekeyRequest u64
  | RekeyAck u64

datatype rotation_body =
    AgentRequest key_announcement
  | AgentAccepted bytes
  | ServerAnnouncement key_announcement
  | ServerAcknowledgement bytes bytes

datatype 'p secure_body =
    BodyRegistration "registration_body option"
  | BodyDiagnostic 'p
  | BodyError int string
  | BodySessionControl "session_control option"
  | BodyKeyRotation "rotation_body option"
  | BodyJobCommand 'p
  | BodyJobCommandResult 'p
  | BodyTaskReport 'p
  | BodyAgentJobPolicy 'p
  | BodyAgentCapability 'p
  | BodyAgentPlugin 'p
  | BodyJobEvent 'p
  | BodyReconcileSummary 'p

type_synonym 'p secure_message = "'p secure_body option"

section \<open>Codes of errors\<close>

fun secure_error_number :: "secure_error_code \<Rightarrow> int" where
  "secure_error_number SecureUnspecified = 0"
| "secure_error_number SecureInvalidToken = 1"
| "secure_error_number SecureTokenAlreadyUsed = 2"
| "secure_error_number SecureAgentNotAuthorized = 3"
| "secure_error_number SecureAgentAlreadyRegistered = 4"
| "secure_error_number SecureInvalidMessage = 5"
| "secure_error_number SecureRotationConflict = 6"
| "secure_error_number SecureRotationIdMismatch = 7"
| "secure_error_number SecureInvalidRotationState = 8"
| "secure_error_number SecureInternal = 9"
| "secure_error_number SecureResourceExhausted = 10"

definition secure_error_codes :: "secure_error_code list" where
  "secure_error_codes =
     [SecureUnspecified, SecureInvalidToken, SecureTokenAlreadyUsed, SecureAgentNotAuthorized,
      SecureAgentAlreadyRegistered, SecureInvalidMessage, SecureRotationConflict,
      SecureRotationIdMismatch, SecureInvalidRotationState, SecureInternal, SecureResourceExhausted]"

text \<open>\<open>SecureErrorCode::try_from(code).unwrap_or(Unspecified)\<close>.\<close>

definition secure_error_code_of :: "int \<Rightarrow> secure_error_code" where
  "secure_error_code_of n =
     (case find (\<lambda>c. secure_error_number c = n) secure_error_codes of
        Some c \<Rightarrow> c | None \<Rightarrow> SecureUnspecified)"

lemma secure_error_code_of_number [simp]: "secure_error_code_of (secure_error_number c) = c"
  by (cases c) (simp_all add: secure_error_code_of_def secure_error_codes_def)

section \<open>Events of a session\<close>

datatype 'p session_event =
    EventRegistration "registration_body option"
  | EventDiagnostic 'p
  | EventKeyRotation "rotation_body option"
  | EventJobCommand 'p
  | EventJobCommandResult 'p
  | EventTaskReport 'p
  | EventJobEvent 'p
  | EventAgentJobPolicy 'p
  | EventAgentCapability 'p
  | EventAgentPlugin 'p
  | EventReconcileSummary 'p

definition session_event_of :: "'p secure_message \<Rightarrow> transport_error + 'p session_event" where
  "session_event_of message =
     (case message of
        Some (BodyRegistration v) \<Rightarrow> Inr (EventRegistration v)
      | Some (BodyDiagnostic v) \<Rightarrow> Inr (EventDiagnostic v)
      | Some (BodyKeyRotation v) \<Rightarrow> Inr (EventKeyRotation v)
      | Some (BodyJobCommand v) \<Rightarrow> Inr (EventJobCommand v)
      | Some (BodyJobCommandResult v) \<Rightarrow> Inr (EventJobCommandResult v)
      | Some (BodyTaskReport v) \<Rightarrow> Inr (EventTaskReport v)
      | Some (BodyJobEvent v) \<Rightarrow> Inr (EventJobEvent v)
      | Some (BodyAgentJobPolicy v) \<Rightarrow> Inr (EventAgentJobPolicy v)
      | Some (BodyAgentCapability v) \<Rightarrow> Inr (EventAgentCapability v)
      | Some (BodyAgentPlugin v) \<Rightarrow> Inr (EventAgentPlugin v)
      | Some (BodyReconcileSummary v) \<Rightarrow> Inr (EventReconcileSummary v)
      | Some (BodyError code text) \<Rightarrow> Inl (TransportRemoteSecure (secure_error_code_of code) text)
      | Some (BodySessionControl _) \<Rightarrow>
          Inl (TransportProtocol ''session control escaped the transport state machine'')
      | None \<Rightarrow> Inl (TransportProtocol ''SecureMessage body is required''))"

end
