(* ===== verification/Agent_Connection.thy ===== *)
theory Agent_Connection
  imports Actions Agent_State Registration_Credential Secure_Message
begin

text \<open>
  How an Agent gets a connection: the configuration of the client (\<open>client/config.rs\<close>), the
  calls of the protocol client for registration and for a handshake with several candidate
  keys (\<open>tonic_transport/client.rs\<close>), and the coordinator that chooses between them by the
  stored stage and saves each stage before the next message (\<open>client/connection.rs\<close>).

  Everything outside is one world of type \<open>'w\<close>, changed by the calls collected in
  \<open>agent_calls\<close>: the state store, the handshakes, sending and receiving on a stream, and what
  the driver of a session reports while a new session is being verified.
\<close>

section \<open>Configuration\<close>

record reconnect_policy =
  rp_initial_delay :: dur
  rp_max_delay :: dur

record heartbeat_policy =
  hb_interval :: dur
  hb_timeout :: dur

record rekey_policy =
  rk_max_age :: dur
  rk_max_frames :: u64
  rk_automatic :: bool

record driver_config =
  dc_command_capacity :: nat
  dc_event_capacity :: nat

record client_config =
  cc_endpoint :: string
  cc_grpc_prefix :: "string option"
  cc_registration_token :: "string option"
  cc_handshake_timeout :: dur
  cc_heartbeat :: heartbeat_policy
  cc_rekey :: rekey_policy
  cc_driver :: driver_config
  cc_reconnect :: reconnect_policy

definition is_control :: "char \<Rightarrow> bool" where
  "is_control c \<longleftrightarrow> of_char c < (32 :: nat) \<or> 127 \<le> (of_char c :: nat) \<and> of_char c < (160 :: nat)"

definition is_whitespace :: "char \<Rightarrow> bool" where
  "is_whitespace c \<longleftrightarrow> 9 \<le> (of_char c :: nat) \<and> of_char c \<le> (13 :: nat) \<or>
     of_char c \<in> {32, 133, 160 :: nat}"

definition trim :: "string \<Rightarrow> string" where
  "trim s = rev (dropWhile is_whitespace (rev (dropWhile is_whitespace s)))"

definition registration_token_new :: "string \<Rightarrow> string + string" where
  "registration_token_new value =
     (if value = [] \<or> list_ex is_control value
      then Inl ''registration token must be non-empty and contain no control characters''
      else Inr value)"

definition validate_client_config :: "client_config \<Rightarrow> string + unit" where
  "validate_client_config c =
     (if trim (cc_endpoint c) = [] then Inl ''Server endpoint must not be empty''
      else if cc_handshake_timeout c = 0 then Inl ''handshake timeout must be greater than zero''
      else if hb_interval (cc_heartbeat c) = 0 \<or> hb_timeout (cc_heartbeat c) \<le> hb_interval (cc_heartbeat c)
      then Inl ''heartbeat timeout must be greater than its non-zero interval''
      else if rp_initial_delay (cc_reconnect c) = 0 \<or>
              rp_max_delay (cc_reconnect c) < rp_initial_delay (cc_reconnect c)
      then Inl ''reconnect max delay must be at least the non-zero initial delay''
      else Inr ())"

definition from_secs :: "nat \<Rightarrow> dur" where
  "from_secs n = 1000000000 * n"

definition default_heartbeat :: heartbeat_policy where
  "default_heartbeat = \<lparr>hb_interval = from_secs 30, hb_timeout = from_secs 90\<rparr>"

definition default_rekey :: rekey_policy where
  "default_rekey = \<lparr>rk_max_age = from_secs (60 * 60), rk_max_frames = 2 ^ 20, rk_automatic = True\<rparr>"

definition default_reconnect :: reconnect_policy where
  "default_reconnect = \<lparr>rp_initial_delay = from_secs 1, rp_max_delay = from_secs 30\<rparr>"

definition default_driver :: driver_config where
  "default_driver = \<lparr>dc_command_capacity = 32, dc_event_capacity = 128\<rparr>"

definition default_agent_prefix :: string where
  "default_agent_prefix = ''/api/v1/grpc''"

definition client_config_new :: "string \<Rightarrow> string + client_config" where
  "client_config_new endpoint =
     (let c = \<lparr>cc_endpoint = endpoint, cc_grpc_prefix = Some default_agent_prefix,
               cc_registration_token = None, cc_handshake_timeout = from_secs 5,
               cc_heartbeat = default_heartbeat, cc_rekey = default_rekey,
               cc_driver = default_driver, cc_reconnect = default_reconnect\<rparr>
      in case validate_client_config c of Inl err \<Rightarrow> Inl err | Inr _ \<Rightarrow> Inr c)"

text \<open>\<open>env\<close> is the environment of the process, \<open>parse_duration\<close> that of humantime.\<close>

definition duration_from_env ::
  "(string \<Rightarrow> string option) \<Rightarrow> (string \<Rightarrow> string + dur) \<Rightarrow> string \<Rightarrow> dur \<Rightarrow> string + dur" where
  "duration_from_env env parse_duration name fallback =
     (case env name of
        None \<Rightarrow> Inr fallback
      | Some value \<Rightarrow> if value = [] then Inr fallback else parse_duration value)"

definition client_config_from_env ::
  "(string \<Rightarrow> string option) \<Rightarrow> (string \<Rightarrow> string + dur) \<Rightarrow> string + client_config" where
  "client_config_from_env env parse_duration =
     (case client_config_new (case env ''SMALUX_SERVER_ENDPOINT'' of
                                Some e \<Rightarrow> e | None \<Rightarrow> ''http://127.0.0.1:12345'') of
        Inl err \<Rightarrow> Inl err
      | Inr c \<Rightarrow>
     (let c = (case map_option trim (env ''SMALUX_GRPC_PREFIX'') of
                 Some (p # ps) \<Rightarrow> c\<lparr>cc_grpc_prefix := Some (p # ps)\<rparr> | _ \<Rightarrow> c)
      in case (case env ''SMALUX_REGISTRATION_TOKEN'' of
                 Some (t # ts) \<Rightarrow> map_sum id Some (registration_token_new (t # ts))
               | _ \<Rightarrow> Inr None) of
        Inl err \<Rightarrow> Inl err
      | Inr token \<Rightarrow>
     (case duration_from_env env parse_duration ''SMALUX_HANDSHAKE_TIMEOUT'' (cc_handshake_timeout c) of
        Inl err \<Rightarrow> Inl err
      | Inr handshake \<Rightarrow>
     (case duration_from_env env parse_duration ''SMALUX_HEARTBEAT_INTERVAL'' (hb_interval (cc_heartbeat c)) of
        Inl err \<Rightarrow> Inl err
      | Inr interval \<Rightarrow>
     (case duration_from_env env parse_duration ''SMALUX_HEARTBEAT_TIMEOUT'' (hb_timeout (cc_heartbeat c)) of
        Inl err \<Rightarrow> Inl err
      | Inr timeout \<Rightarrow>
     (case duration_from_env env parse_duration ''SMALUX_RECONNECT_INITIAL_DELAY''
             (rp_initial_delay (cc_reconnect c)) of
        Inl err \<Rightarrow> Inl err
      | Inr initial \<Rightarrow>
     (case duration_from_env env parse_duration ''SMALUX_RECONNECT_MAX_DELAY''
             (rp_max_delay (cc_reconnect c)) of
        Inl err \<Rightarrow> Inl err
      | Inr longest \<Rightarrow>
          let c = c\<lparr>cc_registration_token := token, cc_handshake_timeout := handshake,
                    cc_heartbeat := \<lparr>hb_interval = interval, hb_timeout = timeout\<rparr>,
                    cc_reconnect := \<lparr>rp_initial_delay = initial, rp_max_delay = longest\<rparr>\<rparr>
          in case validate_client_config c of Inl err \<Rightarrow> Inl err | Inr _ \<Rightarrow> Inr c)))))))"

section \<open>The calls of the protocol client\<close>

text \<open>While a new session is verified its driver reports events, errors, its end, and answers to
  the polls of the heartbeat counters; the list ends when the time is up.\<close>

datatype 'p driver_signal =
    SignalEvent "'p session_event"
  | SignalError transport_error
  | SignalEnd
  | SignalReceivedCount "transport_error + nat"

record ('w, 's, 'p) agent_calls =
  load_call :: "('w, string, persisted_agent_state option) action"
  save_call :: "persisted_agent_state \<Rightarrow> ('w, string, unit) action"
  generate_call :: "('w, noise_error, noise_identity) action"
  connect_ik_call :: "noise_identity \<Rightarrow> noise_public_key \<Rightarrow> ('w, transport_error, 's) action"
  open_registration_call ::
    "noise_identity \<Rightarrow> bytes \<Rightarrow> string \<Rightarrow> ('w, transport_error, 's \<times> noise_public_key) action"
  send_call :: "'s \<Rightarrow> 'p secure_message \<Rightarrow> ('w, transport_error, unit) action"
  receive_call :: "'s \<Rightarrow> 'w \<Rightarrow> (transport_error + 'p secure_message option) option \<times> 'w"
  ping_call :: "'s \<Rightarrow> ('w, transport_error, unit) action"
  signals_call :: "'s \<Rightarrow> 'w \<Rightarrow> 'p driver_signal list \<times> 'w"
  stop_call :: "'s \<Rightarrow> 'w \<Rightarrow> 'w"
  acknowledge_call :: "'s \<Rightarrow> rotation_id \<Rightarrow> key_id \<Rightarrow> ('w, transport_error, unit) action"

text \<open>\<open>timeout(limit, session.receive())\<close>: no answer in time is \<open>None\<close>.\<close>

definition receive_within ::
  "('w, 's, 'p) agent_calls \<Rightarrow> 's \<Rightarrow> string \<Rightarrow> ('w, transport_error, 'p secure_message) action" where
  "receive_within calls s what w =
     (case receive_call calls s w of
        (None, w) \<Rightarrow> (Inl (TransportTimeout what), w)
      | (Some (Inl err), w) \<Rightarrow> (Inl err, w)
      | (Some (Inr None), w) \<Rightarrow> (Inl TransportClosed, w)
      | (Some (Inr (Some message)), w) \<Rightarrow> (Inr message, w))"

definition send_registration_request ::
  "('w, 's, 'p) agent_calls \<Rightarrow> 's \<Rightarrow> string \<Rightarrow> ('w, transport_error, bytes \<times> string) action" where
  "send_registration_request calls s token =
     and_do (send_call calls s (Some (BodyRegistration (Some (MsgRequest token))))) (\<lambda>_.
     and_do (receive_within calls s ''waiting for registration preparation'') (\<lambda>response.
       case response of
         Some (BodyRegistration (Some (MsgPrepared registration_id agent_id))) \<Rightarrow>
           return_ok (registration_id, agent_id)
       | Some (BodyError code text) \<Rightarrow>
           fail_with (TransportRemoteSecure (secure_error_code_of code) text)
       | _ \<Rightarrow> fail_with (TransportProtocol ''expected encrypted RegistrationPrepared'')))"

record 's agent_pending_registration =
  ap_agent_id :: string
  ap_agent_identity :: noise_identity
  ap_server_public_key :: noise_public_key
  ap_registration_id :: bytes
  ap_session :: 's

definition prepare_registration_with_token_id ::
  "('w, 's, 'p) agent_calls \<Rightarrow> noise_identity \<Rightarrow> bytes \<Rightarrow> string \<Rightarrow> string
   \<Rightarrow> ('w, transport_error, 's agent_pending_registration) action" where
  "prepare_registration_with_token_id calls identity psk token_id token =
     and_do (of_result (validate_registration_token_id token_id)) (\<lambda>_.
     and_do (open_registration_call calls identity psk token_id) (\<lambda>(s, server_key).
     and_do (send_registration_request calls s token) (\<lambda>(registration_id, agent_id).
       if length registration_id = 16
       then return_ok \<lparr>ap_agent_id = agent_id, ap_agent_identity = identity,
                       ap_server_public_key = server_key, ap_registration_id = registration_id,
                       ap_session = s\<rparr>
       else fail_with (TransportProtocol ''registration ID must contain exactly 16 bytes''))))"

definition validate_registration_committed :: "'p secure_message \<Rightarrow> bytes \<Rightarrow> transport_error + unit" where
  "validate_registration_committed response expected =
     (case response of
        Some (BodyRegistration (Some (MsgCommitted registration_id))) \<Rightarrow>
          if registration_id = expected then Inr ()
          else Inl (TransportProtocol ''expected matching encrypted RegistrationCommitted'')
      | Some (BodyError code text) \<Rightarrow> Inl (TransportRemoteSecure (secure_error_code_of code) text)
      | _ \<Rightarrow> Inl (TransportProtocol ''expected matching encrypted RegistrationCommitted''))"

definition send_registration_commit_and_receive_committed ::
  "('w, 's, 'p) agent_calls \<Rightarrow> 's agent_pending_registration \<Rightarrow> ('w, transport_error, unit) action" where
  "send_registration_commit_and_receive_committed calls pending =
     and_do (send_call calls (ap_session pending)
               (Some (BodyRegistration (Some (MsgCommit (ap_registration_id pending)))))) (\<lambda>_.
     and_do (receive_within calls (ap_session pending) ''waiting for registration commit'') (\<lambda>response.
       of_result (validate_registration_committed response (ap_registration_id pending))))"

fun try_candidates ::
  "('w, 's, 'p) agent_calls \<Rightarrow> noise_identity \<Rightarrow> transport_error option \<Rightarrow> noise_public_key list
   \<Rightarrow> ('w, transport_error, 's \<times> noise_public_key) action" where
  "try_candidates calls identity latest [] w =
     (Inl (case latest of Some err \<Rightarrow> err | None \<Rightarrow> TransportProtocol ''no Server key candidates''), w)"
| "try_candidates calls identity latest (key # keys) w =
     (case connect_ik_call calls identity key w of
        (Inr s, w) \<Rightarrow> (Inr (s, key), w)
      | (Inl err, w) \<Rightarrow> try_candidates calls identity (Some err) keys w)"

definition connect_with_candidates ::
  "('w, 's, 'p) agent_calls \<Rightarrow> noise_identity \<Rightarrow> noise_public_key list
   \<Rightarrow> ('w, transport_error, 's \<times> noise_public_key) action" where
  "connect_with_candidates calls identity candidates = try_candidates calls identity None candidates"

section \<open>The coordinator\<close>

datatype authentication_mode = RegistrationXxPsk3 | ReconnectIk

record ('s, 'p) active_connection =
  ac_state :: persisted_agent_state
  ac_running :: 's
  ac_mode :: authentication_mode
  ac_buffered_events :: "'p session_event list"

datatype initial_connection_action = ActionRegister | ActionRecoverPending | ActionConnectRegistered

fun initial_connection_action_of :: "registration_stage \<Rightarrow> initial_connection_action" where
  "initial_connection_action_of StageIdentityPrepared = ActionRegister"
| "initial_connection_action_of StageRegistrationPending = ActionRecoverPending"
| "initial_connection_action_of StageRegistered = ActionConnectRegistered"

definition verify_same_pending :: "persisted_agent_state \<Rightarrow> persisted_agent_state \<Rightarrow> unit cresult" where
  "verify_same_pending previous current =
     (if agent_id_of previous = agent_id_of current \<and>
         ni_public_key (identity_of previous) = ni_public_key (identity_of current) \<and>
         server_key_snapshot previous = server_key_snapshot current \<and>
         registration_id_of previous = registration_id_of current
      then Inr () else Inl InconsistentPendingRegistration)"

fun is_agent_not_authorized :: "client_error \<Rightarrow> bool" where
  "is_agent_not_authorized (ClientTransport (TransportRemoteSecure SecureAgentNotAuthorized _)) = True"
| "is_agent_not_authorized _ = False"

fun verification :: "'p driver_signal list \<Rightarrow> 'p session_event list \<Rightarrow> 'p session_event list cresult" where
  "verification [] buffered = Inl (ClientTransport (TransportTimeout ''verifying Agent authorization''))"
| "verification (SignalEvent event # signals) buffered = verification signals (buffered @ [event])"
| "verification (SignalError err # signals) buffered = Inl (ClientTransport err)"
| "verification (SignalEnd # signals) buffered = Inl (ClientTransport TransportClosed)"
| "verification (SignalReceivedCount (Inl err) # signals) buffered = Inl (ClientTransport err)"
| "verification (SignalReceivedCount (Inr n) # signals) buffered =
     (if 0 < n then Inr buffered else verification signals buffered)"

definition verify_authorized_session ::
  "('w, 's, 'p) agent_calls \<Rightarrow> 's \<Rightarrow> ('w, client_error, 's \<times> 'p session_event list) action" where
  "verify_authorized_session calls s =
     and_do (map_err ClientTransport (ping_call calls s)) (\<lambda>_ w.
       case signals_call calls s w of
         (signals, w) \<Rightarrow>
           (case verification signals [] of
              Inr buffered \<Rightarrow> (Inr (s, buffered), w)
            | Inl err \<Rightarrow> (Inl err, stop_call calls s w)))"

definition save_agent_state ::
  "('w, 's, 'p) agent_calls \<Rightarrow> persisted_agent_state \<Rightarrow> ('w, client_error, unit) action" where
  "save_agent_state calls s = map_err ClientStateStore (save_call calls s)"

definition promote_connected_key ::
  "('w, 's, 'p) agent_calls \<Rightarrow> persisted_agent_state \<Rightarrow> noise_public_key
   \<Rightarrow> ('w, client_error, persisted_agent_state) action" where
  "promote_connected_key calls state connected_key =
     (if (case server_key_snapshot state of
            None \<Rightarrow> False | Some k \<Rightarrow> ps_pending k = Some connected_key)
      then (case Option.bind (server_key_snapshot state) ps_rotation_id of
              None \<Rightarrow> fail_with (ClientNoise NoPendingRotation)
            | Some rotation_id \<Rightarrow>
                and_do (of_result (map_sum ClientNoise id (promote_server_key rotation_id state))) (\<lambda>promoted.
                and_do (save_agent_state calls promoted) (\<lambda>_. return_ok promoted)))
      else return_ok state)"

definition connect_registered ::
  "('w, 's, 'p) agent_calls \<Rightarrow> persisted_agent_state \<Rightarrow> ('w, client_error, ('s, 'p) active_connection) action" where
  "connect_registered calls state =
     and_do (map_err ClientTransport
               (connect_with_candidates calls (identity_of state) (server_key_candidates state))) (\<lambda>(s, key).
     and_do (verify_authorized_session calls s) (\<lambda>(running, buffered).
     and_do (promote_connected_key calls state key) (\<lambda>state.
       return_ok \<lparr>ac_state = state, ac_running = running, ac_mode = ReconnectIk,
                  ac_buffered_events = buffered\<rparr>)))"

text \<open>The error of the parser is kept as a text; what it says is not modelled.\<close>

definition register ::
  "client_config \<Rightarrow> ('w, 's, 'p) agent_calls \<Rightarrow> persisted_agent_state
   \<Rightarrow> ('w, client_error, ('s, 'p) active_connection) action" where
  "register config calls state =
     (case cc_registration_token config of
        None \<Rightarrow> fail_with RegistrationTokenRequired
      | Some token \<Rightarrow>
     and_do (of_result (map_sum (\<lambda>_. InvalidRegistrationToken ''token'') id
               (parse_registration_credential token))) (\<lambda>(token_id, psk).
     and_do (map_err ClientTransport
               (prepare_registration_with_token_id calls (identity_of state) psk token_id token)) (\<lambda>pending.
     let pending_state = registration_pending (ap_agent_id pending) (ap_agent_identity pending)
           (ap_server_public_key pending) (ap_registration_id pending)
     in
     and_do (of_result (if stage_of state = StageRegistrationPending
                        then verify_same_pending state pending_state else Inr ())) (\<lambda>_.
     and_do (save_agent_state calls pending_state) (\<lambda>_.
     and_do (map_err ClientTransport (send_registration_commit_and_receive_committed calls pending)) (\<lambda>_.
     and_do (of_result (map_sum (\<lambda>_. ClientStateStore ''state'') id (registered_from_pending pending_state)))
       (\<lambda>registered.
     and_do (save_agent_state calls registered) (\<lambda>_.
       return_ok \<lparr>ac_state = registered, ac_running = ap_session pending, ac_mode = RegistrationXxPsk3,
                  ac_buffered_events = []\<rparr>))))))))"

definition recover_pending ::
  "client_config \<Rightarrow> ('w, 's, 'p) agent_calls \<Rightarrow> persisted_agent_state
   \<Rightarrow> ('w, client_error, ('s, 'p) active_connection) action" where
  "recover_pending config calls state w =
     (case connect_registered calls state w of
        (Inr connection, w) \<Rightarrow>
          and_do (of_result (map_sum (\<lambda>_. ClientStateStore ''state'') id
                    (registered_from_pending (ac_state connection)))) (\<lambda>registered.
          and_do (save_agent_state calls registered) (\<lambda>_.
            return_ok (connection\<lparr>ac_state := registered\<rparr>))) w
      | (Inl err, w) \<Rightarrow>
          if is_agent_not_authorized err then register config calls state w else (Inl err, w))"

definition load_or_create ::
  "('w, 's, 'p) agent_calls \<Rightarrow> ('w, client_error, persisted_agent_state) action" where
  "load_or_create calls =
     and_do (map_err ClientStateStore (load_call calls)) (\<lambda>loaded.
       case loaded of
         Some state \<Rightarrow> return_ok state
       | None \<Rightarrow>
           and_do (map_err ClientNoise (generate_call calls)) (\<lambda>identity.
           and_do (save_agent_state calls (IdentityPrepared identity)) (\<lambda>_.
             return_ok (IdentityPrepared identity))))"

definition establish_initial ::
  "client_config \<Rightarrow> ('w, 's, 'p) agent_calls \<Rightarrow> ('w, client_error, ('s, 'p) active_connection) action" where
  "establish_initial config calls =
     and_do (load_or_create calls) (\<lambda>state.
       case initial_connection_action_of (stage_of state) of
         ActionRegister \<Rightarrow> register config calls state
       | ActionRecoverPending \<Rightarrow> recover_pending config calls state
       | ActionConnectRegistered \<Rightarrow> connect_registered calls state)"

end
