(* ===== verification/Server_Registration.thy ===== *)
theory Server_Registration
  imports Registration_Credential
begin

text \<open>
  Registration of Agents on the Server (\<open>database/agent_registration.rs\<close>, the parts of
  \<open>database/management.rs\<close> that change its tables, and \<open>service/agent/agent_registry.rs\<close>):
  tokens, registration attempts and Agents as three tables with the unique indexes of the
  migration. A SQL transaction is one step that takes effect as a whole or not at all. A
  registration identifier is kept as its 16 bytes, where the table has the printed UUID.
  Clock, random bytes and fresh UUIDs are arguments; connection failures are not modelled.
\<close>

section \<open>Tables\<close>

record token_row =
  tk_token_id :: string
  tk_psk :: bytes
  tk_display_name :: "string option"
  tk_status :: string
  tk_created_at :: int
  tk_updated_at :: int
  tk_expires_at :: "int option"
  tk_used_at :: "int option"

record registration_row =
  rg_registration_id :: bytes
  rg_token_id :: string
  rg_agent_id :: "string option"
  rg_reserved_agent_id :: string
  rg_agent_name :: string
  rg_agent_public_key :: bytes
  rg_status :: string
  rg_created_at :: int
  rg_updated_at :: int
  rg_expires_at :: "int option"
  rg_committed_at :: "int option"

record agent_row =
  ag_agent_id :: string
  ag_name :: string
  ag_public_key :: bytes
  ag_status :: string
  ag_created_at :: int
  ag_updated_at :: int
  ag_revoked_at :: "int option"

record registry_db =
  db_tokens :: "token_row list"
  db_registrations :: "registration_row list"
  db_agents :: "agent_row list"

datatype registry_error =
    RegSeaOrm string
  | RegInvalid string

type_synonym 'a rresult = "registry_error + 'a"

datatype prepare_error =
    PrepareInvalidToken
  | PrepareTokenAlreadyUsed
  | PrepareAgentAlreadyRegistered
  | PrepareDatabase registry_error
  | PrepareInternal string

record pending_agent_registration =
  pa_registration_id :: bytes
  pa_agent_id :: string

datatype persisted_agent_authorization = Authorized string | Revoked | Unauthorized

datatype agent_status = AgentActive | AgentRevoked
datatype token_status = TokenActive | TokenUsed | TokenRevoked
datatype registration_status = RegistrationPrepared | RegistrationCommitted | RegistrationExpired

definition parse_agent_status :: "string \<Rightarrow> agent_status option" where
  "parse_agent_status s =
     (if s = ''active'' then Some AgentActive else if s = ''revoked'' then Some AgentRevoked else None)"

definition parse_token_status :: "string \<Rightarrow> token_status option" where
  "parse_token_status s =
     (if s = ''active'' then Some TokenActive else if s = ''used'' then Some TokenUsed
      else if s = ''revoked'' then Some TokenRevoked else None)"

definition parse_registration_status :: "string \<Rightarrow> registration_status option" where
  "parse_registration_status s =
     (if s = ''prepared'' then Some RegistrationPrepared
      else if s = ''committed'' then Some RegistrationCommitted
      else if s = ''expired'' then Some RegistrationExpired else None)"

definition pending_registration_ttl_micros :: int where
  "pending_registration_ttl_micros = 10 * 60 * 1000000"

definition has_passed :: "int \<Rightarrow> int option \<Rightarrow> bool" where
  "has_passed now limit = (case limit of Some x \<Rightarrow> x \<le> now | None \<Rightarrow> False)"

section \<open>Rows by key\<close>

definition find_token :: "string \<Rightarrow> registry_db \<Rightarrow> token_row option" where
  "find_token t db = find (\<lambda>r. tk_token_id r = t) (db_tokens db)"

definition find_registration :: "bytes \<Rightarrow> registry_db \<Rightarrow> registration_row option" where
  "find_registration i db = find (\<lambda>r. rg_registration_id r = i) (db_registrations db)"

definition find_agent_row :: "string \<Rightarrow> registry_db \<Rightarrow> agent_row option" where
  "find_agent_row a db = find (\<lambda>r. ag_agent_id r = a) (db_agents db)"

definition update_token :: "string \<Rightarrow> (token_row \<Rightarrow> token_row) \<Rightarrow> registry_db \<Rightarrow> registry_db" where
  "update_token t f db = db\<lparr>db_tokens := map (\<lambda>r. if tk_token_id r = t then f r else r) (db_tokens db)\<rparr>"

definition update_registration ::
  "bytes \<Rightarrow> (registration_row \<Rightarrow> registration_row) \<Rightarrow> registry_db \<Rightarrow> registry_db" where
  "update_registration i f db =
     db\<lparr>db_registrations := map (\<lambda>r. if rg_registration_id r = i then f r else r) (db_registrations db)\<rparr>"

definition update_agent :: "string \<Rightarrow> (agent_row \<Rightarrow> agent_row) \<Rightarrow> registry_db \<Rightarrow> registry_db" where
  "update_agent a f db = db\<lparr>db_agents := map (\<lambda>r. if ag_agent_id r = a then f r else r) (db_agents db)\<rparr>"

text \<open>Insertions fail on a primary key or unique index that is taken.\<close>

definition insert_token :: "token_row \<Rightarrow> registry_db \<Rightarrow> registry_db rresult" where
  "insert_token t db =
     (if tk_token_id t \<in> set (map tk_token_id (db_tokens db)) then Inl (RegSeaOrm ''unique'')
      else Inr (db\<lparr>db_tokens := db_tokens db @ [t]\<rparr>))"

definition insert_registration :: "registration_row \<Rightarrow> registry_db \<Rightarrow> registry_db rresult" where
  "insert_registration r db =
     (if rg_registration_id r \<in> set (map rg_registration_id (db_registrations db)) \<or>
         rg_agent_public_key r \<in> set (map rg_agent_public_key (db_registrations db)) \<or>
         rg_token_id r \<in> set (map rg_token_id (db_registrations db))
      then Inl (RegSeaOrm ''unique'')
      else Inr (db\<lparr>db_registrations := db_registrations db @ [r]\<rparr>))"

definition insert_agent :: "agent_row \<Rightarrow> registry_db \<Rightarrow> registry_db rresult" where
  "insert_agent a db =
     (if ag_agent_id a \<in> set (map ag_agent_id (db_agents db)) \<or>
         ag_public_key a \<in> set (map ag_public_key (db_agents db))
      then Inl (RegSeaOrm ''unique'')
      else Inr (db\<lparr>db_agents := db_agents db @ [a]\<rparr>))"

section \<open>Tokens\<close>

text \<open>\<open>valid_for\<close> is in microseconds.\<close>

definition insert_registration_token ::
  "int \<Rightarrow> string \<Rightarrow> bytes \<Rightarrow> string option \<Rightarrow> nat option \<Rightarrow> registry_db
   \<Rightarrow> int option rresult \<times> registry_db" where
  "insert_registration_token now token_id psk display_name valid_for db =
     (case (case valid_for of
              None \<Rightarrow> Inr None
            | Some d \<Rightarrow>
                if i64_max < int d
                then Inl (RegInvalid ''registration token duration does not fit in i64 microseconds'')
                else if i64_max < now + int d
                then Inl (RegInvalid ''registration token expiration timestamp overflow'')
                else Inr (Some (now + int d))) of
        Inl err \<Rightarrow> (Inl err, db)
      | Inr expires_at \<Rightarrow>
          (case insert_token
                  \<lparr>tk_token_id = token_id, tk_psk = psk, tk_display_name = display_name,
                   tk_status = ''active'', tk_created_at = now, tk_updated_at = now,
                   tk_expires_at = expires_at, tk_used_at = None\<rparr> db of
             Inl err \<Rightarrow> (Inl err, db)
           | Inr db \<Rightarrow> (Inr expires_at, db)))"

definition load_active_registration_psk :: "int \<Rightarrow> string \<Rightarrow> registry_db \<Rightarrow> bytes option rresult" where
  "load_active_registration_psk now token_id db =
     (case find_token token_id db of
        None \<Rightarrow> Inr None
      | Some t \<Rightarrow>
          if parse_token_status (tk_status t) \<noteq> Some TokenActive \<or> tk_used_at t \<noteq> None \<or>
             has_passed now (tk_expires_at t)
          then Inr None
          else if length (tk_psk t) = registration_psk_bytes then Inr (Some (tk_psk t))
          else Inl (RegInvalid ''registration token PSK must be 32 bytes''))"

datatype revoke_token_outcome = TokenNowRevoked | TokenAlreadyRevoked | TokenAlreadyConsumed | TokenNotFound

definition revoke_registration_token ::
  "int \<Rightarrow> string \<Rightarrow> registry_db \<Rightarrow> revoke_token_outcome rresult \<times> registry_db" where
  "revoke_registration_token now token_id db =
     (case find_token token_id db of
        None \<Rightarrow> (Inr TokenNotFound, db)
      | Some t \<Rightarrow>
          if tk_status t = ''revoked'' then (Inr TokenAlreadyRevoked, db)
          else if tk_status t = ''used'' then (Inr TokenAlreadyConsumed, db)
          else if tk_status t = ''active''
          then (Inr TokenNowRevoked,
                update_token token_id (\<lambda>t. t\<lparr>tk_status := ''revoked'', tk_updated_at := now\<rparr>) db)
          else (Inl (RegInvalid ''registration token has an unknown status''), db))"

section \<open>Registration attempts\<close>

definition registration_is_expired :: "int \<Rightarrow> registration_row \<Rightarrow> bool" where
  "registration_is_expired now r \<longleftrightarrow>
     parse_registration_status (rg_status r) = Some RegistrationExpired \<or>
     parse_registration_status (rg_status r) = Some RegistrationPrepared \<and> has_passed now (rg_expires_at r)"

definition delete_registration :: "bytes \<Rightarrow> registry_db \<Rightarrow> registry_db" where
  "delete_registration i db =
     db\<lparr>db_registrations := filter (\<lambda>r. rg_registration_id r \<noteq> i) (db_registrations db)\<rparr>"

definition delete_registration_if_expired :: "int \<Rightarrow> registration_row \<Rightarrow> registry_db \<Rightarrow> bool \<times> registry_db" where
  "delete_registration_if_expired now r db =
     (if registration_is_expired now r then (True, delete_registration (rg_registration_id r) db)
      else (False, db))"

definition cleanup_expired_agent_registrations :: "int \<Rightarrow> registry_db \<Rightarrow> nat \<times> registry_db" where
  "cleanup_expired_agent_registrations now db =
     (let goes = (\<lambda>r. rg_agent_id r = None \<and>
            (rg_status r = ''expired'' \<or>
             rg_status r = ''prepared'' \<and> (case rg_expires_at r of Some x \<Rightarrow> x < now | None \<Rightarrow> False)))
      in (length (filter goes (db_registrations db)),
          db\<lparr>db_registrations := filter (\<lambda>r. \<not> goes r) (db_registrations db)\<rparr>))"

fun fold_difference :: "bytes \<Rightarrow> bytes \<Rightarrow> u8 \<Rightarrow> u8" where
  "fold_difference (l # ls) (r # rs) d = fold_difference ls rs (or d (xor l r))"
| "fold_difference _ _ d = d"

definition constant_time_eq :: "bytes \<Rightarrow> bytes \<Rightarrow> bool" where
  "constant_time_eq expected actual \<longleftrightarrow>
     length expected = length actual \<and> fold_difference expected actual 0 = 0"

text \<open>The existing attempts an expired one is removed from, within the transaction: the first
  result says whether an attempt is in the way.\<close>

definition clear_way ::
  "int \<Rightarrow> (registration_row \<Rightarrow> bool) \<Rightarrow> registry_db \<Rightarrow> registration_row option \<times> registry_db" where
  "clear_way now p db =
     (case find p (db_registrations db) of
        None \<Rightarrow> (None, db)
      | Some r \<Rightarrow>
          (case delete_registration_if_expired now r db of
             (True, db) \<Rightarrow> (None, db) | (False, db) \<Rightarrow> (Some r, db)))"

definition prepare_agent_registration ::
  "int \<Rightarrow> bytes \<Rightarrow> string \<Rightarrow> string \<Rightarrow> bytes \<Rightarrow> bytes \<Rightarrow> registry_db
   \<Rightarrow> (prepare_error + pending_agent_registration) \<times> registry_db" where
  "prepare_agent_registration now new_id new_agent token_id request_psk public_key db =
     (case find_token token_id db of
        None \<Rightarrow> (Inl PrepareInvalidToken, db)
      | Some token \<Rightarrow>
          if parse_token_status (tk_status token) = Some TokenUsed \<or> tk_used_at token \<noteq> None
          then (Inl PrepareTokenAlreadyUsed, db)
          else if parse_token_status (tk_status token) \<noteq> Some TokenActive \<or>
                  has_passed now (tk_expires_at token) \<or> \<not> constant_time_eq (tk_psk token) request_psk
          then (Inl PrepareInvalidToken, db)
          else
     (case clear_way now (\<lambda>r. rg_agent_public_key r = public_key) db of
        (Some r, db') \<Rightarrow>
          if rg_token_id r = token_id \<and>
             (parse_registration_status (rg_status r) = Some RegistrationPrepared \<or>
              parse_registration_status (rg_status r) = Some RegistrationCommitted)
          then (if length (rg_registration_id r) = 16
                then (Inr \<lparr>pa_registration_id = rg_registration_id r,
                           pa_agent_id = rg_reserved_agent_id r\<rparr>, db')
                else (Inl (PrepareInternal ''registration id''), db))
          else (Inl PrepareAgentAlreadyRegistered, db)
      | (None, db') \<Rightarrow>
     (case clear_way now (\<lambda>r. rg_token_id r = token_id) db' of
        (Some _, _) \<Rightarrow> (Inl PrepareTokenAlreadyUsed, db)
      | (None, db') \<Rightarrow>
          (case insert_registration
                  \<lparr>rg_registration_id = new_id, rg_token_id = token_id, rg_agent_id = None,
                   rg_reserved_agent_id = new_agent,
                   rg_agent_name = (case tk_display_name token of Some n \<Rightarrow> n | None \<Rightarrow> new_agent),
                   rg_agent_public_key = public_key, rg_status = ''prepared'',
                   rg_created_at = now, rg_updated_at = now,
                   rg_expires_at = Some (now + pending_registration_ttl_micros),
                   rg_committed_at = None\<rparr> db' of
             Inl err \<Rightarrow> (Inl (PrepareDatabase err), db)
           | Inr db' \<Rightarrow>
               (Inr \<lparr>pa_registration_id = new_id, pa_agent_id = new_agent\<rparr>, db')))))"

definition commit_agent_registration ::
  "int \<Rightarrow> pending_agent_registration \<Rightarrow> registry_db \<Rightarrow> unit rresult \<times> registry_db" where
  "commit_agent_registration now p db =
     (case find_registration (pa_registration_id p) db of
        None \<Rightarrow> (Inl (RegInvalid ''registration transaction is unknown''), db)
      | Some r \<Rightarrow>
          if rg_reserved_agent_id r \<noteq> pa_agent_id p
          then (Inl (RegInvalid ''registration transaction does not match Agent''), db)
          else if parse_registration_status (rg_status r) = Some RegistrationCommitted
          then (case rg_agent_id r of
                  None \<Rightarrow> (Inl (RegInvalid ''committed registration has no Agent ID''), db)
                | Some a \<Rightarrow>
                    (case find_agent_row a db of
                       None \<Rightarrow> (Inl (RegInvalid ''committed Agent record is missing''), db)
                     | Some agent \<Rightarrow>
                         if parse_agent_status (ag_status agent) \<noteq> Some AgentActive
                         then (Inl (RegInvalid ''committed Agent is not active''), db)
                         else (Inr (), db)))
          else if parse_registration_status (rg_status r) \<noteq> Some RegistrationPrepared \<or>
                  has_passed now (rg_expires_at r)
          then (Inl (RegInvalid ''registration transaction is not committable''), db)
          else
     (case find_token (rg_token_id r) db of
        None \<Rightarrow> (Inl (RegInvalid ''registration token is invalid''), db)
      | Some t \<Rightarrow>
          if parse_token_status (tk_status t) \<noteq> Some TokenActive \<or> tk_used_at t \<noteq> None \<or>
             has_passed now (tk_expires_at t)
          then (Inl (RegInvalid ''registration token is invalid''), db)
          else if find_agent_row (rg_reserved_agent_id r) db \<noteq> None
          then (Inl (RegInvalid ''reserved Agent ID is already in use''), db)
          else
            (case insert_agent
                    \<lparr>ag_agent_id = rg_reserved_agent_id r, ag_name = rg_agent_name r,
                     ag_public_key = rg_agent_public_key r, ag_status = ''active'',
                     ag_created_at = now, ag_updated_at = now, ag_revoked_at = None\<rparr> db of
               Inl err \<Rightarrow> (Inl err, db)
             | Inr db' \<Rightarrow>
                 (Inr (),
                  update_token (rg_token_id r)
                    (\<lambda>t. t\<lparr>tk_status := ''used'', tk_updated_at := now, tk_used_at := Some now\<rparr>)
                  (update_registration (rg_registration_id r)
                    (\<lambda>r. r\<lparr>rg_agent_id := Some (pa_agent_id p), rg_status := ''committed'',
                      rg_updated_at := now, rg_committed_at := Some now\<rparr>) db')))))"

section \<open>Agents\<close>

definition find_agent_authorization :: "bytes \<Rightarrow> registry_db \<Rightarrow> persisted_agent_authorization" where
  "find_agent_authorization public_key db =
     (case find (\<lambda>a. ag_public_key a = public_key) (db_agents db) of
        None \<Rightarrow> Unauthorized
      | Some a \<Rightarrow>
          if parse_agent_status (ag_status a) = Some AgentRevoked \<or> ag_revoked_at a \<noteq> None then Revoked
          else if parse_agent_status (ag_status a) = Some AgentActive then Authorized (ag_agent_id a)
          else Unauthorized)"

definition is_agent_active :: "string \<Rightarrow> registry_db \<Rightarrow> bool" where
  "is_agent_active agent_id db =
     (case find_agent_row agent_id db of
        None \<Rightarrow> False | Some a \<Rightarrow> ag_status a = ''active'' \<and> ag_revoked_at a = None)"

text \<open>What a management command sees of a row: no key, and the status derived from the clock.\<close>

record registration_token_record =
  tr_token_id :: string
  tr_display_name :: "string option"
  tr_status :: string
  tr_created_at :: int
  tr_updated_at :: int
  tr_expires_at :: "int option"
  tr_used_at :: "int option"

record agent_record =
  ar_agent_id :: string
  ar_name :: string
  ar_status :: string
  ar_created_at :: int
  ar_updated_at :: int
  ar_revoked_at :: "int option"

record management_counts =
  mc_active_agents :: nat
  mc_revoked_agents :: nat
  mc_active_tokens :: nat
  mc_used_tokens :: nat
  mc_revoked_tokens :: nat
  mc_expired_tokens :: nat

definition token_record :: "token_row \<Rightarrow> int \<Rightarrow> registration_token_record" where
  "token_record model now =
     \<lparr>tr_token_id = tk_token_id model, tr_display_name = tk_display_name model,
      tr_status = (if tk_status model = ''active'' \<and> has_passed now (tk_expires_at model)
                   then ''expired'' else tk_status model),
      tr_created_at = tk_created_at model, tr_updated_at = tk_updated_at model,
      tr_expires_at = tk_expires_at model, tr_used_at = tk_used_at model\<rparr>"

definition agent_record_of :: "agent_row \<Rightarrow> agent_record" where
  "agent_record_of model =
     \<lparr>ar_agent_id = ag_agent_id model, ar_name = ag_name model, ar_status = ag_status model,
      ar_created_at = ag_created_at model, ar_updated_at = ag_updated_at model,
      ar_revoked_at = ag_revoked_at model\<rparr>"

definition find_registration_token :: "int \<Rightarrow> string \<Rightarrow> registry_db \<Rightarrow> registration_token_record option" where
  "find_registration_token now token_id db = map_option (\<lambda>model. token_record model now) (find_token token_id db)"

definition find_agent :: "string \<Rightarrow> registry_db \<Rightarrow> agent_record option" where
  "find_agent agent_id db = map_option agent_record_of (find_agent_row agent_id db)"

definition management_counts_of :: "int \<Rightarrow> registry_db \<Rightarrow> management_counts" where
  "management_counts_of now db =
     \<lparr>mc_active_agents = length (filter (\<lambda>a. ag_status a = ''active'') (db_agents db)),
      mc_revoked_agents = length (filter (\<lambda>a. ag_status a = ''revoked'') (db_agents db)),
      mc_active_tokens = length (filter (\<lambda>t. tk_status t = ''active'' \<and>
        (case tk_expires_at t of None \<Rightarrow> True | Some e \<Rightarrow> now < e)) (db_tokens db)),
      mc_used_tokens = length (filter (\<lambda>t. tk_status t = ''used'') (db_tokens db)),
      mc_revoked_tokens = length (filter (\<lambda>t. tk_status t = ''revoked'') (db_tokens db)),
      mc_expired_tokens = length (filter (\<lambda>t. tk_status t = ''active'' \<and>
        (case tk_expires_at t of None \<Rightarrow> False | Some e \<Rightarrow> e \<le> now)) (db_tokens db))\<rparr>"

definition rename_agent ::
  "int \<Rightarrow> string \<Rightarrow> string \<Rightarrow> registry_db \<Rightarrow> agent_record option \<times> registry_db" where
  "rename_agent now agent_id name db =
     (case find_agent_row agent_id db of
        None \<Rightarrow> (None, db)
      | Some model \<Rightarrow>
          (Some (agent_record_of (model\<lparr>ag_name := name, ag_updated_at := now\<rparr>)),
           update_agent agent_id (\<lambda>a. a\<lparr>ag_name := name, ag_updated_at := now\<rparr>) db))"

definition revoke_agent :: "int \<Rightarrow> string \<Rightarrow> registry_db \<Rightarrow> agent_record option \<times> registry_db" where
  "revoke_agent now agent_id db =
     (case find_agent_row agent_id db of
        None \<Rightarrow> (None, db)
      | Some model \<Rightarrow>
          if ag_status model = ''revoked'' \<and> ag_revoked_at model \<noteq> None
          then (Some (agent_record_of model), db)
          else (Some (agent_record_of
                  (model\<lparr>ag_status := ''revoked'', ag_updated_at := now, ag_revoked_at := Some now\<rparr>)),
                update_agent agent_id
                  (\<lambda>a. a\<lparr>ag_status := ''revoked'', ag_updated_at := now, ag_revoked_at := Some now\<rparr>) db))"

section \<open>The registry\<close>

datatype issue_error = IssueText string | IssueDatabase registry_error

definition create_registration_token ::
  "int \<Rightarrow> bytes \<Rightarrow> bytes \<Rightarrow> string option \<Rightarrow> nat option \<Rightarrow> registry_db
   \<Rightarrow> (issue_error + string \<times> string \<times> int option) \<times> registry_db" where
  "create_registration_token now random_id psk display_name valid_for db =
     (if (case display_name of Some n \<Rightarrow> validate_agent_display_name n \<noteq> Inr () | None \<Rightarrow> False)
      then (Inl (IssueText ''Agent display name is invalid''), db)
      else if valid_for = Some 0
      then (Inl (IssueText ''registration Token validity duration must be greater than zero''), db)
      else (case insert_registration_token now (encode_hex random_id) psk display_name valid_for db of
              (Inl err, db) \<Rightarrow> (Inl (IssueDatabase err), db)
            | (Inr expires_at, db) \<Rightarrow>
                (Inr (encode_hex random_id, credential_of (encode_hex random_id) psk, expires_at), db)))"

definition resolve_registration_psk :: "int \<Rightarrow> string \<Rightarrow> registry_db \<Rightarrow> string + bytes" where
  "resolve_registration_psk now token_id db =
     (case validate_registration_token_id token_id of
        Inl _ \<Rightarrow> Inl ''registration token is invalid''
      | Inr _ \<Rightarrow>
          (case load_active_registration_psk now token_id db of
             Inl _ \<Rightarrow> Inl ''database''
           | Inr None \<Rightarrow> Inl ''registration token is invalid''
           | Inr (Some psk) \<Rightarrow> Inr psk))"

definition prepare_registration ::
  "int \<Rightarrow> bytes \<Rightarrow> string \<Rightarrow> string \<Rightarrow> string \<Rightarrow> bytes \<Rightarrow> registry_db
   \<Rightarrow> (prepare_error + pending_agent_registration) \<times> registry_db" where
  "prepare_registration now new_id new_agent token_id token public_key db =
     (case parse_registration_credential token of
        Inl _ \<Rightarrow> (Inl PrepareInvalidToken, db)
      | Inr (request_id, psk) \<Rightarrow>
          if request_id \<noteq> token_id then (Inl PrepareInvalidToken, db)
          else prepare_agent_registration now new_id new_agent token_id psk public_key db)"

datatype agent_authorization_error = AgentIsRevoked | AgentNotAuthorized

definition authorize_agent :: "bytes \<Rightarrow> registry_db \<Rightarrow> agent_authorization_error + string" where
  "authorize_agent public_key db =
     (case find_agent_authorization public_key db of
        Authorized agent_id \<Rightarrow> Inr agent_id
      | Revoked \<Rightarrow> Inl AgentIsRevoked
      | Unauthorized \<Rightarrow> Inl AgentNotAuthorized)"

definition map_registration_prepare_error :: "prepare_error \<Rightarrow> secure_error_code" where
  "map_registration_prepare_error err =
     (case err of
        PrepareInvalidToken \<Rightarrow> SecureInvalidToken
      | PrepareTokenAlreadyUsed \<Rightarrow> SecureTokenAlreadyUsed
      | PrepareAgentAlreadyRegistered \<Rightarrow> SecureAgentAlreadyRegistered
      | _ \<Rightarrow> SecureInternal)"


section \<open>The tables stay consistent\<close>

lemma find_unique:
  "distinct (map f xs) \<Longrightarrow> find (\<lambda>r. f r = k) xs = Some x \<longleftrightarrow> x \<in> set xs \<and> f x = k"
  by (induction xs) (auto simp: image_iff)

lemma map_update_key:
  "(\<And>r. f (g r) = f r) \<Longrightarrow> map f (map (\<lambda>r. if p r then g r else r) xs) = map f xs"
  by (induction xs) auto

lemma distinct_map_filter': "distinct (map f xs) \<Longrightarrow> distinct (map f (filter p xs))"
  by (induction xs) auto

definition is_committed :: "registration_row \<Rightarrow> bool" where
  "is_committed r \<longleftrightarrow> rg_status r = ''committed''"

definition is_used :: "token_row \<Rightarrow> bool" where
  "is_used t \<longleftrightarrow> tk_status t = ''used''"

definition keys_unique :: "registry_db \<Rightarrow> bool" where
  "keys_unique db \<longleftrightarrow>
     distinct (map tk_token_id (db_tokens db)) \<and>
     distinct (map rg_registration_id (db_registrations db)) \<and>
     distinct (map rg_agent_public_key (db_registrations db)) \<and>
     distinct (map rg_token_id (db_registrations db)) \<and>
     distinct (map ag_agent_id (db_agents db)) \<and> distinct (map ag_public_key (db_agents db))"

definition token_row_ok :: "token_row \<Rightarrow> bool" where
  "token_row_ok t \<longleftrightarrow> is_used t = (tk_used_at t \<noteq> None) \<and>
     (is_used t \<or> tk_status t = ''active'' \<or> tk_status t = ''revoked'')"

definition registration_row_ok :: "registry_db \<Rightarrow> registration_row \<Rightarrow> bool" where
  "registration_row_ok db r \<longleftrightarrow>
     (\<exists>t \<in> set (db_tokens db). tk_token_id t = rg_token_id r \<and> (is_committed r \<longrightarrow> is_used t)) \<and>
     (if is_committed r
      then rg_agent_id r = Some (rg_reserved_agent_id r) \<and>
        (\<exists>a \<in> set (db_agents db). ag_agent_id a = rg_reserved_agent_id r \<and> ag_public_key a = rg_agent_public_key r)
      else rg_status r = ''prepared'' \<and> rg_agent_id r = None)"

definition agent_status_ok :: "agent_row \<Rightarrow> bool" where
  "agent_status_ok a \<longleftrightarrow>
     ag_status a = ''active'' \<and> ag_revoked_at a = None \<or> ag_status a = ''revoked'' \<and> ag_revoked_at a \<noteq> None"

definition agent_row_ok :: "registry_db \<Rightarrow> agent_row \<Rightarrow> bool" where
  "agent_row_ok db a \<longleftrightarrow> agent_status_ok a \<and>
     (\<exists>r \<in> set (db_registrations db). is_committed r \<and> rg_reserved_agent_id r = ag_agent_id a \<and>
        rg_agent_public_key r = ag_public_key a)"

definition registry_ok :: "registry_db \<Rightarrow> bool" where
  "registry_ok db \<longleftrightarrow> keys_unique db \<and> list_all token_row_ok (db_tokens db) \<and>
     list_all (registration_row_ok db) (db_registrations db) \<and> list_all (agent_row_ok db) (db_agents db)"

lemmas registry_simps = registry_ok_def keys_unique_def list_all_iff registration_row_ok_def agent_row_ok_def

inductive registration_step :: "registry_db \<Rightarrow> registry_db \<Rightarrow> bool" where
  issues: "create_registration_token now random_id psk name valid_for db = (res, db') \<Longrightarrow> registration_step db db'"
| revokes_token: "revoke_registration_token now t db = (res, db') \<Longrightarrow> registration_step db db'"
| prepares: "prepare_registration now new_id new_agent t token k db = (res, db') \<Longrightarrow> registration_step db db'"
| commits: "commit_agent_registration now p db = (res, db') \<Longrightarrow> registration_step db db'"
| cleans: "cleanup_expired_agent_registrations now db = (n, db') \<Longrightarrow> registration_step db db'"
| renames: "rename_agent now a name db = (found, db') \<Longrightarrow> registration_step db db'"
| revokes_agent: "revoke_agent now a db = (found, db') \<Longrightarrow> registration_step db db'"

text \<open>One lemma per table: what a change of its rows must keep.\<close>

lemma tokens_ok:
  assumes "registry_ok db" and "distinct (map tk_token_id ts)" and "list_all token_row_ok ts"
    and "\<And>t. t \<in> set (db_tokens db) \<Longrightarrow> \<exists>u \<in> set ts. tk_token_id u = tk_token_id t \<and> (is_used t \<longrightarrow> is_used u)"
  shows "registry_ok (db\<lparr>db_tokens := ts\<rparr>)"
proof -
  have "registration_row_ok (db\<lparr>db_tokens := ts\<rparr>) r" if "r \<in> set (db_registrations db)" for r
  proof -
    have "registration_row_ok db r" using assms(1) that by (simp add: registry_ok_def list_all_iff)
    then show ?thesis unfolding registration_row_ok_def using assms(4) by fastforce
  qed
  then show ?thesis using assms(1-3) by (simp add: registry_ok_def keys_unique_def list_all_iff agent_row_ok_def)
qed

lemma agents_ok:
  assumes "registry_ok db" and "\<And>a. ag_agent_id (g a) = ag_agent_id a" and "\<And>a. ag_public_key (g a) = ag_public_key a"
    and "\<And>a. agent_status_ok a \<Longrightarrow> agent_status_ok (g a)"
  shows "registry_ok (db\<lparr>db_agents := map g (db_agents db)\<rparr>)"
proof -
  have "registration_row_ok (db\<lparr>db_agents := map g (db_agents db)\<rparr>) r" if "r \<in> set (db_registrations db)" for r
  proof -
    have "registration_row_ok db r" using assms(1) that by (simp add: registry_ok_def list_all_iff)
    then show ?thesis unfolding registration_row_ok_def using assms(2,3) by auto
  qed
  then show ?thesis using assms by (simp add: registry_ok_def keys_unique_def list_all_iff agent_row_ok_def comp_def)
qed

lemma filter_ok:
  assumes "registry_ok db" and "\<And>r. r \<in> set (db_registrations db) \<Longrightarrow> is_committed r \<Longrightarrow> p r"
  shows "registry_ok (db\<lparr>db_registrations := filter p (db_registrations db)\<rparr>)"
  using assms by (fastforce simp: registry_simps distinct_map_filter')

lemma insert_registration_ok:
  assumes "registry_ok db" and "insert_registration r db = Inr db'" and "\<not> is_committed r" and "rg_status r = ''prepared''"
    and "rg_agent_id r = None" and "rg_token_id r \<in> set (map tk_token_id (db_tokens db))"
  shows "registry_ok db'"
proof -
  have "db' = db\<lparr>db_registrations := db_registrations db @ [r]\<rparr>" using assms(2) by (simp add: insert_registration_def split: if_splits)
  with assms show ?thesis
    by (fastforce simp: registry_simps insert_registration_def split: if_splits)
qed

lemma issue_ok:
  assumes "registry_ok db" and "insert_registration_token now t psk n v db = (res, db')"
  shows "registry_ok db'"
proof -
  let ?row = "\<lambda>x. \<lparr>tk_token_id = t, tk_psk = psk, tk_display_name = n, tk_status = ''active'',
    tk_created_at = now, tk_updated_at = now, tk_expires_at = x, tk_used_at = None\<rparr>"
  have row: "token_row_ok (?row x)" for x by (simp add: token_row_ok_def is_used_def)
  consider "db' = db" | x where "insert_token (?row x) db = Inr db'"
    using assms(2) by (auto simp: insert_registration_token_def split: option.splits sum.splits if_splits)
  then show ?thesis
  proof cases
    case (2 x)
    then have new: "t \<notin> set (map tk_token_id (db_tokens db))" and db': "db' = db\<lparr>db_tokens := db_tokens db @ [?row x]\<rparr>"
      by (simp_all add: insert_token_def split: if_splits)
    show ?thesis unfolding db'
      using assms(1) new row by (intro tokens_ok) (auto simp: registry_ok_def keys_unique_def)
  qed (use assms in simp)
qed

lemma update_token_ok:
  assumes "registry_ok db" and "\<And>t. tk_token_id (g t) = tk_token_id t" and "\<And>t. tk_token_id t = k \<Longrightarrow> t \<in> set (db_tokens db) \<Longrightarrow> token_row_ok (g t)"
    and "\<And>t. tk_token_id t = k \<Longrightarrow> t \<in> set (db_tokens db) \<Longrightarrow> is_used t \<Longrightarrow> is_used (g t)"
  shows "registry_ok (update_token k g db)"
  unfolding update_token_def
proof (rule tokens_ok [OF assms(1)])
  have "map tk_token_id (map (\<lambda>r. if tk_token_id r = k then g r else r) (db_tokens db)) = map tk_token_id (db_tokens db)"
    using assms(2) by (rule map_update_key)
  then show "distinct (map tk_token_id (map (\<lambda>r. if tk_token_id r = k then g r else r) (db_tokens db)))"
    using assms(1) by (simp only: registry_ok_def keys_unique_def)
  show "list_all token_row_ok (map (\<lambda>r. if tk_token_id r = k then g r else r) (db_tokens db))"
    using assms(1,3) by (auto simp: registry_ok_def list_all_iff)
  fix t assume "t \<in> set (db_tokens db)"
  then show "\<exists>u \<in> set (map (\<lambda>r. if tk_token_id r = k then g r else r) (db_tokens db)).
      tk_token_id u = tk_token_id t \<and> (is_used t \<longrightarrow> is_used u)"
    using assms(2,4) by (intro bexI [of _ "if tk_token_id t = k then g t else t"]) auto
qed

lemma revoke_token_ok:
  assumes "registry_ok db" and "revoke_registration_token now t db = (res, db')"
  shows "registry_ok db'"
proof -
  have uniq: "distinct (map tk_token_id (db_tokens db))" using assms(1) by (simp add: registry_ok_def keys_unique_def)
  have "registry_ok (update_token t (\<lambda>r. r\<lparr>tk_status := ''revoked'', tk_updated_at := now\<rparr>) db)"
    if row: "find_token t db = Some row" "tk_status row = ''active''" for row
  proof (rule update_token_ok [OF assms(1)])
    fix u assume u: "tk_token_id u = t" "u \<in> set (db_tokens db)"
    then have "find_token t db = Some u" by (simp add: find_token_def find_unique [OF uniq])
    with row have "u = row" by simp
    then have act: "tk_status u = ''active''" "token_row_ok u" using row u assms(1) by (auto simp: registry_ok_def list_all_iff)
    then show "token_row_ok (u\<lparr>tk_status := ''revoked'', tk_updated_at := now\<rparr>)"
      by (simp add: token_row_ok_def is_used_def)
    show "is_used u \<Longrightarrow> is_used (u\<lparr>tk_status := ''revoked'', tk_updated_at := now\<rparr>)"
      using act by (simp add: is_used_def)
  qed simp
  then show ?thesis
    using assms by (auto simp: revoke_registration_token_def split: option.splits if_splits)
qed

lemma update_agent_ok:
  assumes "registry_ok db" and "\<And>a. ag_agent_id (g a) = ag_agent_id a" and "\<And>a. ag_public_key (g a) = ag_public_key a"
    and "\<And>a. agent_status_ok a \<Longrightarrow> agent_status_ok (g a)"
  shows "registry_ok (update_agent k g db)"
  unfolding update_agent_def using assms by (intro agents_ok) auto

lemma agent_changes_ok:
  assumes "registry_ok db"
  shows "registry_ok (snd (rename_agent now a n db))" and "registry_ok (snd (revoke_agent now a db))"
  using assms
  by (auto simp: rename_agent_def revoke_agent_def agent_status_ok_def split: option.splits intro!: update_agent_ok)


lemma expired_not_committed: "registration_is_expired now r \<Longrightarrow> \<not> is_committed r"
  by (auto simp: registration_is_expired_def parse_registration_status_def is_committed_def split: if_splits)

lemma delete_ok:
  assumes "registry_ok db" and "r \<in> set (db_registrations db)" and "\<not> is_committed r"
  shows "registry_ok (delete_registration (rg_registration_id r) db)"
  unfolding delete_registration_def
proof (rule filter_ok [OF assms(1)])
  fix q assume q: "q \<in> set (db_registrations db)" "is_committed q"
  then have "q \<noteq> r" using assms(3) by blast
  then show "rg_registration_id q \<noteq> rg_registration_id r"
    using assms(1,2) q(1) by (auto simp: registry_ok_def keys_unique_def distinct_map inj_on_def)
qed

lemma clear_way_cases:
  assumes "clear_way now p db = (found, db')"
  obtains (blocked) r where "found = Some r" "db' = db" "r \<in> set (db_registrations db)" "p r" "\<not> registration_is_expired now r"
  | (free) "found = None" "db' = db" "\<not> list_ex p (db_registrations db)"
  | (cleared) r where "found = None" "r \<in> set (db_registrations db)" "p r" "registration_is_expired now r"
      "db' = delete_registration (rg_registration_id r) db"
proof (cases "find p (db_registrations db)")
  case None
  then have "\<not> list_ex p (db_registrations db)" by (simp add: find_None_iff list_ex_iff)
  then show thesis using assms None free by (simp add: clear_way_def)
next
  case (Some r)
  then have r: "r \<in> set (db_registrations db)" "p r" by (auto simp: find_Some_iff)
  show thesis
  proof (cases "registration_is_expired now r")
    case True
    then show thesis
      using assms Some r by (intro cleared [of r]) (simp_all add: clear_way_def delete_registration_if_expired_def)
  next
    case False
    then show thesis
      using assms Some r by (intro blocked [of r]) (simp_all add: clear_way_def delete_registration_if_expired_def)
  qed
qed

lemma clear_way_ok:
  assumes "registry_ok db" and "clear_way now p db = (found, db')"
  shows "registry_ok db'" and "db_tokens db' = db_tokens db" and "db_agents db' = db_agents db"
proof -
  show "registry_ok db'"
    using assms(2) by (rule clear_way_cases) (use assms(1) delete_ok expired_not_committed in blast)+
  show "db_tokens db' = db_tokens db" "db_agents db' = db_agents db"
    using assms(2) by (rule clear_way_cases; simp add: delete_registration_def)+
qed

lemma prepare_cases:
  assumes "prepare_agent_registration now new_id new_agent t psk k db = (res, db')"
  obtains (refused) err where "res = Inl err" "db' = db"
  | (again) r where "res = Inr \<lparr>pa_registration_id = rg_registration_id r, pa_agent_id = rg_reserved_agent_id r\<rparr>"
      "db' = db" "r \<in> set (db_registrations db)" "rg_agent_public_key r = k" "rg_token_id r = t"
      "\<not> registration_is_expired now r"
  | (fresh) token db1 db2 where "res = Inr \<lparr>pa_registration_id = new_id, pa_agent_id = new_agent\<rparr>"
      "find_token t db = Some token" "parse_token_status (tk_status token) = Some TokenActive" "tk_used_at token = None"
      "clear_way now (\<lambda>r. rg_agent_public_key r = k) db = (None, db1)"
      "clear_way now (\<lambda>r. rg_token_id r = t) db1 = (None, db2)"
      "insert_registration
         \<lparr>rg_registration_id = new_id, rg_token_id = t, rg_agent_id = None, rg_reserved_agent_id = new_agent,
          rg_agent_name = (case tk_display_name token of Some n \<Rightarrow> n | None \<Rightarrow> new_agent),
          rg_agent_public_key = k, rg_status = ''prepared'', rg_created_at = now, rg_updated_at = now,
          rg_expires_at = Some (now + pending_registration_ttl_micros), rg_committed_at = None\<rparr> db2 = Inr db'"
proof (cases "isl res")
  case True
  have "db' = db"
    using assms True unfolding prepare_agent_registration_def
    by (auto split: option.splits if_splits prod.splits sum.splits)
  with True show thesis using refused by (auto simp: isl_def)
next
  case False
  then obtain token where token: "find_token t db = Some token" "parse_token_status (tk_status token) = Some TokenActive"
    "tk_used_at token = None" "parse_token_status (tk_status token) \<noteq> Some TokenUsed" "\<not> has_passed now (tk_expires_at token)"
    "constant_time_eq (tk_psk token) psk"
    using assms unfolding prepare_agent_registration_def by (auto split: option.splits if_splits)
  obtain found db1 where one: "clear_way now (\<lambda>r. rg_agent_public_key r = k) db = (found, db1)" by fastforce
  show thesis
  proof (cases found)
    case (Some r)
    from one have r: "db1 = db" "r \<in> set (db_registrations db)" "rg_agent_public_key r = k" "\<not> registration_is_expired now r"
      by (rule clear_way_cases; use Some in simp)+
    show thesis
      using assms False token one Some r
      by (intro again [of r]) (auto simp: prepare_agent_registration_def split: if_splits)
  next
    case None
    obtain found' db2 where two: "clear_way now (\<lambda>r. rg_token_id r = t) db1 = (found', db2)" by fastforce
    have "found' = None"
      using assms False token one None two
      by (cases found') (auto simp: prepare_agent_registration_def)
    then show thesis
      using assms False token one None two
      by (intro fresh [of token db1 db2]) (auto simp: prepare_agent_registration_def split: sum.splits)
  qed
qed

lemma prepare_ok:
  assumes "registry_ok db" and "prepare_agent_registration now new_id new_agent t psk k db = (res, db')"
  shows "registry_ok db'"
  using assms(2)
proof (cases rule: prepare_cases)
  case (fresh token db1 db2)
  have ok: "registry_ok db2" "db_tokens db2 = db_tokens db"
    using clear_way_ok [OF clear_way_ok(1) [OF assms(1) fresh(5)] fresh(6)] clear_way_ok [OF assms(1) fresh(5)] by simp_all
  have "t \<in> set (map tk_token_id (db_tokens db2))"
    using fresh(2) ok(2) by (auto simp: find_token_def find_Some_iff)
  then show ?thesis
    by (intro insert_registration_ok [OF ok(1) fresh(7)]) (simp_all add: is_committed_def)
qed (use assms in simp_all)


definition committed_row :: "int \<Rightarrow> string \<Rightarrow> registration_row \<Rightarrow> registration_row" where
  "committed_row now a r = r\<lparr>rg_agent_id := Some a, rg_status := ''committed'',
     rg_updated_at := now, rg_committed_at := Some now\<rparr>"

definition consumed_row :: "int \<Rightarrow> token_row \<Rightarrow> token_row" where
  "consumed_row now t = t\<lparr>tk_status := ''used'', tk_updated_at := now, tk_used_at := Some now\<rparr>"

definition activated_row :: "int \<Rightarrow> registration_row \<Rightarrow> agent_row" where
  "activated_row now r =
     \<lparr>ag_agent_id = rg_reserved_agent_id r, ag_name = rg_agent_name r, ag_public_key = rg_agent_public_key r,
      ag_status = ''active'', ag_created_at = now, ag_updated_at = now, ag_revoked_at = None\<rparr>"

definition commit_result :: "int \<Rightarrow> registration_row \<Rightarrow> registry_db \<Rightarrow> registry_db" where
  "commit_result now r db =
     \<lparr>db_tokens = map (\<lambda>t. if tk_token_id t = rg_token_id r then consumed_row now t else t) (db_tokens db),
      db_registrations = map (\<lambda>q. if rg_registration_id q = rg_registration_id r then committed_row now (rg_reserved_agent_id r) q else q)
        (db_registrations db),
      db_agents = db_agents db @ [activated_row now r]\<rparr>"

lemma commit_cases:
  assumes "registry_ok db" and "commit_agent_registration now p db = (res, db')"
  obtains (refused) err where "res = Inl err" "db' = db"
  | (again) r a where "res = Inr ()" "db' = db" "find_registration (pa_registration_id p) db = Some r" "is_committed r"
      "rg_reserved_agent_id r = pa_agent_id p" "rg_agent_id r = Some a" "find_agent_row a db \<noteq> None"
      "parse_agent_status (ag_status (the (find_agent_row a db))) = Some AgentActive"
  | (fresh) r t where "res = Inr ()" "find_registration (pa_registration_id p) db = Some r" "\<not> is_committed r"
      "rg_reserved_agent_id r = pa_agent_id p" "find_token (rg_token_id r) db = Some t" "\<not> is_used t"
      "rg_reserved_agent_id r \<notin> set (map ag_agent_id (db_agents db))"
      "rg_agent_public_key r \<notin> set (map ag_public_key (db_agents db))" "db' = commit_result now r db"
proof (cases "isl res")
  case True
  have "db' = db"
    using assms(2) True unfolding commit_agent_registration_def
    by (auto split: option.splits if_splits sum.splits)
  with True show thesis using refused by (auto simp: isl_def)
next
  case False
  then obtain r where r: "find_registration (pa_registration_id p) db = Some r" "rg_reserved_agent_id r = pa_agent_id p"
    using assms(2) unfolding commit_agent_registration_def by (auto split: option.splits if_splits)
  have status: "parse_registration_status (rg_status r) = Some RegistrationCommitted \<longleftrightarrow> is_committed r"
    by (simp add: parse_registration_status_def is_committed_def)
  show thesis
  proof (cases "is_committed r")
    case True
    then obtain a where "rg_agent_id r = Some a" "find_agent_row a db \<noteq> None" "res = Inr ()" "db' = db"
      "parse_agent_status (ag_status (the (find_agent_row a db))) = Some AgentActive"
      using assms(2) False r status unfolding commit_agent_registration_def
      by (auto split: option.splits if_splits)
    then show thesis using r True by (intro again)
  next
    case nc: False
    then obtain t where t: "find_token (rg_token_id r) db = Some t" "tk_used_at t = None"
      "parse_token_status (tk_status t) = Some TokenActive" "find_agent_row (rg_reserved_agent_id r) db = None"
      using assms(2) False r status unfolding commit_agent_registration_def
      by (auto split: option.splits if_splits)
    have id: "rg_registration_id r = pa_registration_id p" "r \<in> set (db_registrations db)"
      using r(1) by (auto simp: find_registration_def find_Some_iff)
    have fresh_key: "rg_agent_public_key r \<notin> set (map ag_public_key (db_agents db))" "res = Inr ()" "db' = commit_result now r db"
      using assms(2) False r nc t id status
      by (auto simp: commit_agent_registration_def insert_agent_def commit_result_def activated_row_def
          committed_row_def [abs_def] consumed_row_def [abs_def] update_token_def update_registration_def
          split: option.splits if_splits sum.splits)
    have "\<not> is_used t" using t(3) by (auto simp: parse_token_status_def is_used_def split: if_splits)
    moreover have "rg_reserved_agent_id r \<notin> set (map ag_agent_id (db_agents db))"
      using t(4) by (auto simp: find_agent_row_def find_None_iff)
    ultimately show thesis using r t nc fresh_key by (intro fresh)
  qed
qed


lemma committed_row_simps [simp]:
  "rg_registration_id (committed_row now a r) = rg_registration_id r"
  "rg_token_id (committed_row now a r) = rg_token_id r"
  "rg_agent_public_key (committed_row now a r) = rg_agent_public_key r"
  "rg_reserved_agent_id (committed_row now a r) = rg_reserved_agent_id r"
  "rg_agent_id (committed_row now a r) = Some a"
  "is_committed (committed_row now a r)"
  by (simp_all add: committed_row_def is_committed_def)

lemma consumed_row_simps [simp]:
  "tk_token_id (consumed_row now t) = tk_token_id t" "is_used (consumed_row now t)" "token_row_ok (consumed_row now t)"
  by (simp_all add: consumed_row_def is_used_def token_row_ok_def)

lemma activated_row_simps [simp]:
  "ag_agent_id (activated_row now r) = rg_reserved_agent_id r"
  "ag_public_key (activated_row now r) = rg_agent_public_key r"
  "agent_status_ok (activated_row now r)"
  "ag_status (activated_row now r) = ''active''" "ag_revoked_at (activated_row now r) = None"
  by (simp_all add: activated_row_def agent_status_ok_def)

lemma find_registration_iff:
  "registry_ok db \<Longrightarrow> find_registration i db = Some r \<longleftrightarrow> r \<in> set (db_registrations db) \<and> rg_registration_id r = i"
  by (simp add: find_registration_def registry_ok_def keys_unique_def find_unique)

lemma find_token_iff:
  "registry_ok db \<Longrightarrow> find_token i db = Some t \<longleftrightarrow> t \<in> set (db_tokens db) \<and> tk_token_id t = i"
  by (simp add: find_token_def registry_ok_def keys_unique_def find_unique)

lemma find_agent_row_iff:
  "registry_ok db \<Longrightarrow> find_agent_row i db = Some a \<longleftrightarrow> a \<in> set (db_agents db) \<and> ag_agent_id a = i"
  by (simp add: find_agent_row_def registry_ok_def keys_unique_def find_unique)

lemma registration_by_id:
  assumes "registry_ok db" and "q \<in> set (db_registrations db)" and "r \<in> set (db_registrations db)"
    and "rg_registration_id q = rg_registration_id r"
  shows "q = r"
  using assms by (auto simp: registry_ok_def keys_unique_def distinct_map inj_on_def)

lemma commit_result_ok:
  assumes "registry_ok db" and r: "r \<in> set (db_registrations db)" and nc: "\<not> is_committed r"
    and "rg_reserved_agent_id r \<notin> set (map ag_agent_id (db_agents db))"
    and "rg_agent_public_key r \<notin> set (map ag_public_key (db_agents db))"
  shows "registry_ok (commit_result now r db)"
proof -
  let ?db = "commit_result now r db"
  let ?a = "activated_row now r" and ?r = "committed_row now (rg_reserved_agent_id r) r"
  have ok: "keys_unique db" "list_all token_row_ok (db_tokens db)" "\<And>q. q \<in> set (db_registrations db) \<Longrightarrow> registration_row_ok db q"
    "\<And>a. a \<in> set (db_agents db) \<Longrightarrow> agent_row_ok db a"
    using assms(1) by (auto simp: registry_ok_def list_all_iff)
  have row: "q \<in> set (db_registrations db) \<Longrightarrow> rg_registration_id q = rg_registration_id r \<Longrightarrow> q = r" for q
    using registration_by_id [OF assms(1) _ r] by blast
  have rows: "set (db_registrations ?db) = insert ?r (set (db_registrations db) - {r})"
    using r row by (auto simp: commit_result_def)
  have keep: "\<exists>u \<in> set (db_tokens ?db). tk_token_id u = tk_token_id t \<and> (is_used t \<longrightarrow> is_used u)"
    if "t \<in> set (db_tokens db)" for t
    using that by (intro bexI [of _ "if tk_token_id t = rg_token_id r then consumed_row now t else t"]) (auto simp: commit_result_def)
  have mine: "\<exists>u \<in> set (db_tokens ?db). tk_token_id u = rg_token_id r \<and> is_used u"
  proof -
    obtain t where "t \<in> set (db_tokens db)" "tk_token_id t = rg_token_id r"
      using ok(3) [OF r] by (auto simp: registration_row_ok_def)
    then show ?thesis by (intro bexI [of _ "consumed_row now t"]) (auto simp: commit_result_def)
  qed
  have "keys_unique ?db"
    using ok(1) assms(4,5) by (simp add: keys_unique_def commit_result_def comp_def if_distrib [of rg_token_id]
        if_distrib [of rg_registration_id] if_distrib [of rg_agent_public_key] if_distrib [of tk_token_id] cong: if_cong)
  moreover have "list_all token_row_ok (db_tokens ?db)"
    using ok(2) by (auto simp: commit_result_def list_all_iff)
  moreover have "registration_row_ok ?db q" if "q \<in> set (db_registrations ?db)" for q
  proof (cases "q = ?r")
    case True
    then show ?thesis using mine by (auto simp: registration_row_ok_def commit_result_def)
  next
    case False
    then have "registration_row_ok db q" using that rows ok(3) by auto
    then show ?thesis unfolding registration_row_ok_def
      using keep by (fastforce simp: commit_result_def)
  qed
  moreover have "agent_row_ok ?db a" if "a \<in> set (db_agents ?db)" for a
  proof (cases "a = ?a")
    case True
    then show ?thesis unfolding agent_row_ok_def rows by auto
  next
    case False
    then have "agent_row_ok db a" using that ok(4) by (auto simp: commit_result_def)
    then show ?thesis unfolding agent_row_ok_def rows using nc by blast
  qed
  ultimately show ?thesis by (simp add: registry_ok_def list_all_iff)
qed

lemma commit_ok:
  assumes "registry_ok db" and "commit_agent_registration now p db = (res, db')"
  shows "registry_ok db'"
  using assms(1,2)
proof (cases rule: commit_cases)
  case (fresh r t)
  then show ?thesis using commit_result_ok [OF assms(1)] find_registration_iff [OF assms(1)] by simp
qed (use assms in simp_all)

lemma registration_step_ok:
  assumes "registration_step db db'" and "registry_ok db"
  shows "registry_ok db'"
  using assms(1)
proof (cases rule: registration_step.cases)
  case (issues now random_id psk name valid_for res)
  then show ?thesis using assms(2) issue_ok
    by (auto simp: create_registration_token_def split: option.splits if_splits prod.splits sum.splits)
next
  case (prepares now new_id new_agent t token k res)
  then show ?thesis using assms(2) prepare_ok
    by (auto simp: prepare_registration_def split: sum.splits if_splits)
next
  case (cleans now n)
  then show ?thesis using assms(2)
    by (auto simp: cleanup_expired_agent_registrations_def Let_def is_committed_def intro!: filter_ok)
qed (use assms(2) revoke_token_ok commit_ok agent_changes_ok in \<open>metis snd_conv\<close>)+


text \<open>The counts of the management page partition both tables.\<close>

lemma management_counts_partition:
  assumes "registry_ok db"
  shows "mc_active_agents (management_counts_of now db) + mc_revoked_agents (management_counts_of now db) =
      length (db_agents db)"
    and "mc_active_tokens (management_counts_of now db) + mc_expired_tokens (management_counts_of now db) +
      mc_used_tokens (management_counts_of now db) + mc_revoked_tokens (management_counts_of now db) =
      length (db_tokens db)"
proof -
  have "list_all agent_status_ok as \<Longrightarrow> length (filter (\<lambda>a. ag_status a = ''active'') as) +
      length (filter (\<lambda>a. ag_status a = ''revoked'') as) = length as" for as
    by (induction as) (auto simp: agent_status_ok_def)
  moreover have "list_all agent_status_ok (db_agents db)"
    using assms by (auto simp: registry_ok_def list_all_iff agent_row_ok_def)
  ultimately show "mc_active_agents (management_counts_of now db) + mc_revoked_agents (management_counts_of now db) =
      length (db_agents db)" by (simp add: management_counts_of_def)
  have "list_all token_row_ok ts \<Longrightarrow> length (filter (\<lambda>t. tk_status t = ''active'') ts) +
      length (filter (\<lambda>t. tk_status t = ''used'') ts) + length (filter (\<lambda>t. tk_status t = ''revoked'') ts) = length ts" for ts
    by (induction ts) (auto simp: token_row_ok_def is_used_def)
  moreover have "list_all token_row_ok (db_tokens db)" using assms by (simp add: registry_ok_def)
  moreover have "length (filter (\<lambda>t. tk_status t = ''active'' \<and> (case tk_expires_at t of None \<Rightarrow> True | Some e \<Rightarrow> now < e)) ts) +
      length (filter (\<lambda>t. tk_status t = ''active'' \<and> (case tk_expires_at t of None \<Rightarrow> False | Some e \<Rightarrow> e \<le> now)) ts) =
      length (filter (\<lambda>t. tk_status t = ''active'') ts)" for ts :: "token_row list"
    by (induction ts) (auto split: option.splits)
  ultimately show "mc_active_tokens (management_counts_of now db) + mc_expired_tokens (management_counts_of now db) +
      mc_used_tokens (management_counts_of now db) + mc_revoked_tokens (management_counts_of now db) =
      length (db_tokens db)" by (simp add: management_counts_of_def)
qed

text \<open>No step takes an Agent away, and none lifts a revocation.\<close>

definition is_revoked :: "agent_row \<Rightarrow> bool" where
  "is_revoked a \<longleftrightarrow> ag_status a = ''revoked'' \<and> ag_revoked_at a \<noteq> None"

definition keeps_agents :: "registry_db \<Rightarrow> registry_db \<Rightarrow> bool" where
  "keeps_agents db db' \<longleftrightarrow> (\<forall>a \<in> set (db_agents db). \<exists>b \<in> set (db_agents db').
     ag_agent_id b = ag_agent_id a \<and> ag_public_key b = ag_public_key a \<and> (is_revoked a \<longrightarrow> is_revoked b))"

lemma keeps_agents_subset [intro]: "set (db_agents db) \<subseteq> set (db_agents db') \<Longrightarrow> keeps_agents db db'"
  unfolding keeps_agents_def by auto

lemma keeps_agents_trans: "keeps_agents db db1 \<Longrightarrow> keeps_agents db1 db2 \<Longrightarrow> keeps_agents db db2"
  unfolding keeps_agents_def by metis

lemma keeps_agents_update:
  assumes "\<And>a. ag_agent_id (g a) = ag_agent_id a" "\<And>a. ag_public_key (g a) = ag_public_key a"
    and "\<And>a. is_revoked a \<Longrightarrow> is_revoked (g a)"
  shows "keeps_agents db (update_agent i g db)"
  unfolding keeps_agents_def
proof
  fix a assume "a \<in> set (db_agents db)"
  then show "\<exists>b \<in> set (db_agents (update_agent i g db)).
      ag_agent_id b = ag_agent_id a \<and> ag_public_key b = ag_public_key a \<and> (is_revoked a \<longrightarrow> is_revoked b)"
    using assms by (intro bexI [of _ "if ag_agent_id a = i then g a else a"]) (auto simp: update_agent_def)
qed

lemma inserts_keep_agents [simp]:
  "insert_token t db = Inr db' \<Longrightarrow> db_agents db' = db_agents db"
  "insert_registration r db = Inr db' \<Longrightarrow> db_agents db' = db_agents db"
  by (auto simp: insert_token_def insert_registration_def split: if_splits)

lemma clear_way_keeps_agents [simp]: "clear_way now p db = (found, db') \<Longrightarrow> db_agents db' = db_agents db"
  by (erule clear_way_cases) (simp_all add: delete_registration_def)

lemma prepare_keeps_agents:
  "prepare_agent_registration now new_id new_agent t psk k db = (res, db') \<Longrightarrow> db_agents db' = db_agents db"
  by (erule prepare_cases) simp_all

lemma registration_step_keeps_agents:
  assumes "registration_step db db'" and "registry_ok db"
  shows "keeps_agents db db'"
  using assms(1)
proof (cases rule: registration_step.cases)
  case (issues now random_id psk name valid_for res)
  then have "db_agents db' = db_agents db"
    by (auto simp: create_registration_token_def insert_registration_token_def split: option.splits if_splits prod.splits sum.splits)
  then show ?thesis by auto
next
  case (revokes_token now t res)
  then have "db_agents db' = db_agents db"
    by (auto simp: revoke_registration_token_def update_token_def split: option.splits if_splits)
  then show ?thesis by auto
next
  case (prepares now new_id new_agent t token k res)
  then have "db_agents db' = db_agents db"
    by (auto simp: prepare_registration_def dest: prepare_keeps_agents split: sum.splits if_splits)
  then show ?thesis by auto
next
  case (commits now p res)
  with assms(2) show ?thesis by (cases rule: commit_cases) (auto simp: commit_result_def)
next
  case (cleans now n)
  then show ?thesis by (auto simp: cleanup_expired_agent_registrations_def Let_def)
next
  case (renames now a name found)
  then show ?thesis
    by (auto simp: rename_agent_def is_revoked_def intro: keeps_agents_update split: option.splits)
next
  case (revokes_agent now a found)
  then show ?thesis
    by (auto simp: revoke_agent_def is_revoked_def intro: keeps_agents_update split: option.splits if_splits)
qed

lemma revoked_key:
  assumes "registry_ok db" "a \<in> set (db_agents db)" "is_revoked a"
  shows "find_agent_authorization (ag_public_key a) db = Revoked" "\<not> is_agent_active (ag_agent_id a) db"
proof -
  have "find (\<lambda>b. ag_public_key b = ag_public_key a) (db_agents db) = Some a"
    using assms by (simp add: registry_ok_def keys_unique_def find_unique)
  then show "find_agent_authorization (ag_public_key a) db = Revoked"
    using assms(3) by (simp add: find_agent_authorization_def is_revoked_def parse_agent_status_def)
  have "find_agent_row (ag_agent_id a) db = Some a" using assms by (simp add: find_agent_row_iff)
  then show "\<not> is_agent_active (ag_agent_id a) db" using assms(3) by (simp add: is_agent_active_def is_revoked_def)
qed

lemma registration_steps_ok:
  assumes "registration_step\<^sup>*\<^sup>* db db'" "registry_ok db"
  shows "registry_ok db' \<and> keeps_agents db db'"
  using assms
proof (induction rule: rtranclp_induct)
  case (step db1 db2)
  then show ?case using registration_step_ok [of db1 db2] registration_step_keeps_agents [of db1 db2] keeps_agents_trans by blast
qed auto


section \<open>Properties\<close>

definition empty_registry :: registry_db where
  "empty_registry = \<lparr>db_tokens = [], db_registrations = [], db_agents = []\<rparr>"

lemma registry_reachable_ok:
  assumes "registration_step\<^sup>*\<^sup>* empty_registry db"
  shows "registry_ok db"
  using assms
proof (induction rule: rtranclp_induct)
  case base
  show ?case by (simp add: registry_ok_def keys_unique_def empty_registry_def)
qed (use registration_step_ok in blast)

lemma committed_registration:
  assumes "registry_ok db" "r \<in> set (db_registrations db)" "is_committed r"
  shows "rg_agent_id r = Some (rg_reserved_agent_id r)"
    and "\<exists>a\<in>set (db_agents db). ag_agent_id a = rg_reserved_agent_id r \<and> ag_public_key a = rg_agent_public_key r"
    and "\<exists>t\<in>set (db_tokens db). tk_token_id t = rg_token_id r \<and> is_used t"
proof -
  have "registration_row_ok db r" using assms by (simp add: registry_ok_def list_all_iff)
  then show "rg_agent_id r = Some (rg_reserved_agent_id r)"
    and "\<exists>a\<in>set (db_agents db). ag_agent_id a = rg_reserved_agent_id r \<and> ag_public_key a = rg_agent_public_key r"
    and "\<exists>t\<in>set (db_tokens db). tk_token_id t = rg_token_id r \<and> is_used t"
    using assms(3) by (auto simp: registration_row_ok_def)
qed

lemma agents_le_used:
  assumes "registry_ok db"
  shows "length (db_agents db) \<le> length (filter is_used (db_tokens db))"
proof -
  have "\<exists>r. r \<in> set (db_registrations db) \<and> is_committed r \<and> rg_reserved_agent_id r = ag_agent_id a"
    if "a \<in> set (db_agents db)" for a
    using assms that by (auto simp: registry_ok_def list_all_iff agent_row_ok_def)
  then obtain reg where reg: "\<And>a. a \<in> set (db_agents db) \<Longrightarrow>
      reg a \<in> set (db_registrations db) \<and> is_committed (reg a) \<and> rg_reserved_agent_id (reg a) = ag_agent_id a"
    by metis
  have agents: "distinct (map ag_agent_id (db_agents db))" and tokens: "distinct (map rg_token_id (db_registrations db))"
    using assms by (simp_all add: registry_ok_def keys_unique_def)
  have "inj_on (\<lambda>a. rg_token_id (reg a)) (set (db_agents db))"
  proof (rule inj_onI)
    fix a b assume ab: "a \<in> set (db_agents db)" "b \<in> set (db_agents db)" "rg_token_id (reg a) = rg_token_id (reg b)"
    then have "reg a = reg b" using reg tokens by (auto simp: distinct_map inj_on_def)
    then have "ag_agent_id a = ag_agent_id b" using reg ab by metis
    then show "a = b" using ab agents by (auto simp: distinct_map inj_on_def)
  qed
  moreover have "(\<lambda>a. rg_token_id (reg a)) ` set (db_agents db) \<subseteq> tk_token_id ` set (filter is_used (db_tokens db))"
  proof clarify
    fix a assume "a \<in> set (db_agents db)"
    then have "registration_row_ok db (reg a)" "is_committed (reg a)" using reg assms by (auto simp: registry_ok_def list_all_iff)
    then show "rg_token_id (reg a) \<in> tk_token_id ` set (filter is_used (db_tokens db))"
      by (force simp: registration_row_ok_def image_iff)
  qed
  ultimately have "card (set (db_agents db)) \<le> card (tk_token_id ` set (filter is_used (db_tokens db)))"
    by (metis card_image card_mono finite_imageI List.finite_set)
  also have "\<dots> \<le> length (filter is_used (db_tokens db))"
    by (metis card_image_le card_length finite_set le_trans)
  finally show ?thesis using agents by (simp add: distinct_map distinct_card)
qed




text \<open>
  C23: Revocation is final: once an Agent has been revoked, its key is answered with the
  revocation and the Agent is not active in every database reached later, whatever tokens are
  issued, registrations prepared, repeated and committed, and Agents renamed.
\<close>

theorem revocation_is_final:
  assumes "registration_step\<^sup>*\<^sup>* empty_registry db" and "find_agent_row agent_id db = Some a"
    and "revoke_agent now agent_id db = (rec, db1)" and "registration_step\<^sup>*\<^sup>* db1 db'"
  shows "authorize_agent (ag_public_key a) db' = Inl AgentIsRevoked \<and> \<not> is_agent_active agent_id db'"
proof -
  have ok: "registry_ok db" using assms(1) by (rule registry_reachable_ok)
  have a: "a \<in> set (db_agents db)" "ag_agent_id a = agent_id" using assms(2) ok by (simp_all add: find_agent_row_iff)
  then obtain b where b: "b \<in> set (db_agents db1)" "is_revoked b" "ag_agent_id b = agent_id" "ag_public_key b = ag_public_key a"
    using assms(2,3) by (fastforce simp: revoke_agent_def update_agent_def is_revoked_def split: if_splits)
  have "registry_ok db1" using agent_changes_ok(2) [OF ok] assms(3) by (metis snd_conv)
  then have "registry_ok db' \<and> keeps_agents db1 db'" using assms(4) registration_steps_ok by blast
  with b obtain c where "c \<in> set (db_agents db')" "is_revoked c" "ag_agent_id c = agent_id" "ag_public_key c = ag_public_key a"
    unfolding keeps_agents_def by metis
  then show ?thesis using revoked_key [of db' c] \<open>registry_ok db' \<and> _\<close> by (simp add: authorize_agent_def)
qed

text \<open>The witnesses follow one registration: a token is issued, an Agent prepares and commits.\<close>

definition sample_psk :: bytes where
  "sample_psk = replicate 32 7"

definition sample_token_id :: string where
  "sample_token_id = ''01010101010101010101010101010101''"

definition sample_issued :: registry_db where
  "sample_issued = \<lparr>db_tokens = [\<lparr>tk_token_id = sample_token_id, tk_psk = sample_psk,
     tk_display_name = None, tk_status = ''active'', tk_created_at = 0, tk_updated_at = 0,
     tk_expires_at = None, tk_used_at = None\<rparr>], db_registrations = [], db_agents = []\<rparr>"

definition sample_registration :: registration_row where
  "sample_registration = \<lparr>rg_registration_id = replicate 16 2, rg_token_id = sample_token_id,
     rg_agent_id = None, rg_reserved_agent_id = ''agent-1'', rg_agent_name = ''agent-1'',
     rg_agent_public_key = replicate 32 9, rg_status = ''prepared'', rg_created_at = 10,
     rg_updated_at = 10, rg_expires_at = Some 600000010, rg_committed_at = None\<rparr>"

definition sample_prepared :: registry_db where
  "sample_prepared = sample_issued\<lparr>db_registrations := [sample_registration]\<rparr>"

definition sample_pending :: pending_agent_registration where
  "sample_pending = \<lparr>pa_registration_id = replicate 16 2, pa_agent_id = ''agent-1''\<rparr>"

definition sample_committed :: registry_db where
  "sample_committed = snd (commit_agent_registration 20 sample_pending sample_prepared)"

lemma sample_id: "encode_hex (replicate 16 1) = sample_token_id"
  by code_simp

lemma sample_issue: "snd (insert_registration_token 0 sample_token_id sample_psk None None empty_registry) = sample_issued"
  by code_simp

lemma sample_prepare_step:
  "prepare_agent_registration 10 (replicate 16 2) ''agent-1'' sample_token_id sample_psk (replicate 32 9) sample_issued =
   (Inr sample_pending, sample_prepared)"
  by code_simp

lemma sample_commit: "commit_agent_registration 20 sample_pending sample_prepared = (Inr (), sample_committed)"
  by code_simp

lemma sample_reachable: "registration_step\<^sup>*\<^sup>* empty_registry sample_prepared"
proof -
  have "create_registration_token 0 (replicate 16 1) sample_psk None None empty_registry =
     (fst (create_registration_token 0 (replicate 16 1) sample_psk None None empty_registry), sample_issued)"
    using sample_issue unfolding create_registration_token_def sample_id
    by (cases "insert_registration_token 0 sample_token_id sample_psk None None empty_registry")
       (auto split: sum.splits)
  then have "registration_step empty_registry sample_issued" by (rule issues)
  moreover have "parse_registration_credential (credential_of sample_token_id sample_psk) = Inr (sample_token_id, sample_psk)"
    unfolding parse_credential_of using issued_id_valid [of "replicate 16 1"]
    by (simp add: sample_id) (simp add: sample_token_id_def sample_psk_def registration_psk_bytes_def)
  then have "prepare_registration 10 (replicate 16 2) ''agent-1'' sample_token_id
      (credential_of sample_token_id sample_psk) (replicate 32 9) sample_issued = (Inr sample_pending, sample_prepared)"
    using sample_prepare_step by (simp add: prepare_registration_def)
  then have "registration_step sample_issued sample_prepared" by (rule prepares)
  ultimately show ?thesis by simp
qed

lemma sample_committed_reachable: "registration_step\<^sup>*\<^sup>* empty_registry sample_committed"
  using sample_reachable commits [OF sample_commit] by simp




theorem revocation_is_final_witness:
  "find_agent_row ''agent-1'' sample_committed \<noteq> None \<and>
   authorize_agent (replicate 32 9) (snd (revoke_agent 30 ''agent-1'' sample_committed)) = Inl AgentIsRevoked"
proof -
  have "map_option ag_public_key (find_agent_row ''agent-1'' sample_committed) = Some (replicate 32 9)" by code_simp
  then obtain a where a: "find_agent_row ''agent-1'' sample_committed = Some a" "ag_public_key a = replicate 32 9" by auto
  show ?thesis
    using revocation_is_final [OF sample_committed_reachable a(1) prod.collapse [symmetric] rtranclp.rtrancl_refl, of 30] a by simp
qed

end
