(* ===== verification/Server_Session.thy ===== *)
theory Server_Session
  imports Server_Registration Secure_Message
begin

text \<open>
  A session on the Server from its handshake to its business loop
  (\<open>service/agent/transport/session.rs\<close>, \<open>session/registration.rs\<close>,
  \<open>session/authorization.rs\<close>, the acceptor of \<open>tonic_transport/server.rs\<close>) and the directory of
  live sessions (\<open>service/agent/session_registry.rs\<close>). Workers of several sessions and the
  management command that revokes an Agent (\<open>management/service.rs\<close>) interleave; a step is
  what happens between two points where a worker waits. The cipher is not modelled: a handshake
  is the choice of the keys that take part in it.
\<close>

section \<open>Choosing the keys of a handshake\<close>

definition accept_ik :: "(bytes \<Rightarrow> bytes) \<Rightarrow> server_key_ring \<Rightarrow> bytes \<Rightarrow> transport_error + noise_identity" where
  "accept_ik blake ring responder_key_id =
     (case key_id_from_bytes responder_key_id of
        Inl err \<Rightarrow> Inl (TransportNoise err)
      | Inr key_id \<Rightarrow>
          (case find_active blake key_id ring of
             None \<Rightarrow> Inl TransportUnknownKeyId | Some identity \<Rightarrow> Inr identity))"

text \<open>The key of the Server and the PSK of a first registration.\<close>

definition accept_xxpsk3 ::
  "int \<Rightarrow> server_key_ring \<Rightarrow> string \<Rightarrow> registry_db \<Rightarrow> transport_error + noise_identity \<times> bytes" where
  "accept_xxpsk3 now ring token_id db =
     (case validate_registration_token_id token_id of
        Inl err \<Rightarrow> Inl err
      | Inr _ \<Rightarrow>
          (case resolve_registration_psk now token_id db of
             Inl text \<Rightarrow> Inl (TransportProtocol text)
           | Inr psk \<Rightarrow>
               (case active_keys ring of
                  [] \<Rightarrow> Inl (TransportProtocol ''Server keyring is empty'')
                | identity # _ \<Rightarrow> Inr (identity, psk))))"

section \<open>Registration\<close>

text \<open>What a receive returns: an error, the end of the stream, or a message; with a time limit
  also nothing.\<close>

type_synonym 'p received = "transport_error + 'p secure_message option"

definition receive_registration_request :: "'p received \<Rightarrow> transport_error + string" where
  "receive_registration_request received =
     (case received of
        Inl err \<Rightarrow> Inl err
      | Inr None \<Rightarrow> Inl TransportClosed
      | Inr (Some (Some (BodyRegistration (Some (MsgRequest token))))) \<Rightarrow> Inr token
      | Inr (Some _) \<Rightarrow> Inl (TransportProtocol ''XXpsk3 session requires RegistrationRequest''))"

definition receive_registration_commit :: "bytes \<Rightarrow> 'p received option \<Rightarrow> transport_error + unit" where
  "receive_registration_commit expected received =
     (case received of
        None \<Rightarrow> Inl (TransportTimeout ''waiting for registration commit'')
      | Some (Inl err) \<Rightarrow> Inl err
      | Some (Inr None) \<Rightarrow> Inl TransportClosed
      | Some (Inr (Some (Some (BodyRegistration (Some (MsgCommit registration_id)))))) \<Rightarrow>
          if registration_id = expected then Inr ()
          else Inl (TransportProtocol ''expected matching RegistrationCommit'')
      | Some (Inr (Some _)) \<Rightarrow> Inl (TransportProtocol ''expected matching RegistrationCommit''))"

type_synonym secure_error = "secure_error_code \<times> string"

definition prepare_error_text :: "prepare_error \<Rightarrow> string" where
  "prepare_error_text err =
     (case err of
        PrepareInvalidToken \<Rightarrow> ''registration token is invalid''
      | PrepareTokenAlreadyUsed \<Rightarrow> ''registration token is already used''
      | PrepareAgentAlreadyRegistered \<Rightarrow> ''Agent identity is already registered''
      | _ \<Rightarrow> ''registration service is unavailable'')"

definition receive_and_prepare_registration ::
  "int \<Rightarrow> bytes \<Rightarrow> string \<Rightarrow> string \<Rightarrow> bytes \<Rightarrow> 'p received \<Rightarrow> registry_db
   \<Rightarrow> (secure_error + pending_agent_registration) \<times> registry_db" where
  "receive_and_prepare_registration now new_id new_agent token_id peer_key received db =
     (case receive_registration_request received of
        Inl _ \<Rightarrow> (Inl (SecureInvalidMessage, ''registration request is invalid''), db)
      | Inr token \<Rightarrow>
          (case prepare_registration now new_id new_agent token_id token peer_key db of
             (Inl err, db) \<Rightarrow> (Inl (map_registration_prepare_error err, prepare_error_text err), db)
           | (Inr pending, db) \<Rightarrow> (Inr pending, db)))"

definition receive_and_commit_registration ::
  "int \<Rightarrow> pending_agent_registration \<Rightarrow> 'p received option \<Rightarrow> registry_db
   \<Rightarrow> (secure_error + unit) \<times> registry_db" where
  "receive_and_commit_registration now pending received db =
     (case receive_registration_commit (pa_registration_id pending) received of
        Inl _ \<Rightarrow> (Inl (SecureInvalidMessage, ''registration commit was not completed''), db)
      | Inr _ \<Rightarrow>
          (case commit_agent_registration now pending db of
             (Inl _, db) \<Rightarrow> (Inl (SecureInternal, ''registration service is unavailable''), db)
           | (Inr _, db) \<Rightarrow> (Inr (), db)))"

text \<open>Where \<open>handle_registration_session\<close> waits, and what it sends.\<close>

datatype registration_phase =
    AwaitRequest
  | AwaitCommit pending_agent_registration
  | RegistrationEstablished string
  | RegistrationClosed

definition rejection :: "secure_error \<Rightarrow> 'p secure_message" where
  "rejection err = Some (BodyError (secure_error_number (fst err)) (snd err))"

definition registration_enter :: "bool \<Rightarrow> registration_phase \<times> 'p secure_message option" where
  "registration_enter permit =
     (if permit then (AwaitRequest, None)
      else (RegistrationClosed,
            Some (rejection (SecureResourceExhausted, ''registration capacity is temporarily exhausted''))))"

fun registration_receive ::
  "int \<Rightarrow> bytes \<Rightarrow> string \<Rightarrow> string \<Rightarrow> bytes \<Rightarrow> registration_phase \<Rightarrow> 'p received option \<Rightarrow> registry_db
   \<Rightarrow> registration_phase \<times> 'p secure_message option \<times> registry_db" where
  "registration_receive now new_id new_agent token_id peer_key AwaitRequest (Some received) db =
     (case receive_and_prepare_registration now new_id new_agent token_id peer_key received db of
        (Inl err, db) \<Rightarrow> (RegistrationClosed, Some (rejection err), db)
      | (Inr pending, db) \<Rightarrow>
          (AwaitCommit pending,
           Some (Some (BodyRegistration (Some (MsgPrepared (pa_registration_id pending) (pa_agent_id pending))))),
           db))"
| "registration_receive now new_id new_agent token_id peer_key (AwaitCommit pending) received db =
     (case receive_and_commit_registration now pending received db of
        (Inl err, db) \<Rightarrow> (RegistrationClosed, Some (rejection err), db)
      | (Inr _, db) \<Rightarrow>
          (RegistrationEstablished (pa_agent_id pending),
           Some (Some (BodyRegistration (Some (MsgCommitted (pa_registration_id pending))))), db))"
| "registration_receive now new_id new_agent token_id peer_key phase received db = (phase, None, db)"

section \<open>Authorisation\<close>

definition handle_authorization_session :: "bytes \<Rightarrow> registry_db \<Rightarrow> 'p secure_message + string" where
  "handle_authorization_session peer_key db =
     (case authorize_agent peer_key db of
        Inr agent_id \<Rightarrow> Inr agent_id
      | Inl _ \<Rightarrow> Inl (rejection (SecureAgentNotAuthorized, ''agent is not authorized'')))"

section \<open>The directory of sessions\<close>

datatype session_stage = StageHandshaking | StageRegistering | StageAuthenticated

definition session_stage_str :: "session_stage \<Rightarrow> string" where
  "session_stage_str s =
     (case s of StageHandshaking \<Rightarrow> ''handshaking'' | StageRegistering \<Rightarrow> ''registering''
      | StageAuthenticated \<Rightarrow> ''authenticated'')"

record session_snapshot =
  sn_session_id :: u64
  sn_agent_id :: "string option"
  sn_authentication_mode :: "string option"
  sn_stage :: session_stage
  sn_connected_at :: int
  sn_last_activity_at :: int

record session_entry =
  se_snapshot :: session_snapshot
  se_cancelled :: bool
  se_catalog_change :: u64
  se_runtime_change :: u64

record session_registry =
  sg_entries :: "(u64 \<times> session_entry) list"
  sg_reconcile_instances :: "(string \<times> bytes) list"

definition registry_register :: "int \<Rightarrow> u64 \<Rightarrow> session_registry \<Rightarrow> session_registry" where
  "registry_register now sid g =
     g\<lparr>sg_entries := AList.update sid
         \<lparr>se_snapshot = \<lparr>sn_session_id = sid, sn_agent_id = None, sn_authentication_mode = None,
            sn_stage = StageHandshaking, sn_connected_at = now, sn_last_activity_at = now\<rparr>,
          se_cancelled = False, se_catalog_change = 0, se_runtime_change = 0\<rparr> (sg_entries g)\<rparr>"

definition registry_update ::
  "int \<Rightarrow> u64 \<Rightarrow> session_stage \<Rightarrow> string option \<Rightarrow> string option \<Rightarrow> session_registry \<Rightarrow> session_registry" where
  "registry_update now sid stage agent_id mode g =
     g\<lparr>sg_entries := modify sid (\<lambda>e. e\<lparr>se_snapshot := (se_snapshot e)
         \<lparr>sn_stage := stage,
          sn_agent_id := (case agent_id of Some a \<Rightarrow> Some a | None \<Rightarrow> sn_agent_id (se_snapshot e)),
          sn_authentication_mode :=
            (case mode of Some m \<Rightarrow> Some m | None \<Rightarrow> sn_authentication_mode (se_snapshot e)),
          sn_last_activity_at := now\<rparr>\<rparr>) (sg_entries g)\<rparr>"

definition mark_registering :: "int \<Rightarrow> u64 \<Rightarrow> session_registry \<Rightarrow> session_registry" where
  "mark_registering now sid = registry_update now sid StageRegistering None (Some ''xxpsk3'')"

definition mark_authenticated :: "int \<Rightarrow> u64 \<Rightarrow> string \<Rightarrow> string \<Rightarrow> session_registry \<Rightarrow> session_registry" where
  "mark_authenticated now sid agent_id mode = registry_update now sid StageAuthenticated (Some agent_id) (Some mode)"

definition registry_touch :: "int \<Rightarrow> u64 \<Rightarrow> session_registry \<Rightarrow> session_registry" where
  "registry_touch now sid g =
     g\<lparr>sg_entries := modify sid (\<lambda>e. e\<lparr>se_snapshot := (se_snapshot e)\<lparr>sn_last_activity_at := now\<rparr>\<rparr>) (sg_entries g)\<rparr>"

definition registry_list :: "session_registry \<Rightarrow> session_snapshot list" where
  "registry_list g = map (se_snapshot \<circ> snd) (sort_key fst (sg_entries g))"

definition registry_get :: "u64 \<Rightarrow> session_registry \<Rightarrow> session_snapshot option" where
  "registry_get sid g = map_option se_snapshot (map_of (sg_entries g) sid)"

definition registry_disconnect :: "u64 \<Rightarrow> session_registry \<Rightarrow> bool \<times> session_registry" where
  "registry_disconnect sid g =
     (case map_of (sg_entries g) sid of
        None \<Rightarrow> (False, g)
      | Some _ \<Rightarrow> (True, g\<lparr>sg_entries := modify sid (\<lambda>e. e\<lparr>se_cancelled := True\<rparr>) (sg_entries g)\<rparr>))"

definition of_agent :: "string \<Rightarrow> session_entry \<Rightarrow> bool" where
  "of_agent agent_id e \<longleftrightarrow> sn_agent_id (se_snapshot e) = Some agent_id"

definition map_agent ::
  "string \<Rightarrow> (session_entry \<Rightarrow> session_entry) \<Rightarrow> session_registry \<Rightarrow> nat \<times> session_registry" where
  "map_agent agent_id f g =
     (length (filter (of_agent agent_id \<circ> snd) (sg_entries g)),
      g\<lparr>sg_entries := map (\<lambda>(sid, e). (sid, if of_agent agent_id e then f e else e)) (sg_entries g)\<rparr>)"

definition disconnect_agent :: "string \<Rightarrow> session_registry \<Rightarrow> nat \<times> session_registry" where
  "disconnect_agent agent_id = map_agent agent_id (\<lambda>e. e\<lparr>se_cancelled := True\<rparr>)"

definition notify_catalog_changed :: "string \<Rightarrow> session_registry \<Rightarrow> nat \<times> session_registry" where
  "notify_catalog_changed agent_id = map_agent agent_id (\<lambda>e. e\<lparr>se_catalog_change := se_catalog_change e + 1\<rparr>)"

definition notify_runtime_changed :: "string \<Rightarrow> session_registry \<Rightarrow> nat \<times> session_registry" where
  "notify_runtime_changed agent_id = map_agent agent_id (\<lambda>e. e\<lparr>se_runtime_change := se_runtime_change e + 1\<rparr>)"

definition observe_reconcile_instance :: "string \<Rightarrow> bytes \<Rightarrow> session_registry \<Rightarrow> bool \<times> session_registry" where
  "observe_reconcile_instance agent_id instance_id g =
     (map_of (sg_reconcile_instances g) agent_id \<noteq> Some instance_id,
      g\<lparr>sg_reconcile_instances := AList.update agent_id instance_id (sg_reconcile_instances g)\<rparr>)"

definition registry_remove :: "u64 \<Rightarrow> session_registry \<Rightarrow> session_registry" where
  "registry_remove sid g = g\<lparr>sg_entries := AList.delete sid (sg_entries g)\<rparr>"

definition registry_len :: "session_registry \<Rightarrow> nat" where
  "registry_len g = length (sg_entries g)"

section \<open>Workers and revocation\<close>

text \<open>Where the worker of a session is: it has not established who the Agent is; it knows the
  Agent and has not entered it in the directory; it has, and has not looked again whether the
  Agent is still active; it runs the business loop.\<close>

datatype worker_phase = Establishing | Authorised string | Marked string | Business string

record agent_service =
  sv_db :: registry_db
  sv_sessions :: session_registry
  sv_workers :: "(u64 \<times> worker_phase) list"
  sv_revoking :: "string list"
  sv_revoked :: "string list"

text \<open>The last part of \<open>handle_established_session\<close>: after the entry in the directory the
  Agent is looked up again; \<open>None\<close> is a worker that returns.\<close>

definition recheck_agent :: "string \<Rightarrow> registry_db \<Rightarrow> worker_phase option" where
  "recheck_agent agent_id db = (if is_agent_active agent_id db then Some (Business agent_id) else None)"

inductive service_step :: "agent_service \<Rightarrow> agent_service \<Rightarrow> bool" where
  opens: "map_of (sv_workers v) sid = None \<Longrightarrow> map_of (sg_entries (sv_sessions v)) sid = None \<Longrightarrow>
    service_step v (v\<lparr>sv_sessions := registry_register now sid (sv_sessions v),
      sv_workers := AList.update sid Establishing (sv_workers v)\<rparr>)"
| registers: "map_of (sv_workers v) sid = Some Establishing \<Longrightarrow>
    service_step v (v\<lparr>sv_sessions := mark_registering now sid (sv_sessions v)\<rparr>)"
| requests: "map_of (sv_workers v) sid = Some Establishing \<Longrightarrow>
    registration_receive now new_id new_agent token_id peer_key AwaitRequest (Some (received :: unit received)) (sv_db v) = (phase, out, db') \<Longrightarrow>
    service_step v (v\<lparr>sv_db := db'\<rparr>)"
| commits_registration: "map_of (sv_workers v) sid = Some Establishing \<Longrightarrow>
    registration_receive now new_id new_agent token_id peer_key (AwaitCommit pending) (received :: unit received option) (sv_db v) =
      (RegistrationEstablished agent_id, out, db') \<Longrightarrow>
    service_step v (v\<lparr>sv_db := db', sv_workers := AList.update sid (Authorised agent_id) (sv_workers v)\<rparr>)"
| authorises: "map_of (sv_workers v) sid = Some Establishing \<Longrightarrow>
    handle_authorization_session peer_key (sv_db v) = (Inr agent_id :: unit secure_message + string) \<Longrightarrow>
    service_step v (v\<lparr>sv_workers := AList.update sid (Authorised agent_id) (sv_workers v)\<rparr>)"
| marks: "map_of (sv_workers v) sid = Some (Authorised agent_id) \<Longrightarrow>
    service_step v (v\<lparr>sv_sessions := mark_authenticated now sid agent_id mode (sv_sessions v),
      sv_workers := AList.update sid (Marked agent_id) (sv_workers v)\<rparr>)"
| rechecks: "map_of (sv_workers v) sid = Some (Marked agent_id) \<Longrightarrow>
    recheck_agent agent_id (sv_db v) = Some phase \<Longrightarrow>
    service_step v (v\<lparr>sv_workers := AList.update sid phase (sv_workers v)\<rparr>)"
| works: "map_of (sv_workers v) sid = Some (Business agent_id) \<Longrightarrow>
    service_step v (v\<lparr>sv_sessions := registry_touch now sid (sv_sessions v)\<rparr>)"
| ends: "service_step v (v\<lparr>sv_sessions := registry_remove sid (sv_sessions v),
      sv_workers := AList.delete sid (sv_workers v)\<rparr>)"
| disconnects: "service_step v (v\<lparr>sv_sessions := snd (registry_disconnect sid (sv_sessions v))\<rparr>)"
| notifies: "service_step v (v\<lparr>sv_sessions := snd (notify_catalog_changed agent_id (sv_sessions v))\<rparr>)"
| notifies_runtime: "service_step v (v\<lparr>sv_sessions := snd (notify_runtime_changed agent_id (sv_sessions v))\<rparr>)"
| changes: "registration_step (sv_db v) db' \<Longrightarrow> service_step v (v\<lparr>sv_db := db'\<rparr>)"
| revokes: "revoke_agent now agent_id (sv_db v) = (Some record, db') \<Longrightarrow>
    service_step v (v\<lparr>sv_db := db', sv_revoking := agent_id # sv_revoking v\<rparr>)"
| disconnects_agent: "agent_id \<in> set (sv_revoking v) \<Longrightarrow>
    service_step v (v\<lparr>sv_sessions := snd (disconnect_agent agent_id (sv_sessions v)),
      sv_revoked := agent_id # sv_revoked v\<rparr>)"


section \<open>A revoked Agent keeps no session\<close>

definition service_start :: "registry_db \<Rightarrow> agent_service" where
  "service_start db = \<lparr>sv_db = db, sv_sessions = \<lparr>sg_entries = [], sg_reconcile_instances = []\<rparr>,
     sv_workers = [], sv_revoking = [], sv_revoked = []\<rparr>"

definition session_ok :: "string list \<Rightarrow> worker_phase \<Rightarrow> session_entry \<Rightarrow> bool" where
  "session_ok revoked w e \<longleftrightarrow>
     (case w of
        Marked a \<Rightarrow> of_agent a e
      | Business a \<Rightarrow> of_agent a e \<and> (a \<in> set revoked \<longrightarrow> se_cancelled e)
      | _ \<Rightarrow> True)"

definition sessions_ok :: "string list \<Rightarrow> (u64 \<times> worker_phase) list \<Rightarrow> session_registry \<Rightarrow> bool" where
  "sessions_ok revoked workers g \<longleftrightarrow>
     (\<forall>sid w. map_of workers sid = Some w \<longrightarrow>
        (\<exists>e. map_of (sg_entries g) sid = Some e \<and> session_ok revoked w e))"

definition revoked_in :: "registry_db \<Rightarrow> string \<Rightarrow> bool" where
  "revoked_in db agent_id \<longleftrightarrow> (\<exists>a \<in> set (db_agents db). ag_agent_id a = agent_id \<and> is_revoked a)"

definition service_ok :: "agent_service \<Rightarrow> bool" where
  "service_ok v \<longleftrightarrow> registry_ok (sv_db v) \<and>
     (\<forall>a \<in> set (sv_revoking v). revoked_in (sv_db v) a) \<and> set (sv_revoked v) \<subseteq> set (sv_revoking v) \<and>
     sessions_ok (sv_revoked v) (sv_workers v) (sv_sessions v)"

lemma revoked_in_keeps: "keeps_agents db db' \<Longrightarrow> revoked_in db a \<Longrightarrow> revoked_in db' a"
  unfolding keeps_agents_def revoked_in_def by metis

lemma revoked_in_inactive: "registry_ok db \<Longrightarrow> revoked_in db a \<Longrightarrow> \<not> is_agent_active a db"
  unfolding revoked_in_def using revoked_key(2) by blast

lemma registration_receive_step:
  assumes "registration_receive now new_id new_agent token_id peer_key phase received db = (phase', out, db')"
  shows "db' = db \<or> registration_step db db'"
  using assms
  by (cases "(now, new_id, new_agent, token_id, peer_key, phase, received, db)" rule: registration_receive.cases)
    (auto simp: receive_and_prepare_registration_def receive_and_commit_registration_def
      split: sum.splits prod.splits intro: prepares commits)

lemma sessions_ok_modify:
  assumes "sessions_ok revoked workers g"
    and "\<And>w e. map_of workers sid = Some w \<Longrightarrow> session_ok revoked w e \<Longrightarrow> session_ok revoked' w' (f e)"
    and "\<And>sid' w e. sid' \<noteq> sid \<Longrightarrow> map_of workers sid' = Some w \<Longrightarrow> session_ok revoked w e \<Longrightarrow> session_ok revoked' w e"
    and "map_of workers sid \<noteq> None"
  shows "sessions_ok revoked' (AList.update sid w' workers) (g\<lparr>sg_entries := modify sid f (sg_entries g)\<rparr>)"
  using assms unfolding sessions_ok_def by (auto; fastforce)

lemma sessions_ok_worker:
  assumes "sessions_ok revoked workers g" and "map_of workers sid = Some w"
    and "\<And>e. session_ok revoked w e \<Longrightarrow> session_ok revoked w' e"
  shows "sessions_ok revoked (AList.update sid w' workers) g"
  using assms unfolding sessions_ok_def by auto blast

lemma revoke_revokes:
  assumes "revoke_agent now agent_id db = (Some rec, db')"
  shows "revoked_in db' agent_id"
proof -
  obtain a where a: "find_agent_row agent_id db = Some a"
    using assms by (auto simp: revoke_agent_def split: option.splits)
  then have "a \<in> set (db_agents db)" "ag_agent_id a = agent_id" by (auto simp: find_agent_row_def find_Some_iff)
  note row = this
  show ?thesis
  proof (cases "is_revoked a")
    case True
    then have "db' = db" using a assms by (auto simp: revoke_agent_def is_revoked_def)
    then show ?thesis using row True by (auto simp: revoked_in_def)
  next
    case False
    then have "db' = update_agent agent_id
        (\<lambda>a. a\<lparr>ag_status := ''revoked'', ag_updated_at := now, ag_revoked_at := Some now\<rparr>) db"
      using a assms by (auto simp: revoke_agent_def is_revoked_def split: if_splits)
    then show ?thesis
      using row unfolding revoked_in_def
      by (intro bexI [of _ "a\<lparr>ag_status := ''revoked'', ag_updated_at := now, ag_revoked_at := Some now\<rparr>"])
        (auto simp: update_agent_def is_revoked_def)
  qed
qed

lemma sessions_ok_same:
  assumes "sessions_ok revoked workers g" and "\<And>w e. session_ok revoked w e \<Longrightarrow> session_ok revoked w (f e)"
  shows "sessions_ok revoked workers (g\<lparr>sg_entries := modify sid f (sg_entries g)\<rparr>)"
  using assms unfolding sessions_ok_def by (auto; fastforce)

lemma map_of_map_agent [simp]:
  "map_of (sg_entries (snd (map_agent a f g))) sid =
   map_option (\<lambda>e. if of_agent a e then f e else e) (map_of (sg_entries g) sid)"
proof -
  have "map_of (map (\<lambda>(sid, e). (sid, if of_agent a e then f e else e)) m) sid =
      map_option (\<lambda>e. if of_agent a e then f e else e) (map_of m sid)" for m :: "(u64 \<times> session_entry) list"
    by (induction m) auto
  then show ?thesis by (simp add: map_agent_def)
qed


lemma sessions_ok_agent:
  assumes "sessions_ok revoked workers g"
    and "\<And>w e. session_ok revoked w e \<Longrightarrow> of_agent a e \<Longrightarrow> session_ok revoked' w (f e)"
    and "\<And>w e. session_ok revoked w e \<Longrightarrow> \<not> of_agent a e \<Longrightarrow> session_ok revoked' w e"
  shows "sessions_ok revoked' workers (snd (map_agent a f g))"
  unfolding sessions_ok_def
proof (intro allI impI)
  fix sid w assume "map_of workers sid = Some w"
  then obtain e where "map_of (sg_entries g) sid = Some e" "session_ok revoked w e"
    using assms(1) by (auto simp: sessions_ok_def)
  then show "\<exists>e. map_of (sg_entries (snd (map_agent a f g))) sid = Some e \<and> session_ok revoked' w e"
    using assms(2,3) by simp
qed

lemma service_ok_sessions:
  assumes "service_ok v" and "sessions_ok (sv_revoked v) workers g"
  shows "service_ok (v\<lparr>sv_sessions := g, sv_workers := workers\<rparr>)"
  using assms by (simp add: service_ok_def)

lemma service_ok_db:
  assumes "service_ok v" and "registration_step (sv_db v) db'"
  shows "service_ok (v\<lparr>sv_db := db'\<rparr>)"
proof -
  have "registry_ok (sv_db v)" using assms(1) by (simp add: service_ok_def)
  then have "registry_ok db'" "keeps_agents (sv_db v) db'"
    using registration_step_ok registration_step_keeps_agents assms(2) by blast+
  then show ?thesis using assms(1) revoked_in_keeps by (simp add: service_ok_def)
qed

lemma service_ok_receive:
  assumes "service_ok v"
    and "registration_receive now new_id new_agent token_id peer_key phase received (sv_db v) = (phase', out, db')"
  shows "service_ok (v\<lparr>sv_db := db'\<rparr>)"
  using registration_receive_step [OF assms(2)] service_ok_db [OF assms(1)] assms(1) by auto

lemma service_step_ok:
  assumes "service_step v v'" and "service_ok v"
  shows "service_ok v'"
  using assms(1)
proof (cases rule: service_step.cases)
  case (opens sid now)
  then have "sessions_ok (sv_revoked v) (AList.update sid Establishing (sv_workers v)) (registry_register now sid (sv_sessions v))"
    using assms(2) by (auto simp: service_ok_def sessions_ok_def registry_register_def session_ok_def)
  then show ?thesis using opens service_ok_sessions [OF assms(2)] by simp
next
  case (registers sid now)
  have "sessions_ok (sv_revoked v) (sv_workers v) (mark_registering now sid (sv_sessions v))"
    unfolding mark_registering_def registry_update_def
    by (rule sessions_ok_same) (use assms(2) in \<open>auto simp: service_ok_def session_ok_def of_agent_def split: worker_phase.splits\<close>)
  then show ?thesis using registers assms(2) by (simp add: service_ok_def)
next
  case (requests sid now new_id new_agent token_id peer_key received phase out db')
  then show ?thesis using service_ok_receive [OF assms(2)] by metis
next
  case (commits_registration sid now new_id new_agent token_id peer_key pending received agent_id out db')
  then have "service_ok (v\<lparr>sv_db := db'\<rparr>)" using service_ok_receive [OF assms(2)] by metis
  moreover have "sessions_ok (sv_revoked v) (AList.update sid (Authorised agent_id) (sv_workers v)) (sv_sessions v)"
    by (rule sessions_ok_worker) (use assms(2) commits_registration in \<open>auto simp: service_ok_def session_ok_def\<close>)
  ultimately show ?thesis using commits_registration by (simp add: service_ok_def)
next
  case (authorises sid peer_key agent_id)
  have "sessions_ok (sv_revoked v) (AList.update sid (Authorised agent_id) (sv_workers v)) (sv_sessions v)"
    by (rule sessions_ok_worker) (use assms(2) authorises in \<open>auto simp: service_ok_def session_ok_def\<close>)
  then show ?thesis using assms(2) authorises by (simp add: service_ok_def)
next
  case (marks sid agent_id now mode)
  have "sessions_ok (sv_revoked v) (AList.update sid (Marked agent_id) (sv_workers v))
      (mark_authenticated now sid agent_id mode (sv_sessions v))"
    unfolding mark_authenticated_def registry_update_def
    by (rule sessions_ok_modify)
      (use marks assms(2) in \<open>auto simp: service_ok_def session_ok_def of_agent_def\<close>)
  then show ?thesis using marks service_ok_sessions [OF assms(2)] by simp
next
  case (rechecks sid agent_id phase)
  then have "phase = Business agent_id" "is_agent_active agent_id (sv_db v)"
    by (auto simp: recheck_agent_def split: if_splits)
  then have "agent_id \<notin> set (sv_revoked v)" using assms(2) revoked_in_inactive by (auto simp: service_ok_def)
  then have "sessions_ok (sv_revoked v) (AList.update sid phase (sv_workers v)) (sv_sessions v)"
    using \<open>phase = _\<close> by (intro sessions_ok_worker) (use assms(2) rechecks in \<open>auto simp: service_ok_def session_ok_def\<close>)
  then show ?thesis using rechecks assms(2) by (simp add: service_ok_def)
next
  case (works sid agent_id now)
  have "sessions_ok (sv_revoked v) (sv_workers v) (registry_touch now sid (sv_sessions v))"
    unfolding registry_touch_def
    by (rule sessions_ok_same) (use assms(2) in \<open>auto simp: service_ok_def session_ok_def of_agent_def split: worker_phase.splits\<close>)
  then show ?thesis using works assms(2) by (simp add: service_ok_def)
next
  case (ends sid)
  then show ?thesis using assms(2) by (simp add: service_ok_def sessions_ok_def registry_remove_def)
next
  case (disconnects sid)
  have "sessions_ok (sv_revoked v) (sv_workers v)
      ((sv_sessions v)\<lparr>sg_entries := modify sid (\<lambda>e. e\<lparr>se_cancelled := True\<rparr>) (sg_entries (sv_sessions v))\<rparr>)"
    by (rule sessions_ok_same) (use assms(2) in \<open>auto simp: service_ok_def session_ok_def of_agent_def split: worker_phase.splits\<close>)
  then show ?thesis using disconnects assms(2) by (simp add: service_ok_def registry_disconnect_def split: option.splits)
next
  case (notifies agent_id)
  have "sessions_ok (sv_revoked v) (sv_workers v) (snd (notify_catalog_changed agent_id (sv_sessions v)))"
    unfolding notify_catalog_changed_def
    by (rule sessions_ok_agent) (use assms(2) in \<open>auto simp: service_ok_def session_ok_def of_agent_def split: worker_phase.splits\<close>)
  then show ?thesis using assms(2) notifies by (simp add: service_ok_def)
next
  case (notifies_runtime agent_id)
  have "sessions_ok (sv_revoked v) (sv_workers v) (snd (notify_runtime_changed agent_id (sv_sessions v)))"
    unfolding notify_runtime_changed_def
    by (rule sessions_ok_agent) (use assms(2) in \<open>auto simp: service_ok_def session_ok_def of_agent_def split: worker_phase.splits\<close>)
  then show ?thesis using assms(2) notifies_runtime by (simp add: service_ok_def)
next
  case (changes db')
  then show ?thesis using service_ok_db [OF assms(2)] by simp
next
  case (revokes now agent_id rec db')
  then have "registration_step (sv_db v) db'" by (intro revokes_agent)
  moreover have "revoked_in db' agent_id" using revokes by (intro revoke_revokes)
  ultimately show ?thesis using service_ok_db [OF assms(2)] revokes by (auto simp: service_ok_def)
next
  case (disconnects_agent agent_id)
  have "sessions_ok (agent_id # sv_revoked v) (sv_workers v) (snd (disconnect_agent agent_id (sv_sessions v)))"
    unfolding disconnect_agent_def
    by (rule sessions_ok_agent [where revoked = "sv_revoked v"]) (use assms(2) in \<open>auto simp: service_ok_def session_ok_def of_agent_def split: worker_phase.splits\<close>)
  then show ?thesis using assms(2) disconnects_agent by (simp add: service_ok_def)
qed


text \<open>
  C24: When the command that revokes an Agent has finished, every session of that Agent that
  runs its business loop has been told to stop, wherever the workers of its sessions were while
  the row was changed and the directory searched; and none can enter the loop any more.
\<close>

theorem revoked_agent_disconnected:
  assumes "registration_step\<^sup>*\<^sup>* empty_registry db" and "service_step\<^sup>*\<^sup>* (service_start db) v"
    and "agent_id \<in> set (sv_revoked v)"
  shows "recheck_agent agent_id (sv_db v) = None \<and>
    (map_of (sv_workers v) sid = Some (Business agent_id) \<longrightarrow>
     map_option se_cancelled (map_of (sg_entries (sv_sessions v)) sid) = Some True)"
proof -
  have "service_ok v" using assms(2)
  proof (induction rule: rtranclp_induct)
    case base
    show ?case using registry_reachable_ok [OF assms(1)] by (simp add: service_ok_def service_start_def sessions_ok_def)
  qed (rule service_step_ok)
  then have "\<not> is_agent_active agent_id (sv_db v)"
    and sessions: "sessions_ok (sv_revoked v) (sv_workers v) (sv_sessions v)"
    using assms(3) revoked_in_inactive by (auto simp: service_ok_def)
  moreover have "map_option se_cancelled (map_of (sg_entries (sv_sessions v)) sid) = Some True"
    if "map_of (sv_workers v) sid = Some (Business agent_id)"
  proof -
    obtain e where "map_of (sg_entries (sv_sessions v)) sid = Some e" "session_ok (sv_revoked v) (Business agent_id) e"
      using sessions \<open>map_of (sv_workers v) sid = _\<close> unfolding sessions_ok_def by blast
    then show ?thesis using assms(3) by (simp add: session_ok_def)
  qed
  ultimately show ?thesis by (simp add: recheck_agent_def)
qed

definition sample_opened :: agent_service where
  "sample_opened = (service_start sample_committed)
     \<lparr>sv_sessions := registry_register 21 1 (sv_sessions (service_start sample_committed)),
      sv_workers := AList.update 1 Establishing (sv_workers (service_start sample_committed))\<rparr>"

definition sample_authorised :: agent_service where
  "sample_authorised = sample_opened\<lparr>sv_workers := AList.update 1 (Authorised ''agent-1'') (sv_workers sample_opened)\<rparr>"

definition sample_marked :: agent_service where
  "sample_marked = sample_authorised
     \<lparr>sv_sessions := mark_authenticated 22 1 ''agent-1'' ''ik'' (sv_sessions sample_authorised),
      sv_workers := AList.update 1 (Marked ''agent-1'') (sv_workers sample_authorised)\<rparr>"

definition sample_business :: agent_service where
  "sample_business = sample_marked\<lparr>sv_workers := AList.update 1 (Business ''agent-1'') (sv_workers sample_marked)\<rparr>"

definition sample_row_revoked :: agent_service where
  "sample_row_revoked = sample_business
     \<lparr>sv_db := snd (revoke_agent 23 ''agent-1'' (sv_db sample_business)),
      sv_revoking := ''agent-1'' # sv_revoking sample_business\<rparr>"

definition sample_disconnected :: agent_service where
  "sample_disconnected = sample_row_revoked
     \<lparr>sv_sessions := snd (disconnect_agent ''agent-1'' (sv_sessions sample_row_revoked)),
      sv_revoked := ''agent-1'' # sv_revoked sample_row_revoked\<rparr>"

lemmas sample_service_defs =
  sample_opened_def sample_authorised_def sample_marked_def sample_business_def sample_row_revoked_def
  sample_disconnected_def service_start_def

lemma sample_service_steps: "service_step\<^sup>*\<^sup>* (service_start sample_committed) sample_disconnected"
proof -
  have authorised: "handle_authorization_session (replicate 32 9) sample_committed = (Inr ''agent-1'' :: unit secure_message + string)"
    by code_simp
  have active: "recheck_agent ''agent-1'' sample_committed = Some (Business ''agent-1'')" by code_simp
  have "map_option ag_agent_id (find_agent_row ''agent-1'' sample_committed) = Some ''agent-1''" by code_simp
  then have revoked: "\<exists>rec. fst (revoke_agent 23 ''agent-1'' sample_committed) = Some rec"
    by (auto simp: revoke_agent_def)
  have "service_step (service_start sample_committed) sample_opened"
    unfolding sample_opened_def by (rule opens) (simp_all add: service_start_def)
  moreover have "service_step sample_opened sample_authorised"
    unfolding sample_authorised_def by (rule authorises [where peer_key = "replicate 32 9"]) (simp_all add: sample_service_defs authorised)
  moreover have "service_step sample_authorised sample_marked"
    unfolding sample_marked_def by (rule marks) (simp add: sample_service_defs)
  moreover have "service_step sample_marked sample_business"
    unfolding sample_business_def by (rule rechecks [where agent_id = "''agent-1''"]) (simp_all add: sample_service_defs active)
  moreover have "service_step sample_business sample_row_revoked"
    using revoked unfolding sample_row_revoked_def
    by (elim exE, intro revokes) (simp add: prod_eq_iff sample_service_defs)
  moreover have "service_step sample_row_revoked sample_disconnected"
    unfolding sample_disconnected_def by (rule disconnects_agent) (simp add: sample_row_revoked_def)
  ultimately show ?thesis by (meson converse_rtranclp_into_rtranclp rtranclp.rtrancl_refl)
qed

theorem revoked_agent_disconnected_witness:
  "map_of (sv_workers sample_disconnected) 1 = Some (Business ''agent-1'') \<and>
   recheck_agent ''agent-1'' (sv_db sample_disconnected) = None \<and>
   map_option se_cancelled (map_of (sg_entries (sv_sessions sample_disconnected)) 1) = Some True"
proof -
  have "''agent-1'' \<in> set (sv_revoked sample_disconnected)" by (simp add: sample_disconnected_def)
  moreover have "map_of (sv_workers sample_disconnected) 1 = Some (Business ''agent-1'')" by (simp add: sample_service_defs)
  ultimately show ?thesis
    using revoked_agent_disconnected [OF sample_committed_reachable sample_service_steps, of "''agent-1''" 1] by blast
qed

end
