(* ===== verification/Registration_System.thy ===== *)
theory Registration_System
  imports Agent_Connection Server_Session
begin

text \<open>
  Agent and Server together: the coordinator of \<open>Agent_Connection\<close> runs against the handlers of
  \<open>Server_Session\<close> and the tables of \<open>Server_Registration\<close>. Every call of the Agent can fail
  before it takes effect or after it, time passes during it, and the cleanup task of the Server
  may run; a crash of the Agent is a call that fails, followed by a new start. The store is the
  one state a load would return, which is what the file store provides across a crash.
\<close>

section \<open>The tables during one registration\<close>

definition token_ready :: "string \<Rightarrow> bytes \<Rightarrow> int \<Rightarrow> registry_db \<Rightarrow> bool" where
  "token_ready token_id psk until db \<longleftrightarrow>
     (\<exists>t. find_token token_id db = Some t \<and> tk_status t = ''active'' \<and> tk_used_at t = None \<and>
        tk_psk t = psk \<and> (case tk_expires_at t of None \<Rightarrow> True | Some e \<Rightarrow> until \<le> e))"

definition unbound :: "string \<Rightarrow> bytes \<Rightarrow> registry_db \<Rightarrow> bool" where
  "unbound token_id key db \<longleftrightarrow>
     \<not> list_ex (\<lambda>r. rg_token_id r = token_id \<or> rg_agent_public_key r = key) (db_registrations db)"

definition bound :: "string \<Rightarrow> bytes \<Rightarrow> int \<Rightarrow> registration_row \<Rightarrow> registry_db \<Rightarrow> bool" where
  "bound token_id key until r db \<longleftrightarrow> r \<in> set (db_registrations db) \<and> rg_token_id r = token_id \<and>
     rg_agent_public_key r = key \<and> rg_status r = ''prepared'' \<and> rg_agent_id r = None \<and>
     length (rg_registration_id r) = 16 \<and>
     (case rg_expires_at r of None \<Rightarrow> True | Some e \<Rightarrow> until \<le> e)"

definition enrolled :: "bytes \<Rightarrow> string \<Rightarrow> registry_db \<Rightarrow> bool" where
  "enrolled key agent_id db \<longleftrightarrow> (\<exists>a \<in> set (db_agents db). ag_agent_id a = agent_id \<and>
     ag_public_key a = key \<and> ag_status a = ''active'' \<and> ag_revoked_at a = None)"

lemma constant_time_eq_refl: "constant_time_eq psk psk"
proof -
  have "fold_difference bs bs 0 = 0" for bs by (induction bs) simp_all
  then show ?thesis by (simp add: constant_time_eq_def)
qed

lemma token_readyE:
  assumes "token_ready token_id psk until db" "now < until"
  obtains t where "find_token token_id db = Some t" "tk_status t = ''active''" "tk_used_at t = None" "tk_psk t = psk"
    "\<not> has_passed now (tk_expires_at t)"
proof -
  obtain t where t: "find_token token_id db = Some t" "tk_status t = ''active''" "tk_used_at t = None" "tk_psk t = psk"
    and e: "case tk_expires_at t of None \<Rightarrow> True | Some e \<Rightarrow> until \<le> e"
    using assms(1) by (auto simp: token_ready_def)
  have "\<not> has_passed now (tk_expires_at t)" using e assms(2) by (simp add: has_passed_def split: option.splits)
  with t show thesis by (rule that)
qed

lemma find_by_token:
  assumes "registry_ok db" "r \<in> set (db_registrations db)" "rg_agent_public_key r = key"
  shows "find (\<lambda>q. rg_agent_public_key q = key) (db_registrations db) = Some r"
  using assms find_unique [of rg_agent_public_key "db_registrations db" key r] by (simp add: registry_ok_def keys_unique_def)

lemma prepare_bound:
  assumes "registry_ok db" "token_ready token_id psk until db" "now < until" "bound token_id key until r db"
  shows "prepare_agent_registration now new_id new_agent token_id psk key db =
    (Inr \<lparr>pa_registration_id = rg_registration_id r, pa_agent_id = rg_reserved_agent_id r\<rparr>, db)"
proof -
  have r: "r \<in> set (db_registrations db)" "rg_agent_public_key r = key" "rg_token_id r = token_id" "rg_status r = ''prepared''"
    "length (rg_registration_id r) = 16" and "\<not> registration_is_expired now r"
    using assms(3,4)
    by (auto simp: bound_def registration_is_expired_def parse_registration_status_def has_passed_def split: option.splits)
  moreover have "clear_way now (\<lambda>q. rg_agent_public_key q = key) db = (Some r, db)"
    using calculation find_by_token [OF assms(1) r(1,2)] by (simp add: clear_way_def delete_registration_if_expired_def)
  ultimately show ?thesis
    using assms(2,3)
    by (auto simp: token_ready_def prepare_agent_registration_def parse_token_status_def has_passed_def
        constant_time_eq_refl parse_registration_status_def split: option.splits)
qed

lemma clear_way_unbound:
  assumes "\<And>r. r \<in> set (db_registrations db) \<Longrightarrow> \<not> p r"
  shows "clear_way now p db = (None, db)"
proof -
  have "find p (db_registrations db) = None" using assms by (simp add: find_None_iff)
  then show ?thesis by (simp add: clear_way_def)
qed

lemma prepare_unbound:
  assumes "token_ready token_id psk until db" "now < until" "until \<le> now + pending_registration_ttl_micros"
    and "unbound token_id key db" "new_id \<notin> rg_registration_id ` set (db_registrations db)" "length new_id = 16"
  shows "\<exists>r. prepare_agent_registration now new_id new_agent token_id psk key db =
      (Inr \<lparr>pa_registration_id = new_id, pa_agent_id = new_agent\<rparr>, db\<lparr>db_registrations := db_registrations db @ [r]\<rparr>) \<and>
    bound token_id key until r (db\<lparr>db_registrations := db_registrations db @ [r]\<rparr>) \<and>
    rg_registration_id r = new_id \<and> rg_reserved_agent_id r = new_agent"
proof -
  have way: "clear_way now (\<lambda>r. rg_agent_public_key r = key) db = (None, db)"
      "clear_way now (\<lambda>r. rg_token_id r = token_id) db = (None, db)"
    using assms(4) by (auto intro!: clear_way_unbound simp: unbound_def list_ex_iff)
  obtain t where t: "find_token token_id db = Some t" "tk_status t = ''active''" "tk_used_at t = None" "tk_psk t = psk"
      "\<not> has_passed now (tk_expires_at t)"
    using assms(1,2) by (rule token_readyE)
  let ?r = "\<lparr>rg_registration_id = new_id, rg_token_id = token_id, rg_agent_id = None, rg_reserved_agent_id = new_agent,
      rg_agent_name = (case tk_display_name t of Some n \<Rightarrow> n | None \<Rightarrow> new_agent),
      rg_agent_public_key = key, rg_status = ''prepared'', rg_created_at = now, rg_updated_at = now,
      rg_expires_at = Some (now + pending_registration_ttl_micros), rg_committed_at = None\<rparr>"
  have "insert_registration ?r db = Inr (db\<lparr>db_registrations := db_registrations db @ [?r]\<rparr>)"
    using assms(4,5) by (auto simp: insert_registration_def unbound_def list_ex_iff)
  then show ?thesis
    using t way assms(3,6)
    by (intro exI [of _ ?r])
      (simp add: prepare_agent_registration_def parse_token_status_def constant_time_eq_refl bound_def)
qed

lemma commit_bound:
  assumes "registry_ok db" "token_ready token_id psk until db" "now < until" "bound token_id key until r db"
    and "rg_reserved_agent_id r \<notin> ag_agent_id ` set (db_agents db)" "key \<notin> ag_public_key ` set (db_agents db)"
  shows "\<exists>db'. commit_agent_registration now
      \<lparr>pa_registration_id = rg_registration_id r, pa_agent_id = rg_reserved_agent_id r\<rparr> db = (Inr (), db') \<and>
    db_agents db' = db_agents db @ [activated_row now r]"
proof -
  have r: "r \<in> set (db_registrations db)" "rg_status r = ''prepared''" "\<not> has_passed now (rg_expires_at r)"
    "rg_token_id r = token_id" "rg_agent_public_key r = key"
    using assms(3,4) by (auto simp: bound_def has_passed_def split: option.splits)
  have "find_registration (rg_registration_id r) db = Some r" using r assms(1) by (simp add: find_registration_iff)
  moreover obtain t where "find_token token_id db = Some t" "tk_status t = ''active''" "tk_used_at t = None"
      "\<not> has_passed now (tk_expires_at t)"
    using assms(2,3) by (rule token_readyE)
  moreover have "find_agent_row (rg_reserved_agent_id r) db = None"
    using assms(5) by (force simp: find_agent_row_def find_None_iff)
  ultimately show ?thesis
    using r assms(5,6)
    by (simp add: commit_agent_registration_def parse_registration_status_def parse_token_status_def insert_agent_def
        update_token_def update_registration_def activated_row_def)
qed


section \<open>The world of an Agent\<close>

text \<open>What befalls one call: how long it takes, whether the Server sweeps expired attempts
  during it, and whether it works, fails before its effect or fails after it.\<close>

datatype fault = Works | FailsBefore | FailsAfter

record turn =
  tn_wait :: nat
  tn_sweep :: bool
  tn_fault :: fault

text \<open>The end of a registration stream on the Server, with the messages on their way.\<close>

record registration_stream =
  rs_token_id :: string
  rs_peer_key :: bytes
  rs_phase :: registration_phase
  rs_inbox :: "unit secure_message list"

record world =
  wd_disk :: "persisted_agent_state option"
  wd_db :: registry_db
  wd_now :: int
  wd_turns :: "turn list"
  wd_drawn :: nat
  wd_stream :: "registration_stream option"

text \<open>The key ring and BLAKE2s of the Server, the identifiers it draws and the identities the
  Agent draws.\<close>

record setting =
  sx_ring :: server_key_ring
  sx_blake :: "bytes \<Rightarrow> bytes"
  sx_ids :: "nat \<Rightarrow> bytes \<times> string"
  sx_identities :: "nat \<Rightarrow> noise_identity"

datatype handle = XxHandle | IkHandle bytes

definition tick :: "world \<Rightarrow> fault \<times> world" where
  "tick w =
     (case wd_turns w of
        [] \<Rightarrow> (Works, w)
      | t # ts \<Rightarrow>
          (let now = wd_now w + int (tn_wait t)
           in (tn_fault t,
               w\<lparr>wd_turns := ts, wd_now := now,
                 wd_db := (if tn_sweep t then snd (cleanup_expired_agent_registrations now (wd_db w)) else wd_db w)\<rparr>)))"

definition call :: "'e \<Rightarrow> (world, 'e, 'a) action \<Rightarrow> (world, 'e, 'a) action" where
  "call err m w =
     (case tick w of
        (Works, w) \<Rightarrow> m w
      | (FailsBefore, w) \<Rightarrow> (Inl err, w)
      | (FailsAfter, w) \<Rightarrow> (Inl err, snd (m w)))"

definition world_connect_ik ::
  "setting \<Rightarrow> noise_identity \<Rightarrow> noise_public_key \<Rightarrow> (world, transport_error, handle) action" where
  "world_connect_ik st identity key w =
     (case accept_ik (sx_blake st) (sx_ring st) (kid_bytes (key_id_of (sx_blake st) key)) of
        Inl _ \<Rightarrow> (Inl (TransportRemoteProtocol ''handshake''), w)
      | Inr server \<Rightarrow>
          if ni_public_key server = key then (Inr (IkHandle (pk_bytes (ni_public_key identity))), w)
          else (Inl (TransportRemoteProtocol ''handshake''), w))"

definition world_open_registration ::
  "setting \<Rightarrow> noise_identity \<Rightarrow> bytes \<Rightarrow> string \<Rightarrow> (world, transport_error, handle \<times> noise_public_key) action" where
  "world_open_registration st identity psk token_id w =
     (case accept_xxpsk3 (wd_now w) (sx_ring st) token_id (wd_db w) of
        Inl _ \<Rightarrow> (Inl (TransportRemoteProtocol ''handshake''), w)
      | Inr (server, server_psk) \<Rightarrow>
          if server_psk = psk
          then (Inr (XxHandle, ni_public_key server),
                w\<lparr>wd_stream := Some \<lparr>rs_token_id = token_id, rs_peer_key = pk_bytes (ni_public_key identity),
                    rs_phase = fst (registration_enter True :: _ \<times> unit secure_message option), rs_inbox = []\<rparr>\<rparr>)
          else (Inl (TransportRemoteProtocol ''handshake''), w))"

definition world_send :: "setting \<Rightarrow> handle \<Rightarrow> unit secure_message \<Rightarrow> (world, transport_error, unit) action" where
  "world_send st h message w =
     (case (h, wd_stream w) of
        (XxHandle, Some s) \<Rightarrow>
          (case registration_receive (wd_now w) (fst (sx_ids st (wd_drawn w))) (snd (sx_ids st (wd_drawn w)))
                  (rs_token_id s) (rs_peer_key s) (rs_phase s) (Some (Inr (Some message))) (wd_db w) of
             (phase, out, db) \<Rightarrow>
               (Inr (), w\<lparr>wd_db := db, wd_drawn := Suc (wd_drawn w),
                  wd_stream := Some (s\<lparr>rs_phase := phase,
                    rs_inbox := rs_inbox s @ (case out of None \<Rightarrow> [] | Some m \<Rightarrow> [m])\<rparr>)\<rparr>))
      | _ \<Rightarrow> (Inl TransportClosed, w))"

definition world_receive ::
  "handle \<Rightarrow> world \<Rightarrow> (transport_error + unit secure_message option) option \<times> world" where
  "world_receive h w =
     (case tick w of
        (Works, w) \<Rightarrow>
          (case wd_stream w of
             None \<Rightarrow> (Some (Inr None), w)
           | Some s \<Rightarrow>
               (case rs_inbox s of
                  [] \<Rightarrow> (None, w)
                | m # ms \<Rightarrow> (Some (Inr (Some m)), w\<lparr>wd_stream := Some (s\<lparr>rs_inbox := ms\<rparr>)\<rparr>)))
      | (_, w) \<Rightarrow> (Some (Inl TransportClosed), w))"

text \<open>The driver counts the answer to its ping once the Server runs the business loop; a refusal
  reaches it as the error of the session.\<close>

definition world_signals :: "handle \<Rightarrow> world \<Rightarrow> unit driver_signal list \<times> world" where
  "world_signals h w =
     (case tick w of
        (Works, w) \<Rightarrow>
          (case h of
             XxHandle \<Rightarrow> ([], w)
           | IkHandle key \<Rightarrow>
               (case handle_authorization_session key (wd_db w) of
                  Inr agent_id \<Rightarrow>
                    (if is_agent_active agent_id (wd_db w) then [SignalReceivedCount (Inr 1)] else [SignalEnd], w)
                | Inl message \<Rightarrow>
                    (case session_event_of message of Inl err \<Rightarrow> [SignalError err] | Inr event \<Rightarrow> [SignalEvent event], w)))
      | (_, w) \<Rightarrow> ([SignalEnd], w))"

definition world_calls :: "setting \<Rightarrow> (world, handle, unit) agent_calls" where
  "world_calls st =
     \<lparr>load_call = call ''load'' (\<lambda>w. (Inr (wd_disk w), w)),
      save_call = (\<lambda>s. call ''save'' (\<lambda>w. (Inr (), w\<lparr>wd_disk := Some s\<rparr>))),
      generate_call = call (Random ''random'') (\<lambda>w. (Inr (sx_identities st (wd_drawn w)), w\<lparr>wd_drawn := Suc (wd_drawn w)\<rparr>)),
      connect_ik_call = (\<lambda>identity key. call TransportClosed (world_connect_ik st identity key)),
      open_registration_call = (\<lambda>identity psk token_id. call TransportClosed (world_open_registration st identity psk token_id)),
      send_call = (\<lambda>h message. call TransportClosed (world_send st h message)),
      receive_call = world_receive,
      ping_call = (\<lambda>h. call TransportClosed (\<lambda>w. (Inr (), w))),
      signals_call = world_signals,
      stop_call = (\<lambda>h w. w),
      acknowledge_call = (\<lambda>h rotation_id key_id. call TransportClosed (\<lambda>w. (Inr (), w)))\<rparr>"

lemma world_calls_simps:
  "load_call (world_calls st) = call ''load'' (\<lambda>w. (Inr (wd_disk w), w))"
  "save_call (world_calls st) s = call ''save'' (\<lambda>w. (Inr (), w\<lparr>wd_disk := Some s\<rparr>))"
  "generate_call (world_calls st) =
    call (Random ''random'') (\<lambda>w. (Inr (sx_identities st (wd_drawn w)), w\<lparr>wd_drawn := Suc (wd_drawn w)\<rparr>))"
  "connect_ik_call (world_calls st) i k = call TransportClosed (world_connect_ik st i k)"
  "open_registration_call (world_calls st) i psk token_id = call TransportClosed (world_open_registration st i psk token_id)"
  "send_call (world_calls st) h message = call TransportClosed (world_send st h message)"
  "receive_call (world_calls st) = world_receive"
  "ping_call (world_calls st) h = call TransportClosed (\<lambda>w. (Inr (), w))"
  "signals_call (world_calls st) = world_signals"
  "stop_call (world_calls st) h w = w"
  by (simp_all add: world_calls_def)

text \<open>The Agent is started again and again.\<close>

fun attempts :: "client_config \<Rightarrow> setting \<Rightarrow> nat \<Rightarrow> world \<Rightarrow> world" where
  "attempts config st 0 w = w"
| "attempts config st (Suc n) w = attempts config st n (snd (establish_initial config (world_calls st) w))"


section \<open>What holds between any two calls\<close>

definition agent_key :: "noise_identity \<Rightarrow> bytes" where
  "agent_key i = pk_bytes (ni_public_key i)"

definition server_key :: "setting \<Rightarrow> noise_public_key" where
  "server_key st = ni_public_key (sk_current (sx_ring st))"

text \<open>BLAKE2s makes 32 bytes and registration identifiers are 16 bytes long.\<close>

definition setting_ok :: "setting \<Rightarrow> bool" where
  "setting_ok st \<longleftrightarrow> (\<forall>b. length (sx_blake st b) = key_len) \<and> (\<forall>n. length (fst (sx_ids st n)) = 16)"

text \<open>No identifier drawn from now on is in the tables already.\<close>

definition new_ids :: "setting \<Rightarrow> registry_db \<Rightarrow> bool" where
  "new_ids st db \<longleftrightarrow> (\<forall>m. fst (sx_ids st m) \<notin> rg_registration_id ` set (db_registrations db) \<and>
     snd (sx_ids st m) \<notin> ag_agent_id ` set (db_agents db))"

definition new_identities :: "setting \<Rightarrow> registry_db \<Rightarrow> bool" where
  "new_identities st db \<longleftrightarrow> (\<forall>m. agent_key (sx_identities st m) \<notin> rg_agent_public_key ` set (db_registrations db) \<and>
     agent_key (sx_identities st m) \<notin> ag_public_key ` set (db_agents db))"

text \<open>The Agent with this key can still be admitted by the attempt \<open>r\<close>.\<close>

definition admissible :: "string \<Rightarrow> bytes \<Rightarrow> int \<Rightarrow> bytes \<Rightarrow> registration_row \<Rightarrow> registry_db \<Rightarrow> bool" where
  "admissible token_id psk until key r db \<longleftrightarrow> token_ready token_id psk until db \<and>
     key \<notin> ag_public_key ` set (db_agents db) \<and> bound token_id key until r db \<and>
     rg_reserved_agent_id r \<notin> ag_agent_id ` set (db_agents db)"

fun progress :: "setting \<Rightarrow> string \<Rightarrow> bytes \<Rightarrow> int \<Rightarrow> persisted_agent_state option \<Rightarrow> registry_db \<Rightarrow> bool" where
  "progress st token_id psk until None db =
     (token_ready token_id psk until db \<and> \<not> list_ex (\<lambda>r. rg_token_id r = token_id) (db_registrations db) \<and>
      new_ids st db \<and> new_identities st db)"
| "progress st token_id psk until (Some (IdentityPrepared i)) db =
     (token_ready token_id psk until db \<and> agent_key i \<notin> ag_public_key ` set (db_agents db) \<and>
      (unbound token_id (agent_key i) db \<and> new_ids st db \<or> (\<exists>r. admissible token_id psk until (agent_key i) r db)))"
| "progress st token_id psk until (Some (RegistrationPending a i k rid)) db =
     (k = pinned_new (server_key st) \<and>
      (enrolled (agent_key i) a db \<or>
       (\<exists>r. admissible token_id psk until (agent_key i) r db \<and> rg_registration_id r = rid \<and> rg_reserved_agent_id r = a)))"
| "progress st token_id psk until (Some (Registered a i k rid)) db =
     (k = pinned_new (server_key st) \<and> enrolled (agent_key i) a db)"

definition system_inv :: "setting \<Rightarrow> string \<Rightarrow> bytes \<Rightarrow> int \<Rightarrow> bool \<Rightarrow> world \<Rightarrow> bool" where
  "system_inv st token_id psk until calm w \<longleftrightarrow>
     registry_ok (wd_db w) \<and>
     until \<le> wd_now w + pending_registration_ttl_micros \<and>
     wd_now w + int (sum_list (map tn_wait (wd_turns w))) < until \<and>
     progress st token_id psk until (wd_disk w) (wd_db w) \<and> (calm \<longrightarrow> wd_turns w = [])"

lemma sweep_tables [simp]:
  "db_agents (snd (cleanup_expired_agent_registrations now db)) = db_agents db"
  "db_tokens (snd (cleanup_expired_agent_registrations now db)) = db_tokens db"
  by (auto simp: cleanup_expired_agent_registrations_def Let_def)

lemma sweep_member: "r \<in> set (db_registrations (snd (cleanup_expired_agent_registrations now db))) \<Longrightarrow> r \<in> set (db_registrations db)"
  by (auto simp: cleanup_expired_agent_registrations_def Let_def)

lemma sweep_keeps:
  "token_ready token_id psk until db \<Longrightarrow> token_ready token_id psk until (snd (cleanup_expired_agent_registrations now db))"
  "unbound token_id key db \<Longrightarrow> unbound token_id key (snd (cleanup_expired_agent_registrations now db))"
  "enrolled key a (snd (cleanup_expired_agent_registrations now db)) = enrolled key a db"
  "new_identities st db \<Longrightarrow> new_identities st (snd (cleanup_expired_agent_registrations now db))"
  "new_ids st db \<Longrightarrow> new_ids st (snd (cleanup_expired_agent_registrations now db))"
  "\<not> list_ex p (db_registrations db) \<Longrightarrow> \<not> list_ex p (db_registrations (snd (cleanup_expired_agent_registrations now db)))"
  by (force simp: token_ready_def find_token_def unbound_def enrolled_def list_ex_iff new_identities_def new_ids_def dest: sweep_member)+

lemma sweep_admissible:
  assumes "admissible token_id psk until key r db" "now < until"
  shows "admissible token_id psk until key r (snd (cleanup_expired_agent_registrations now db))"
proof -
  have "bound token_id key until r (snd (cleanup_expired_agent_registrations now db))"
    using assms by (auto simp: admissible_def bound_def cleanup_expired_agent_registrations_def Let_def split: option.splits)
  then show ?thesis using assms sweep_keeps(1) by (auto simp: admissible_def)
qed

lemma sweep_progress:
  assumes "progress st token_id psk until s db" "now < until"
  shows "progress st token_id psk until s (snd (cleanup_expired_agent_registrations now db))"
proof (cases "(st, token_id, psk, until, s, db)" rule: progress.cases)
  case (2 st token_id psk until i db)
  then show ?thesis using assms sweep_keeps(1,2,5) sweep_admissible by (auto; metis)
next
  case (3 st token_id psk until a i k rid db)
  then show ?thesis using assms sweep_keeps(3) sweep_admissible by auto metis
qed (use assms sweep_keeps in auto)

lemma sweep_ok:
  assumes "registry_ok db"
  shows "registry_ok (snd (cleanup_expired_agent_registrations now db))"
  using registration_step_ok [OF cleans assms] prod.collapse by metis

lemma tick_frame [simp]:
  "wd_disk (snd (tick w)) = wd_disk w" "wd_stream (snd (tick w)) = wd_stream w" "wd_drawn (snd (tick w)) = wd_drawn w"
  by (simp_all add: tick_def Let_def split: list.splits)

lemma system_inv_stream [simp]:
  "system_inv st token_id psk until calm (w\<lparr>wd_stream := x\<rparr>) = system_inv st token_id psk until calm w"
  by (simp add: system_inv_def)

lemma tick_admissible:
  assumes "system_inv st token_id psk until calm w" "admissible token_id psk until key r (wd_db w)"
  shows "admissible token_id psk until key r (wd_db (snd (tick w)))"
  using assms sweep_admissible by (auto simp: tick_def Let_def system_inv_def split: list.splits)

lemma tick_enrolled [simp]: "enrolled key a (wd_db (snd (tick w))) = enrolled key a (wd_db w)"
  by (simp add: tick_def Let_def sweep_keeps split: list.splits)

lemma tick_inv:
  assumes "system_inv st token_id psk until calm w"
  shows "system_inv st token_id psk until calm (snd (tick w))"
proof (cases "wd_turns w")
  case (Cons t ts)
  have "wd_now w + int (tn_wait t) < until" using assms Cons by (auto simp: system_inv_def)
  then show ?thesis
    using assms Cons sweep_progress sweep_ok
    by (auto simp: tick_def Let_def system_inv_def)
qed (use assms in \<open>simp add: tick_def\<close>)

lemma tick_calm: "system_inv st token_id psk until calm w \<Longrightarrow> calm \<Longrightarrow> fst (tick w) = Works"
  by (simp add: system_inv_def tick_def)


section \<open>One attempt\<close>

lemma triple_call:
  assumes "\<And>w. P w \<Longrightarrow> P (snd (tick w))" and "\<And>w. P w \<Longrightarrow> calm \<Longrightarrow> fst (tick w) = Works"
    and "\<And>w. P w \<Longrightarrow> (case m w of (Inr x, w') \<Rightarrow> Q x w' \<and> (\<not> calm \<longrightarrow> E err w') | (Inl e', w') \<Rightarrow> False)"
    and "\<And>w. P w \<Longrightarrow> \<not> calm \<Longrightarrow> E err w"
  shows "triple P (call err m) Q E"
  unfolding triple_def
proof (intro allI impI)
  fix w assume "P w"
  obtain f w' where t: "tick w = (f, w')" by fastforce
  then have w': "P w'" "f \<noteq> Works \<longrightarrow> \<not> calm" using assms(1,2) [OF \<open>P w\<close>] by auto
  show "case call err m w of (Inr x, w') \<Rightarrow> Q x w' | (Inl err, w') \<Rightarrow> E err w'"
    using t w' assms(3) [OF w'(1)] assms(4) [OF w'(1)]
    by (cases f; cases "m w'"; cases "fst (m w')") (auto simp: call_def)
qed

text \<open>An Agent that is on its way to be admitted.\<close>

definition enrolling :: "setting \<Rightarrow> string \<Rightarrow> bytes \<Rightarrow> int \<Rightarrow> persisted_agent_state \<Rightarrow> registry_db \<Rightarrow> bool" where
  "enrolling st token_id psk until s db \<longleftrightarrow>
     progress st token_id psk until (Some s) db \<and> token_ready token_id psk until db \<and>
     (case s of
        IdentityPrepared i \<Rightarrow> True
      | RegistrationPending a i k rid \<Rightarrow>
          (\<exists>r. admissible token_id psk until (agent_key i) r db \<and> rg_registration_id r = rid \<and> rg_reserved_agent_id r = a)
      | Registered _ _ _ _ \<Rightarrow> False)"

lemma sweep_enrolling:
  assumes "enrolling st token_id psk until s db" "now < until"
  shows "enrolling st token_id psk until s (snd (cleanup_expired_agent_registrations now db))"
proof -
  have "progress st token_id psk until (Some s) (snd (cleanup_expired_agent_registrations now db))"
    using assms sweep_progress unfolding enrolling_def by blast
  moreover have "token_ready token_id psk until (snd (cleanup_expired_agent_registrations now db))"
    using assms(1) sweep_keeps(1) by (simp add: enrolling_def)
  moreover have "\<exists>r. admissible token_id psk until (agent_key i) r (snd (cleanup_expired_agent_registrations now db)) \<and>
      rg_registration_id r = rid \<and> rg_reserved_agent_id r = a" if "s = RegistrationPending a i k rid" for a i k rid
    using assms that sweep_admissible by (auto simp: enrolling_def simp del: progress.simps) (metis sweep_admissible)
  ultimately show ?thesis using assms(1) by (cases s) (simp_all add: enrolling_def)
qed

lemma tick_enrolling:
  assumes "system_inv st token_id psk until calm w" "enrolling st token_id psk until s (wd_db w)"
  shows "enrolling st token_id psk until s (wd_db (snd (tick w)))"
  using assms sweep_enrolling by (auto simp: tick_def Let_def system_inv_def split: list.splits)

lemma now_until: "system_inv st token_id psk until calm w \<Longrightarrow> wd_now w < until"
  by (auto simp: system_inv_def)

lemma open_registration_step:
  assumes "validate_registration_token_id token_id = Inr ()" "length psk = registration_psk_bytes"
  shows "triple (\<lambda>w. system_inv st token_id psk until calm w \<and> wd_disk w = Some s \<and> enrolling st token_id psk until s (wd_db w))
    (open_registration_call (world_calls st) i psk token_id)
    (\<lambda>(h, k) w. system_inv st token_id psk until calm w \<and> wd_disk w = Some s \<and> enrolling st token_id psk until s (wd_db w) \<and>
       h = XxHandle \<and> k = server_key st \<and>
       wd_stream w = Some \<lparr>rs_token_id = token_id, rs_peer_key = agent_key i, rs_phase = AwaitRequest, rs_inbox = []\<rparr>)
    (\<lambda>err w. system_inv st token_id psk until calm w \<and> \<not> calm)"
proof -
  have accept: "accept_xxpsk3 (wd_now w) (sx_ring st) token_id (wd_db w) = Inr (sk_current (sx_ring st), psk)"
    if inv: "system_inv st token_id psk until calm w" "enrolling st token_id psk until s (wd_db w)" for w
  proof -
    obtain t where "find_token token_id (wd_db w) = Some t" "tk_status t = ''active''" "tk_used_at t = None" "tk_psk t = psk"
      "\<not> has_passed (wd_now w) (tk_expires_at t)"
      using inv(2) now_until [OF inv(1)] by (auto simp: enrolling_def elim: token_readyE)
    then show ?thesis
      using assms by (simp add: accept_xxpsk3_def resolve_registration_psk_def load_active_registration_psk_def
          parse_token_status_def active_keys_def)
  qed
  show ?thesis
    unfolding world_calls_simps
  proof (rule triple_call [where calm = calm])
    fix w assume w: "system_inv st token_id psk until calm w \<and> wd_disk w = Some s \<and> enrolling st token_id psk until s (wd_db w)"
    then show "case world_open_registration st i psk token_id w of (Inr x, w') \<Rightarrow>
        (case x of (h, k) \<Rightarrow> \<lambda>w. system_inv st token_id psk until calm w \<and> wd_disk w = Some s \<and>
          enrolling st token_id psk until s (wd_db w) \<and> h = XxHandle \<and> k = server_key st \<and>
          wd_stream w = Some \<lparr>rs_token_id = token_id, rs_peer_key = agent_key i, rs_phase = AwaitRequest, rs_inbox = []\<rparr>) w' \<and>
        (\<not> calm \<longrightarrow> system_inv st token_id psk until calm w' \<and> \<not> calm) | (Inl e', w') \<Rightarrow> False"
      using accept [of w] by (auto simp: world_open_registration_def registration_enter_def server_key_def agent_key_def)
  qed (auto simp: tick_inv tick_enrolling tick_calm)
qed


text \<open>The attempt of this Agent is in the table, and the Server waits for its commit.\<close>

definition prepared ::
  "setting \<Rightarrow> string \<Rightarrow> bytes \<Rightarrow> int \<Rightarrow> bool \<Rightarrow> noise_identity \<Rightarrow> unit secure_message list \<Rightarrow> bytes \<Rightarrow> string \<Rightarrow> world \<Rightarrow> bool" where
  "prepared st token_id psk until calm i inbox rid aid w \<longleftrightarrow> system_inv st token_id psk until calm w \<and>
     (\<exists>r. admissible token_id psk until (agent_key i) r (wd_db w) \<and> rg_registration_id r = rid \<and> rg_reserved_agent_id r = aid) \<and>
     wd_stream w = Some \<lparr>rs_token_id = token_id, rs_peer_key = agent_key i,
       rs_phase = AwaitCommit \<lparr>pa_registration_id = rid, pa_agent_id = aid\<rparr>, rs_inbox = inbox\<rparr>"

lemma tick_prepared:
  "prepared st token_id psk until calm i inbox rid aid w \<Longrightarrow> prepared st token_id psk until calm i inbox rid aid (snd (tick w))"
  unfolding prepared_def using tick_inv tick_admissible tick_frame(2) by metis

lemma prepared_inv: "prepared st token_id psk until calm i inbox rid aid w \<Longrightarrow> system_inv st token_id psk until calm w"
  by (simp add: prepared_def)

lemma system_inv_db:
  assumes "system_inv st token_id psk until calm w" "registry_ok db" "progress st token_id psk until (wd_disk w) db"
  shows "system_inv st token_id psk until calm (w\<lparr>wd_db := db, wd_drawn := n, wd_stream := x\<rparr>)"
  using assms by (simp add: system_inv_def)

lemma admissible_unique:
  assumes "registry_ok db" "admissible token_id psk until key r db" "admissible token_id psk until' key q db"
  shows "q = r"
  using assms by (auto simp: admissible_def bound_def registry_ok_def keys_unique_def distinct_map inj_on_def)

definition same_attempt :: "persisted_agent_state \<Rightarrow> bytes \<Rightarrow> string \<Rightarrow> bool" where
  "same_attempt s rid aid \<longleftrightarrow>
     (case s of RegistrationPending a i k r \<Rightarrow> r = rid \<and> a = aid | _ \<Rightarrow> True)"

lemma prepare_enrolling:
  assumes "setting_ok st" "system_inv st token_id psk until calm w" "wd_disk w = Some s" "enrolling st token_id psk until s (wd_db w)"
  shows "\<exists>r db. prepare_agent_registration (wd_now w) (fst (sx_ids st (wd_drawn w))) (snd (sx_ids st (wd_drawn w)))
        token_id psk (agent_key (identity_of s)) (wd_db w) =
      (Inr \<lparr>pa_registration_id = rg_registration_id r, pa_agent_id = rg_reserved_agent_id r\<rparr>, db) \<and>
    system_inv st token_id psk until calm (w\<lparr>wd_db := db, wd_drawn := Suc (wd_drawn w)\<rparr>) \<and>
    admissible token_id psk until (agent_key (identity_of s)) r db \<and> enrolling st token_id psk until s db \<and>
    same_attempt s (rg_registration_id r) (rg_reserved_agent_id r)"
proof -
  let ?k = "agent_key (identity_of s)" and ?id = "fst (sx_ids st (wd_drawn w))" and ?a = "snd (sx_ids st (wd_drawn w))"
  have ok: "registry_ok (wd_db w)" and now: "wd_now w < until"
    and ttl: "until \<le> wd_now w + pending_registration_ttl_micros"
    using assms(2) by (auto simp: system_inv_def)
  have ready: "token_ready token_id psk until (wd_db w)" using assms(4) by (simp add: enrolling_def)
  consider (again) r where "admissible token_id psk until ?k r (wd_db w)" "same_attempt s (rg_registration_id r) (rg_reserved_agent_id r)"
    | (new) "new_ids st (wd_db w)" "unbound token_id ?k (wd_db w)" "?k \<notin> ag_public_key ` set (db_agents (wd_db w))" "s = IdentityPrepared (identity_of s)"
    using assms(4) by (cases s) (auto simp: enrolling_def same_attempt_def)
  then show ?thesis
  proof cases
    case (again r)
    then have "bound token_id ?k until r (wd_db w)" by (simp add: admissible_def)
    then have "prepare_agent_registration (wd_now w) ?id ?a token_id psk ?k (wd_db w) =
        (Inr \<lparr>pa_registration_id = rg_registration_id r, pa_agent_id = rg_reserved_agent_id r\<rparr>, wd_db w)"
      using prepare_bound [OF ok ready now] by blast
    moreover have "system_inv st token_id psk until calm (w\<lparr>wd_db := wd_db w, wd_drawn := Suc (wd_drawn w)\<rparr>)"
      using assms(2) by (simp add: system_inv_def)
    ultimately show ?thesis using again assms(4) by blast
  next
    case new
    have "?id \<notin> rg_registration_id ` set (db_registrations (wd_db w))" "length ?id = 16"
      using new(1) assms(1) by (auto simp: new_ids_def setting_ok_def)
    from prepare_unbound [OF ready now ttl new(2) this, of ?a] obtain r where
      prep: "prepare_agent_registration (wd_now w) ?id ?a token_id psk ?k (wd_db w) =
        (Inr \<lparr>pa_registration_id = ?id, pa_agent_id = ?a\<rparr>, (wd_db w)\<lparr>db_registrations := db_registrations (wd_db w) @ [r]\<rparr>)"
      and bound: "bound token_id ?k until r ((wd_db w)\<lparr>db_registrations := db_registrations (wd_db w) @ [r]\<rparr>)"
      and ids: "rg_registration_id r = ?id" "rg_reserved_agent_id r = ?a" by blast
    let ?db = "(wd_db w)\<lparr>db_registrations := db_registrations (wd_db w) @ [r]\<rparr>"
    have ok': "registry_ok ?db" using prepare_ok [OF ok prep] .
    have ready': "token_ready token_id psk until ?db" using ready by (simp add: token_ready_def find_token_def)
    have adm: "admissible token_id psk until ?k r ?db"
      using bound ready' new(1,3) ids by (auto simp: admissible_def new_ids_def)
    then have "enrolling st token_id psk until s ?db"
      using new ready' by (cases s) (auto simp: enrolling_def)
    moreover from this have "system_inv st token_id psk until calm (w\<lparr>wd_db := ?db, wd_drawn := Suc (wd_drawn w)\<rparr>)"
      using assms(2,3) ok' by (simp add: system_inv_def enrolling_def)
    moreover have "same_attempt s ?id ?a" using new(4) by (cases s) (auto simp: same_attempt_def)
    ultimately show ?thesis using prep adm ids by metis
  qed
qed

lemma request_step:
  assumes "setting_ok st" "parse_registration_credential token = Inr (token_id, psk)"
  shows "triple (\<lambda>w. system_inv st token_id psk until calm w \<and> wd_disk w = Some s \<and> enrolling st token_id psk until s (wd_db w) \<and>
      wd_stream w = Some \<lparr>rs_token_id = token_id, rs_peer_key = agent_key (identity_of s), rs_phase = AwaitRequest, rs_inbox = []\<rparr>)
    (send_call (world_calls st) XxHandle (Some (BodyRegistration (Some (MsgRequest token)))))
    (\<lambda>_ w. wd_disk w = Some s \<and> (\<exists>rid aid. same_attempt s rid aid \<and> length rid = 16 \<and>
      prepared st token_id psk until calm (identity_of s) [Some (BodyRegistration (Some (MsgPrepared rid aid)))] rid aid w))
    (\<lambda>err w. system_inv st token_id psk until calm w \<and> \<not> calm)"
  unfolding world_calls_simps
proof (rule triple_call [where calm = calm])
  fix w
  assume w: "system_inv st token_id psk until calm w \<and> wd_disk w = Some s \<and> enrolling st token_id psk until s (wd_db w) \<and>
      wd_stream w = Some \<lparr>rs_token_id = token_id, rs_peer_key = agent_key (identity_of s), rs_phase = AwaitRequest, rs_inbox = []\<rparr>"
  then obtain r db where prep: "prepare_agent_registration (wd_now w) (fst (sx_ids st (wd_drawn w))) (snd (sx_ids st (wd_drawn w)))
        token_id psk (agent_key (identity_of s)) (wd_db w) =
      (Inr \<lparr>pa_registration_id = rg_registration_id r, pa_agent_id = rg_reserved_agent_id r\<rparr>, db)"
    and inv: "system_inv st token_id psk until calm (w\<lparr>wd_db := db, wd_drawn := Suc (wd_drawn w)\<rparr>)"
    and adm: "admissible token_id psk until (agent_key (identity_of s)) r db"
    and same: "same_attempt s (rg_registration_id r) (rg_reserved_agent_id r)"
    using prepare_enrolling [OF assms(1)] by metis
  have "length (rg_registration_id r) = 16" using adm by (simp add: admissible_def bound_def)
  moreover have inv': "system_inv st token_id psk until calm (w\<lparr>wd_db := db, wd_drawn := Suc (wd_drawn w), wd_stream := x\<rparr>)" for x
    using inv by (simp add: system_inv_def)
  ultimately show "case world_send st XxHandle (Some (BodyRegistration (Some (MsgRequest token)))) w of
      (Inr x, w') \<Rightarrow> (wd_disk w' = Some s \<and> (\<exists>rid aid. same_attempt s rid aid \<and> length rid = 16 \<and>
        prepared st token_id psk until calm (identity_of s) [Some (BodyRegistration (Some (MsgPrepared rid aid)))] rid aid w')) \<and>
        (\<not> calm \<longrightarrow> system_inv st token_id psk until calm w' \<and> \<not> calm)
    | (Inl e', w') \<Rightarrow> False"
    using w prep adm same assms(2)
    by (auto simp: world_send_def receive_and_prepare_registration_def receive_registration_request_def
        prepare_registration_def prepared_def intro!: exI [of _ "rg_registration_id r"] exI [of _ "rg_reserved_agent_id r"])
qed (auto simp: tick_inv tick_enrolling tick_calm)


lemma receive_step:
  assumes "\<And>w. P w \<Longrightarrow> P (snd (tick w))" and "\<And>w. P w \<Longrightarrow> calm \<Longrightarrow> fst (tick w) = Works"
    and "\<And>w. P w \<Longrightarrow> (case wd_stream w of
        Some s \<Rightarrow> (case rs_inbox s of m # ms \<Rightarrow> Q m (w\<lparr>wd_stream := Some (s\<lparr>rs_inbox := ms\<rparr>)\<rparr>) | [] \<Rightarrow> False) | None \<Rightarrow> False)"
    and "\<And>w. P w \<Longrightarrow> \<not> calm \<Longrightarrow> E TransportClosed w"
  shows "triple P (receive_within (world_calls st) h what) Q E"
  unfolding triple_def
proof (intro allI impI)
  fix w assume "P w"
  obtain f w' where t: "tick w = (f, w')" by fastforce
  then have w': "P w'" "f \<noteq> Works \<longrightarrow> \<not> calm" using assms(1,2) [OF \<open>P w\<close>] by auto
  show "case receive_within (world_calls st) h what w of (Inr x, w') \<Rightarrow> Q x w' | (Inl err, w') \<Rightarrow> E err w'"
    using t w' assms(3) [OF w'(1)] assms(4) [OF w'(1)]
    by (cases f) (auto simp: receive_within_def world_calls_simps world_receive_def split: option.splits list.splits)
qed

lemma prepared_receive:
  "triple (\<lambda>w. wd_disk w = Some s \<and> (\<exists>rid aid. same_attempt s rid aid \<and> length rid = 16 \<and>
      prepared st token_id psk until calm i [Some (BodyRegistration (Some (MsgPrepared rid aid)))] rid aid w))
    (receive_within (world_calls st) h what)
    (\<lambda>m w. wd_disk w = Some s \<and> (\<exists>rid aid. m = Some (BodyRegistration (Some (MsgPrepared rid aid))) \<and> same_attempt s rid aid \<and>
      length rid = 16 \<and> prepared st token_id psk until calm i [] rid aid w))
    (\<lambda>err w. system_inv st token_id psk until calm w \<and> \<not> calm)"
proof (rule receive_step [where calm = calm])
  fix w
  assume w: "wd_disk w = Some s \<and> (\<exists>rid aid. same_attempt s rid aid \<and> length rid = 16 \<and>
      prepared st token_id psk until calm i [Some (BodyRegistration (Some (MsgPrepared rid aid)))] rid aid w)"
  then show "wd_disk (snd (tick w)) = Some s \<and> (\<exists>rid aid. same_attempt s rid aid \<and> length rid = 16 \<and>
      prepared st token_id psk until calm i [Some (BodyRegistration (Some (MsgPrepared rid aid)))] rid aid (snd (tick w)))"
    by simp (meson tick_prepared)
  show "case wd_stream w of
      Some q \<Rightarrow> (case rs_inbox q of m # ms \<Rightarrow> wd_disk (w\<lparr>wd_stream := Some (q\<lparr>rs_inbox := ms\<rparr>)\<rparr>) = Some s \<and>
        (\<exists>rid aid. m = Some (BodyRegistration (Some (MsgPrepared rid aid))) \<and> same_attempt s rid aid \<and>
          length rid = 16 \<and> prepared st token_id psk until calm i [] rid aid (w\<lparr>wd_stream := Some (q\<lparr>rs_inbox := ms\<rparr>)\<rparr>)) | [] \<Rightarrow> False)
    | None \<Rightarrow> False"
    using w by (auto simp: prepared_def)
qed (use tick_calm prepared_inv in metis)+

lemma send_request_triple:
  assumes "setting_ok st" "parse_registration_credential token = Inr (token_id, psk)"
  shows "triple (\<lambda>w. system_inv st token_id psk until calm w \<and> wd_disk w = Some s \<and> enrolling st token_id psk until s (wd_db w) \<and>
      wd_stream w = Some \<lparr>rs_token_id = token_id, rs_peer_key = agent_key (identity_of s), rs_phase = AwaitRequest, rs_inbox = []\<rparr>)
    (send_registration_request (world_calls st) XxHandle token)
    (\<lambda>(rid, aid) w. wd_disk w = Some s \<and> same_attempt s rid aid \<and> length rid = 16 \<and>
      prepared st token_id psk until calm (identity_of s) [] rid aid w)
    (\<lambda>err w. system_inv st token_id psk until calm w \<and> \<not> calm)"
  unfolding send_registration_request_def
proof (rule triple_and_do [OF request_step [OF assms]], rule triple_and_do [OF prepared_receive])
  fix m :: "unit secure_message"
  show "triple (\<lambda>w. wd_disk w = Some s \<and> (\<exists>rid aid. m = Some (BodyRegistration (Some (MsgPrepared rid aid))) \<and> same_attempt s rid aid \<and>
      length rid = 16 \<and> prepared st token_id psk until calm (identity_of s) [] rid aid w))
    (case m of Some (BodyRegistration (Some (MsgPrepared registration_id agent_id))) \<Rightarrow> return_ok (registration_id, agent_id)
     | Some (BodyError code text) \<Rightarrow> fail_with (TransportRemoteSecure (secure_error_code_of code) text)
     | _ \<Rightarrow> fail_with (TransportProtocol ''expected encrypted RegistrationPrepared''))
    (\<lambda>(rid, aid) w. wd_disk w = Some s \<and> same_attempt s rid aid \<and> length rid = 16 \<and>
      prepared st token_id psk until calm (identity_of s) [] rid aid w)
    (\<lambda>err w. system_inv st token_id psk until calm w \<and> \<not> calm)"
    by (auto simp: triple_def return_ok_def)
qed


lemma commit_prepared:
  assumes "prepared st token_id psk until calm i inbox rid aid w"
    and "wd_disk w = Some (RegistrationPending aid i (pinned_new (server_key st)) rid)"
  shows "\<exists>db. commit_agent_registration (wd_now w) \<lparr>pa_registration_id = rid, pa_agent_id = aid\<rparr> (wd_db w) = (Inr (), db) \<and>
    enrolled (agent_key i) aid db \<and> registry_ok db"
proof -
  obtain r where adm: "admissible token_id psk until (agent_key i) r (wd_db w)"
    and ids: "rg_registration_id r = rid" "rg_reserved_agent_id r = aid"
    using assms(1) by (auto simp: prepared_def)
  have inv: "registry_ok (wd_db w)" "wd_now w < until"
    using assms(1) now_until by (auto simp: prepared_def system_inv_def)
  obtain db where com: "commit_agent_registration (wd_now w) \<lparr>pa_registration_id = rid, pa_agent_id = aid\<rparr> (wd_db w) = (Inr (), db)"
    using commit_bound [OF inv(1) _ inv(2), of token_id psk "agent_key i" r] adm ids by (auto simp: admissible_def)
  have r: "r \<in> set (db_registrations (wd_db w))" "\<not> is_committed r" "rg_agent_public_key r = agent_key i"
    using adm by (auto simp: admissible_def bound_def is_committed_def)
  have found: "find_registration rid (wd_db w) = Some r" using inv(1) r ids by (simp add: find_registration_iff)
  have db: "db = commit_result (wd_now w) r (wd_db w)"
    using inv(1) com by (rule commit_cases) (use found r in auto)
  have "enrolled (agent_key i) aid db"
    using r ids by (simp add: db enrolled_def commit_result_def activated_row_def)
  then show ?thesis using com commit_ok [OF inv(1) com] by blast
qed


lemma prepare_triple:
  assumes "setting_ok st" "parse_registration_credential token = Inr (token_id, psk)"
    "validate_registration_token_id token_id = Inr ()" "length psk = registration_psk_bytes"
  shows "triple (\<lambda>w. system_inv st token_id psk until calm w \<and> wd_disk w = Some s \<and> enrolling st token_id psk until s (wd_db w))
    (prepare_registration_with_token_id (world_calls st) (identity_of s) psk token_id token)
    (\<lambda>p w. wd_disk w = Some s \<and> same_attempt s (ap_registration_id p) (ap_agent_id p) \<and> ap_agent_identity p = identity_of s \<and>
      ap_server_public_key p = server_key st \<and> ap_session p = XxHandle \<and>
      prepared st token_id psk until calm (identity_of s) [] (ap_registration_id p) (ap_agent_id p) w)
    (\<lambda>err w. system_inv st token_id psk until calm w \<and> \<not> calm)"
  unfolding prepare_registration_with_token_id_def assms(3)
  apply (rule triple_and_do [OF triple_of_result [OF conjI [OF refl]]], assumption)
  apply (rule triple_and_do [OF open_registration_step [OF assms(3,4)]])
  subgoal for _ x
    apply (rule triple_fact [where X = "x = (XxHandle, server_key st)"], force)
    apply (auto intro!: triple_and_do [OF triple_pre [OF send_request_triple [OF assms(1,2)]]])
    apply (auto simp: triple_def return_ok_def)
    done
  done

lemma save_pending_step:
  "triple (\<lambda>w. prepared st token_id psk until calm i [] rid aid w)
    (save_agent_state (world_calls st) (RegistrationPending aid i (pinned_new (server_key st)) rid))
    (\<lambda>_ w. wd_disk w = Some (RegistrationPending aid i (pinned_new (server_key st)) rid) \<and>
      prepared st token_id psk until calm i [] rid aid w)
    (\<lambda>err w. system_inv st token_id psk until calm w \<and> \<not> calm)"
  unfolding save_agent_state_def world_calls_simps
proof (rule triple_map_err, rule triple_call [where calm = calm])
  fix w assume "prepared st token_id psk until calm i [] rid aid w"
  then have "prepared st token_id psk until calm i [] rid aid
      (w\<lparr>wd_disk := Some (RegistrationPending aid i (pinned_new (server_key st)) rid)\<rparr>)"
    by (auto simp: prepared_def system_inv_def)
  then show "case (Inr (), w\<lparr>wd_disk := Some (RegistrationPending aid i (pinned_new (server_key st)) rid)\<rparr>) of
      (Inr x, w) \<Rightarrow> (wd_disk w = Some (RegistrationPending aid i (pinned_new (server_key st)) rid) \<and>
         prepared st token_id psk until calm i [] rid aid w) \<and>
       (\<not> calm \<longrightarrow> system_inv st token_id psk until calm w \<and> \<not> calm) | (Inl e', w') \<Rightarrow> False"
    using prepared_inv by auto
qed (use tick_prepared tick_calm prepared_inv in metis)+

text \<open>The Server has admitted the Agent, and these messages are on their way to it.\<close>

definition admitted ::
  "setting \<Rightarrow> string \<Rightarrow> bytes \<Rightarrow> int \<Rightarrow> bool \<Rightarrow> noise_identity \<Rightarrow> unit secure_message list \<Rightarrow> string \<Rightarrow> world \<Rightarrow> bool" where
  "admitted st token_id psk until calm i inbox aid w \<longleftrightarrow> system_inv st token_id psk until calm w \<and>
     enrolled (agent_key i) aid (wd_db w) \<and> (\<exists>q. wd_stream w = Some q \<and> rs_inbox q = inbox)"

lemma tick_admitted: "admitted st token_id psk until calm i inbox aid w \<Longrightarrow> admitted st token_id psk until calm i inbox aid (snd (tick w))"
  by (auto simp: admitted_def tick_inv)

lemma admitted_inv: "admitted st token_id psk until calm i inbox aid w \<Longrightarrow> system_inv st token_id psk until calm w"
  by (simp add: admitted_def)

lemma commit_step:
  "triple (\<lambda>w. wd_disk w = Some (RegistrationPending aid i (pinned_new (server_key st)) rid) \<and>
      prepared st token_id psk until calm i [] rid aid w)
    (send_call (world_calls st) XxHandle (Some (BodyRegistration (Some (MsgCommit rid)))))
    (\<lambda>_ w. admitted st token_id psk until calm i [Some (BodyRegistration (Some (MsgCommitted rid)))] aid w)
    (\<lambda>err w. system_inv st token_id psk until calm w \<and> \<not> calm)"
  unfolding world_calls_simps
proof (rule triple_call [where calm = calm])
  fix w
  assume w: "wd_disk w = Some (RegistrationPending aid i (pinned_new (server_key st)) rid) \<and>
      prepared st token_id psk until calm i [] rid aid w"
  then obtain db where com: "commit_agent_registration (wd_now w) \<lparr>pa_registration_id = rid, pa_agent_id = aid\<rparr> (wd_db w) = (Inr (), db)"
    and db: "enrolled (agent_key i) aid db" "registry_ok db"
    using commit_prepared by blast
  have "progress st token_id psk until (wd_disk w) db" using w db(1) by simp
  then have inv: "system_inv st token_id psk until calm (w\<lparr>wd_db := db, wd_drawn := Suc (wd_drawn w), wd_stream := x\<rparr>)" for x
    using w db system_inv_db prepared_inv by blast
  show "case world_send st XxHandle (Some (BodyRegistration (Some (MsgCommit rid)))) w of
      (Inr x, w') \<Rightarrow> admitted st token_id psk until calm i [Some (BodyRegistration (Some (MsgCommitted rid)))] aid w' \<and>
        (\<not> calm \<longrightarrow> system_inv st token_id psk until calm w' \<and> \<not> calm)
    | (Inl e', w') \<Rightarrow> False"
    using w com db(1) inv
    by (auto simp: world_send_def prepared_def receive_and_commit_registration_def receive_registration_commit_def admitted_def)
qed (use tick_prepared tick_calm prepared_inv tick_frame(1) in metis)+

lemma committed_receive:
  "triple (admitted st token_id psk until calm i [m] aid) (receive_within (world_calls st) h what)
    (\<lambda>r w. r = m \<and> admitted st token_id psk until calm i [] aid w)
    (\<lambda>err w. system_inv st token_id psk until calm w \<and> \<not> calm)"
proof (rule receive_step [where calm = calm])
  fix w assume "admitted st token_id psk until calm i [m] aid w"
  then show "case wd_stream w of
      Some q \<Rightarrow> (case rs_inbox q of m' # ms \<Rightarrow> m' = m \<and> admitted st token_id psk until calm i [] aid
        (w\<lparr>wd_stream := Some (q\<lparr>rs_inbox := ms\<rparr>)\<rparr>) | [] \<Rightarrow> False) | None \<Rightarrow> False"
    by (auto simp: admitted_def)
qed (use tick_admitted tick_calm admitted_inv in metis)+


lemma save_registered_step:
  "triple (admitted st token_id psk until calm i [] aid)
    (save_agent_state (world_calls st) (Registered aid i (pinned_new (server_key st)) rid))
    (\<lambda>_ w. system_inv st token_id psk until calm w \<and> wd_disk w = Some (Registered aid i (pinned_new (server_key st)) rid))
    (\<lambda>err w. system_inv st token_id psk until calm w \<and> \<not> calm)"
  unfolding save_agent_state_def world_calls_simps
proof (rule triple_map_err, rule triple_call [where calm = calm])
  fix w assume "admitted st token_id psk until calm i [] aid w"
  then show "case (Inr (), w\<lparr>wd_disk := Some (Registered aid i (pinned_new (server_key st)) rid)\<rparr>) of
      (Inr x, w) \<Rightarrow> (system_inv st token_id psk until calm w \<and> wd_disk w = Some (Registered aid i (pinned_new (server_key st)) rid)) \<and>
       (\<not> calm \<longrightarrow> system_inv st token_id psk until calm w \<and> \<not> calm) | (Inl e', w') \<Rightarrow> False"
    by (auto simp: admitted_def system_inv_def)
qed (use tick_admitted tick_calm admitted_inv in metis)+

lemma commit_triple:
  assumes "ap_session p = XxHandle" "ap_registration_id p = rid"
  shows "triple (\<lambda>w. wd_disk w = Some (RegistrationPending aid i (pinned_new (server_key st)) rid) \<and>
      prepared st token_id psk until calm i [] rid aid w)
    (send_registration_commit_and_receive_committed (world_calls st) p)
    (\<lambda>_ w. admitted st token_id psk until calm i [] aid w)
    (\<lambda>err w. system_inv st token_id psk until calm w \<and> \<not> calm)"
  unfolding send_registration_commit_and_receive_committed_def assms
  by (intro triple_and_do [OF commit_step] triple_and_do [OF committed_receive] triple_of_result)
    (auto simp: validate_registration_committed_def)

definition joined ::
  "setting \<Rightarrow> string \<Rightarrow> bytes \<Rightarrow> int \<Rightarrow> bool \<Rightarrow> (handle, unit) active_connection \<Rightarrow> world \<Rightarrow> bool" where
  "joined st token_id psk until calm c w \<longleftrightarrow> system_inv st token_id psk until calm w \<and>
     wd_disk w = Some (ac_state c) \<and> stage_of (ac_state c) = StageRegistered"

definition pins :: "setting \<Rightarrow> persisted_agent_state \<Rightarrow> bool" where
  "pins st s \<longleftrightarrow> server_key_snapshot s \<in> {None, Some (pinned_new (server_key st))}"

lemma progress_pins: "progress st token_id psk until (Some s) db \<Longrightarrow> pins st s"
  by (cases s) (auto simp: pins_def)

lemma same_pending:
  assumes "pins st s" "same_attempt s rid aid"
  shows "(if stage_of s = StageRegistrationPending
          then verify_same_pending s (registration_pending aid (identity_of s) (server_key st) rid) else Inr ()) = Inr ()"
  using assms by (cases s) (auto simp: pins_def same_attempt_def verify_same_pending_def registration_pending_def)

lemma finish_registration:
  assumes "pins st s" "same_attempt s (ap_registration_id p) (ap_agent_id p)" "ap_agent_identity p = identity_of s"
    "ap_server_public_key p = server_key st" "ap_session p = XxHandle"
  shows "triple (\<lambda>w. prepared st token_id psk until calm (identity_of s) [] (ap_registration_id p) (ap_agent_id p) w)
    (let pending_state = registration_pending (ap_agent_id p) (ap_agent_identity p) (ap_server_public_key p) (ap_registration_id p)
     in and_do (of_result (if stage_of s = StageRegistrationPending then verify_same_pending s pending_state else Inr ())) (\<lambda>_.
        and_do (save_agent_state (world_calls st) pending_state) (\<lambda>_.
        and_do (map_err ClientTransport (send_registration_commit_and_receive_committed (world_calls st) p)) (\<lambda>_.
        and_do (of_result (map_sum (\<lambda>_. ClientStateStore ''state'') id (registered_from_pending pending_state))) (\<lambda>registered.
        and_do (save_agent_state (world_calls st) registered) (\<lambda>_.
          return_ok \<lparr>ac_state = registered, ac_running = ap_session p, ac_mode = RegistrationXxPsk3, ac_buffered_events = []\<rparr>))))))
    (joined st token_id psk until calm)
    (\<lambda>err w. system_inv st token_id psk until calm w \<and> \<not> calm)"
  unfolding Let_def assms(3,4) same_pending [OF assms(1,2)] unfolding registration_pending_def
  apply (simp only: registered_from_pending.simps map_sum_Inr and_do_result)
  apply (rule triple_and_do [OF save_pending_step])
  apply (rule triple_and_do, rule triple_map_err, rule commit_triple [OF assms(5) refl])
  apply (rule triple_and_do [OF save_registered_step])
  apply (rule triple_return)
  apply (auto simp: joined_def)
  done


lemma register_triple:
  assumes "setting_ok st" "cc_registration_token config = Some token" "parse_registration_credential token = Inr (token_id, psk)"
  shows "triple (\<lambda>w. system_inv st token_id psk until calm w \<and> wd_disk w = Some s \<and> enrolling st token_id psk until s (wd_db w))
    (register config (world_calls st) s) (joined st token_id psk until calm)
    (\<lambda>err w. system_inv st token_id psk until calm w \<and> \<not> calm)"
proof -
  have v: "validate_registration_token_id token_id = Inr ()" "length psk = registration_psk_bytes"
    using parse_credential_sound [OF assms(3)] by (simp_all add: registration_psk_bytes_def)
  show ?thesis
    unfolding register_def assms(2,3) option.case map_sum_Inr and_do_result prod.case
    apply (rule triple_fact [where X = "pins st s"])
     apply (auto simp: enrolling_def intro: progress_pins)[1]
    apply (rule triple_and_do, rule triple_map_err, rule prepare_triple [OF assms(1,3) v])
    subgoal for p
      apply (rule triple_fact [where X = "same_attempt s (ap_registration_id p) (ap_agent_id p) \<and> ap_agent_identity p = identity_of s \<and>
        ap_server_public_key p = server_key st \<and> ap_session p = XxHandle"], blast)
      apply (rule triple_pre [OF finish_registration], auto)
      done
    done
qed


section \<open>A session of a known Agent\<close>

definition known :: "persisted_agent_state \<Rightarrow> registry_db \<Rightarrow> bool" where
  "known s db \<longleftrightarrow> (case agent_id_of s of None \<Rightarrow> False | Some a \<Rightarrow> enrolled (agent_key (identity_of s)) a db)"

lemma enrolled_authorized:
  assumes "registry_ok db" "enrolled key a db"
  shows "find_agent_authorization key db = Authorized a" "is_agent_active a db"
proof -
  obtain r where r: "r \<in> set (db_agents db)" "ag_agent_id r = a" "ag_public_key r = key" "ag_status r = ''active''" "ag_revoked_at r = None"
    using assms(2) by (auto simp: enrolled_def)
  have "find (\<lambda>q. ag_public_key q = key) (db_agents db) = Some r" "find (\<lambda>q. ag_agent_id q = a) (db_agents db) = Some r"
    using r assms(1) find_unique [of ag_public_key "db_agents db" key r] find_unique [of ag_agent_id "db_agents db" a r]
    by (simp_all add: registry_ok_def keys_unique_def)
  with r show "find_agent_authorization key db = Authorized a" "is_agent_active a db"
    by (simp_all add: find_agent_authorization_def parse_agent_status_def is_agent_active_def find_agent_row_def)
qed

lemma stranger_rejected:
  assumes "key \<notin> ag_public_key ` set (db_agents db)"
  shows "handle_authorization_session key db = Inl (rejection (SecureAgentNotAuthorized, ''agent is not authorized''))"
proof -
  have "find (\<lambda>a. ag_public_key a = key) (db_agents db) = None" using assms by (auto simp: find_None_iff)
  then show ?thesis by (simp add: handle_authorization_session_def authorize_agent_def find_agent_authorization_def)
qed

lemma progress_authorization:
  assumes "registry_ok db" "progress st token_id psk until (Some s) db" "stage_of s \<noteq> StageIdentityPrepared"
  obtains (known) a where "known s db" "is_agent_active a db"
      "handle_authorization_session (agent_key (identity_of s)) db = (Inr a :: unit secure_message + string)"
  | (pending) "enrolling st token_id psk until s db" "handle_authorization_session (agent_key (identity_of s)) db =
      Inl (rejection (SecureAgentNotAuthorized, ''agent is not authorized'') :: unit secure_message)"
proof (cases "known s db")
  case True
  then obtain a where "enrolled (agent_key (identity_of s)) a db" by (auto simp: known_def split: option.splits)
  then have "is_agent_active a db" "handle_authorization_session (agent_key (identity_of s)) db = (Inr a :: unit secure_message + string)"
    using assms(1) enrolled_authorized by (simp_all add: handle_authorization_session_def authorize_agent_def)
  with True show thesis by (rule known)
next
  case False
  then have "enrolling st token_id psk until s db" "agent_key (identity_of s) \<notin> ag_public_key ` set (db_agents db)"
    using assms(2,3) by (cases s; auto simp: known_def enrolling_def admissible_def)+
  then show thesis using stranger_rejected pending by blast
qed


lemma one_candidate: "connect_with_candidates calls i [k] = and_do (connect_ik_call calls i k) (\<lambda>h. return_ok (h, k))"
  by (rule ext) (simp add: connect_with_candidates_def and_do_def return_ok_def split: prod.splits sum.splits)

lemma accept_current:
  assumes "setting_ok st"
  shows "accept_ik (sx_blake st) (sx_ring st) (kid_bytes (key_id_of (sx_blake st) (server_key st))) = Inr (sk_current (sx_ring st))"
  using assms
  by (simp add: accept_ik_def server_key_def setting_ok_def find_active_def active_keys_def key_id_of_def key_id_from_bytes_def)

definition reaching :: "setting \<Rightarrow> string \<Rightarrow> bytes \<Rightarrow> int \<Rightarrow> bool \<Rightarrow> persisted_agent_state \<Rightarrow> world \<Rightarrow> bool" where
  "reaching st token_id psk until calm s w \<longleftrightarrow> system_inv st token_id psk until calm w \<and> wd_disk w = Some s \<and>
     stage_of s \<noteq> StageIdentityPrepared"

lemma tick_reaching: "reaching st token_id psk until calm s w \<Longrightarrow> reaching st token_id psk until calm s (snd (tick w))"
  by (simp add: reaching_def tick_inv)

lemma reaching_inv: "reaching st token_id psk until calm s w \<Longrightarrow> system_inv st token_id psk until calm w"
  by (simp add: reaching_def)

lemma reaching_works: "reaching st token_id psk until True s w \<Longrightarrow> fst (tick w) = Works"
  using tick_calm reaching_inv by blast

lemma connect_step:
  assumes "setting_ok st"
  shows "triple (reaching st token_id psk until calm s)
    (connect_with_candidates (world_calls st) (identity_of s) (server_key_candidates s))
    (\<lambda>(h, key) w. reaching st token_id psk until calm s w \<and> h = IkHandle (agent_key (identity_of s)) \<and> key = server_key st)
    (\<lambda>err w. reaching st token_id psk until calm s w \<and> \<not> calm \<and> err = TransportClosed)"
proof (rule triple_fact)
  assume "server_key_candidates s = [server_key st]"
  then show ?thesis
    apply (simp only: one_candidate world_calls_simps)
    apply (rule triple_and_do [where R = "\<lambda>h w. reaching st token_id psk until calm s w \<and> h = IkHandle (agent_key (identity_of s))"])
     apply (rule triple_call [where calm = calm])
    using accept_current [OF assms]
        apply (auto simp: world_connect_ik_def agent_key_def server_key_def tick_reaching reaching_works intro: triple_return)
    done
next
  fix w assume "reaching st token_id psk until calm s w"
  then have "progress st token_id psk until (Some s) (wd_db w)" "stage_of s \<noteq> StageIdentityPrepared"
    by (auto simp: reaching_def system_inv_def)
  then show "server_key_candidates s = [server_key st]"
    by (cases s) (auto simp: server_key_candidates_def snapshot_candidates_def pinned_new_def)
qed


definition welcomed :: "setting \<Rightarrow> string \<Rightarrow> bytes \<Rightarrow> int \<Rightarrow> bool \<Rightarrow> persisted_agent_state \<Rightarrow> world \<Rightarrow> bool" where
  "welcomed st token_id psk until calm s w \<longleftrightarrow> reaching st token_id psk until calm s w \<and> known s (wd_db w)"

definition refused :: "setting \<Rightarrow> string \<Rightarrow> bytes \<Rightarrow> int \<Rightarrow> bool \<Rightarrow> persisted_agent_state \<Rightarrow> client_error \<Rightarrow> world \<Rightarrow> bool" where
  "refused st token_id psk until calm s err w \<longleftrightarrow> reaching st token_id psk until calm s w \<and>
     (if is_agent_not_authorized err then enrolling st token_id psk until s (wd_db w) else \<not> calm)"

lemma signals_step:
  assumes "reaching st token_id psk until calm s w"
  shows "case verification (fst (world_signals (IkHandle (agent_key (identity_of s))) w)) [] of
      Inr _ \<Rightarrow> welcomed st token_id psk until calm s (snd (world_signals (IkHandle (agent_key (identity_of s))) w))
    | Inl err \<Rightarrow> refused st token_id psk until calm s err (snd (world_signals (IkHandle (agent_key (identity_of s))) w))"
proof -
  obtain f w' where t: "tick w = (f, w')" by fastforce
  then have w': "reaching st token_id psk until calm s w'" "f \<noteq> Works \<longrightarrow> \<not> calm"
    using tick_reaching [OF assms] tick_calm [OF reaching_inv [OF assms]] by auto
  then have "registry_ok (wd_db w')" "progress st token_id psk until (Some s) (wd_db w')" "stage_of s \<noteq> StageIdentityPrepared"
    by (auto simp: reaching_def system_inv_def)
  then show ?thesis
    by (cases rule: progress_authorization; cases f)
      (use t w' in \<open>auto simp: world_signals_def welcomed_def refused_def rejection_def session_event_of_def
        simp del: secure_error_number.simps\<close>)
qed

lemma verify_step:
  "triple (reaching st token_id psk until calm s)
    (verify_authorized_session (world_calls st) (IkHandle (agent_key (identity_of s))))
    (\<lambda>_. welcomed st token_id psk until calm s) (refused st token_id psk until calm s)"
  unfolding verify_authorized_session_def world_calls_simps
  apply (rule triple_and_do [where R = "\<lambda>_. reaching st token_id psk until calm s"])
   apply (rule triple_map_err, rule triple_call [where calm = calm])
      apply (auto simp: refused_def tick_reaching reaching_works)[4]
  unfolding triple_def
proof (intro allI impI)
  fix w assume "reaching st token_id psk until calm s w"
  obtain signals w' where "world_signals (IkHandle (agent_key (identity_of s))) w = (signals, w')" by fastforce
  with signals_step [OF \<open>reaching st token_id psk until calm s w\<close>]
  show "case case world_signals (IkHandle (agent_key (identity_of s))) w of (signals, w) \<Rightarrow>
        (case verification signals [] of Inr buffered \<Rightarrow> (Inr (IkHandle (agent_key (identity_of s)), buffered), w)
         | Inl err \<Rightarrow> (Inl err, w)) of
      (Inr _, w') \<Rightarrow> welcomed st token_id psk until calm s w' | (Inl err, w') \<Rightarrow> refused st token_id psk until calm s err w'"
    by (auto simp: world_calls_simps split: sum.splits)
qed

lemma promote_none:
  assumes "pins st s"
  shows "promote_connected_key calls s key = return_ok s"
  using assms by (auto simp: promote_connected_key_def pins_def pinned_new_def split: option.splits)

lemma connect_triple:
  assumes "setting_ok st"
  shows "triple (reaching st token_id psk until calm s) (connect_registered (world_calls st) s)
    (\<lambda>c w. welcomed st token_id psk until calm s w \<and> ac_state c = s) (refused st token_id psk until calm s)"
proof (rule triple_fact)
  fix w assume "reaching st token_id psk until calm s w"
  then show "pins st s" by (auto simp: reaching_def system_inv_def intro: progress_pins)
next
  assume p: "pins st s"
  show ?thesis
    unfolding connect_registered_def promote_none [OF p]
    apply (rule triple_and_do [where R = "\<lambda>(h, key) w. reaching st token_id psk until calm s w \<and> h = IkHandle (agent_key (identity_of s)) \<and> key = server_key st"])
     apply (rule triple_map_err)
     apply (rule triple_weaken [OF connect_step [OF assms]], assumption)
     apply (auto simp: refused_def)[1]
    subgoal for x
      apply (rule triple_fact [where X = "x = (IkHandle (agent_key (identity_of s)), server_key st)"], force)
      apply simp
      apply (rule triple_and_do [OF verify_step])
      apply (auto simp: and_do_def return_ok_def triple_def)
      done
    done
qed


lemma save_recovered_step:
  assumes "s = RegistrationPending a i k rid"
  shows "triple (welcomed st token_id psk until calm s) (save_agent_state (world_calls st) (Registered a i k rid))
    (\<lambda>_ w. system_inv st token_id psk until calm w \<and> wd_disk w = Some (Registered a i k rid))
    (\<lambda>err w. system_inv st token_id psk until calm w \<and> \<not> calm)"
  unfolding save_agent_state_def world_calls_simps
proof (rule triple_map_err, rule triple_call [where calm = calm])
  fix w assume "welcomed st token_id psk until calm s w"
  then show "case (Inr (), w\<lparr>wd_disk := Some (Registered a i k rid)\<rparr>) of
      (Inr x, w) \<Rightarrow> (system_inv st token_id psk until calm w \<and> wd_disk w = Some (Registered a i k rid)) \<and>
       (\<not> calm \<longrightarrow> system_inv st token_id psk until calm w \<and> \<not> calm) | (Inl e', w') \<Rightarrow> False"
    using assms by (auto simp: welcomed_def reaching_def known_def system_inv_def)
qed (auto simp: welcomed_def known_def tick_reaching reaching_works reaching_inv split: option.splits)

lemma recover_triple:
  assumes "setting_ok st" "cc_registration_token config = Some token" "parse_registration_credential token = Inr (token_id, psk)"
    and "s = RegistrationPending a i k rid"
  shows "triple (\<lambda>w. system_inv st token_id psk until calm w \<and> wd_disk w = Some s) (recover_pending config (world_calls st) s)
    (joined st token_id psk until calm) (\<lambda>err w. system_inv st token_id psk until calm w \<and> \<not> calm)"
  unfolding triple_def
proof (intro allI impI)
  fix w assume "system_inv st token_id psk until calm w \<and> wd_disk w = Some s"
  then have w: "reaching st token_id psk until calm s w" using assms(4) by (simp add: reaching_def)
  obtain r w' where r: "connect_registered (world_calls st) s w = (r, w')" by fastforce
  note c = tripleD [OF connect_triple [OF assms(1)] w, unfolded r prod.case]
  show "case recover_pending config (world_calls st) s w of
      (Inr c, w') \<Rightarrow> joined st token_id psk until calm c w' | (Inl err, w') \<Rightarrow> system_inv st token_id psk until calm w' \<and> \<not> calm"
  proof (cases r)
    case (Inl err)
    then have "refused st token_id psk until calm s err w'" using c by simp
    then show ?thesis
      using Inl r tripleD [OF register_triple [OF assms(1-3), of until calm s], of w']
      by (auto simp: recover_pending_def refused_def reaching_def split: if_splits)
  next
    case (Inr connection)
    then have "welcomed st token_id psk until calm s w'" "ac_state connection = s" using c by auto
    then show ?thesis
      using Inr r assms(4) tripleD [OF save_recovered_step [OF assms(4)], of st token_id psk until calm w']
      by (auto simp: recover_pending_def map_sum_Inr and_do_result and_do_def return_ok_def joined_def split: prod.splits sum.splits)
  qed
qed

lemma generate_step:
  "triple (\<lambda>w. system_inv st token_id psk until calm w \<and> wd_disk w = None) (map_err ClientNoise (generate_call (world_calls st)))
    (\<lambda>i w. system_inv st token_id psk until calm w \<and> wd_disk w = None \<and> i \<in> range (sx_identities st))
    (\<lambda>err w. system_inv st token_id psk until calm w \<and> \<not> calm)"
  unfolding world_calls_simps
  by (rule triple_map_err, rule triple_call [where calm = calm])
    (auto simp: tick_inv tick_calm, auto simp: system_inv_def)

lemma new_identity:
  assumes "new_identities st db" "\<not> list_ex (\<lambda>r. rg_token_id r = token_id) (db_registrations db)"
  shows "unbound token_id (agent_key (sx_identities st m)) db" "agent_key (sx_identities st m) \<notin> ag_public_key ` set (db_agents db)"
  using assms unfolding new_identities_def unbound_def list_ex_iff by (metis imageI)+

lemma save_identity_step:
  "triple (\<lambda>w. system_inv st token_id psk until calm w \<and> wd_disk w = None \<and> i \<in> range (sx_identities st))
    (save_agent_state (world_calls st) (IdentityPrepared i))
    (\<lambda>_ w. system_inv st token_id psk until calm w \<and> wd_disk w = Some (IdentityPrepared i))
    (\<lambda>err w. system_inv st token_id psk until calm w \<and> \<not> calm)"
  unfolding save_agent_state_def world_calls_simps
proof (rule triple_map_err, rule triple_call [where calm = calm])
  fix w assume w: "system_inv st token_id psk until calm w \<and> wd_disk w = None \<and> i \<in> range (sx_identities st)"
  then obtain m where i: "i = sx_identities st m" by blast
  have new: "new_identities st (wd_db w)" "\<not> list_ex (\<lambda>r. rg_token_id r = token_id) (db_registrations (wd_db w))"
    using w by (auto simp: system_inv_def)
  have "system_inv st token_id psk until calm (w\<lparr>wd_disk := Some (IdentityPrepared i)\<rparr>)"
    using w new_identity [OF new, of m] by (auto simp: system_inv_def i)
  then show "case (Inr (), w\<lparr>wd_disk := Some (IdentityPrepared i)\<rparr>) of
      (Inr x, w) \<Rightarrow> (system_inv st token_id psk until calm w \<and> wd_disk w = Some (IdentityPrepared i)) \<and>
       (\<not> calm \<longrightarrow> system_inv st token_id psk until calm w \<and> \<not> calm) | (Inl e', w') \<Rightarrow> False"
    by auto
qed (auto simp: tick_inv tick_calm)

lemma load_triple:
  "triple (system_inv st token_id psk until calm) (load_or_create (world_calls st))
    (\<lambda>s w. system_inv st token_id psk until calm w \<and> wd_disk w = Some s)
    (\<lambda>err w. system_inv st token_id psk until calm w \<and> \<not> calm)"
  unfolding load_or_create_def
proof (rule triple_and_do)
  show "triple (system_inv st token_id psk until calm) (map_err ClientStateStore (load_call (world_calls st)))
      (\<lambda>s w. system_inv st token_id psk until calm w \<and> wd_disk w = s)
      (\<lambda>err w. system_inv st token_id psk until calm w \<and> \<not> calm)"
    unfolding world_calls_simps
    by (rule triple_map_err, rule triple_call [where calm = calm]) (auto simp: tick_inv tick_calm)
  show "triple (\<lambda>w. system_inv st token_id psk until calm w \<and> wd_disk w = s)
      (case s of Some state \<Rightarrow> return_ok state
       | None \<Rightarrow> and_do (map_err ClientNoise (generate_call (world_calls st))) (\<lambda>identity.
           and_do (save_agent_state (world_calls st) (IdentityPrepared identity)) (\<lambda>_. return_ok (IdentityPrepared identity))))
      (\<lambda>s w. system_inv st token_id psk until calm w \<and> wd_disk w = Some s)
      (\<lambda>err w. system_inv st token_id psk until calm w \<and> \<not> calm)" for s
    by (cases s)
      (auto intro!: triple_return triple_and_do [OF generate_step] triple_and_do [OF save_identity_step])
qed

lemma establish_triple:
  assumes "setting_ok st" "cc_registration_token config = Some token" "parse_registration_credential token = Inr (token_id, psk)"
  shows "triple (system_inv st token_id psk until calm) (establish_initial config (world_calls st))
    (joined st token_id psk until calm) (\<lambda>err w. system_inv st token_id psk until calm w \<and> \<not> calm)"
  unfolding establish_initial_def
proof (rule triple_and_do [OF load_triple])
  fix s
  show "triple (\<lambda>w. system_inv st token_id psk until calm w \<and> wd_disk w = Some s)
      (case initial_connection_action_of (stage_of s) of
         ActionRegister \<Rightarrow> register config (world_calls st) s
       | ActionRecoverPending \<Rightarrow> recover_pending config (world_calls st) s
       | ActionConnectRegistered \<Rightarrow> connect_registered (world_calls st) s)
      (joined st token_id psk until calm) (\<lambda>err w. system_inv st token_id psk until calm w \<and> \<not> calm)"
  proof (cases s)
    case (IdentityPrepared i)
    then have "enrolling st token_id psk until s (wd_db w)" if "system_inv st token_id psk until calm w \<and> wd_disk w = Some s" for w
      using that by (auto simp: enrolling_def system_inv_def)
    then show ?thesis using IdentityPrepared triple_pre [OF register_triple [OF assms]] by simp
  next
    case (RegistrationPending a i k rid)
    then show ?thesis using recover_triple [OF assms RegistrationPending] by simp
  next
    case (Registered a i k rid)
    have "triple (reaching st token_id psk until calm s) (connect_registered (world_calls st) s)
        (joined st token_id psk until calm) (\<lambda>err w. system_inv st token_id psk until calm w \<and> \<not> calm)"
      using connect_triple [OF assms(1), of token_id psk until calm s]
      by (rule triple_weaken) (auto simp: welcomed_def refused_def reaching_def joined_def enrolling_def Registered split: if_splits)
    then show ?thesis using Registered by (simp, elim triple_pre) (simp add: reaching_def)
  qed
qed


section \<open>The Agent gets in\<close>

lemma attempts_inv:
  assumes "setting_ok st" "cc_registration_token config = Some token" "parse_registration_credential token = Inr (token_id, psk)"
    and "system_inv st token_id psk until False w"
  shows "system_inv st token_id psk until False (attempts config st n w)"
  using assms(4)
proof (induction n arbitrary: w)
  case (Suc n)
  have "system_inv st token_id psk until False (snd (establish_initial config (world_calls st) w))"
    using tripleD [OF establish_triple [OF assms(1-3)] Suc.prems]
    by (auto simp: joined_def split: prod.splits sum.splits)
  then show ?case using Suc.IH by simp
qed simp

definition first_start :: "setting \<Rightarrow> string \<Rightarrow> bytes \<Rightarrow> int \<Rightarrow> world \<Rightarrow> bool" where
  "first_start st token_id psk until w \<longleftrightarrow> wd_disk w = None \<and> registry_ok (wd_db w) \<and> new_ids st (wd_db w) \<and>
     new_identities st (wd_db w) \<and> token_ready token_id psk until (wd_db w) \<and>
     \<not> list_ex (\<lambda>r. rg_token_id r = token_id) (db_registrations (wd_db w)) \<and>
     until \<le> wd_now w + pending_registration_ttl_micros \<and>
     wd_now w + int (sum_list (map tn_wait (wd_turns w))) < until"

text \<open>
  C4: A registration that was interrupted recovers. An Agent without state that holds the
  credential of an unused token is started any number of times; each of its calls to the disk, the
  random source and the Server may fail before or after its effect, time passes and the cleanup of
  the Server runs in between. As long as all of this stays within the ten minutes an attempt
  lives, and within the life of the token, one more start without a failure ends with a
  connection: the stored state is \<open>Registered\<close> with the key of the Server, and the Server
  authorises the key of the Agent under exactly the identifier the Agent has stored.
\<close>

theorem registration_recovers:
  assumes "setting_ok st" "cc_registration_token config = Some token" "parse_registration_credential token = Inr (token_id, psk)"
    and "first_start st token_id psk until w"
  shows "case establish_initial config (world_calls st) ((attempts config st n w)\<lparr>wd_turns := []\<rparr>) of
      (Inr c, w') \<Rightarrow> wd_disk w' = Some (ac_state c) \<and>
        (case ac_state c of
           Registered a i k rid \<Rightarrow> ps_current k = server_key st \<and> find_agent_authorization (agent_key i) (wd_db w') = Authorized a
         | _ \<Rightarrow> False)
    | (Inl err, w') \<Rightarrow> False"
proof -
  have "system_inv st token_id psk until False w" using assms(4) by (simp add: first_start_def system_inv_def)
  then have "system_inv st token_id psk until False (attempts config st n w)" by (rule attempts_inv [OF assms(1-3)])
  then have "system_inv st token_id psk until True ((attempts config st n w)\<lparr>wd_turns := []\<rparr>)" by (simp add: system_inv_def)
  from tripleD [OF establish_triple [OF assms(1-3)] this]
  obtain c w' where c: "establish_initial config (world_calls st) ((attempts config st n w)\<lparr>wd_turns := []\<rparr>) = (Inr c, w')"
      "joined st token_id psk until True c w'"
    by (auto split: prod.splits sum.splits)
  then obtain a i k rid where s: "ac_state c = Registered a i k rid"
    by (cases "ac_state c") (auto simp: joined_def)
  then show ?thesis using c enrolled_authorized
    by (auto simp: joined_def system_inv_def pinned_new_def)
qed


definition drill_identity :: "u8 \<Rightarrow> noise_identity" where
  "drill_identity b = \<lparr>ni_private_key = replicate 32 b, ni_public_key = NoisePublicKey (replicate 32 b)\<rparr>"

definition drill_setting :: setting where
  "drill_setting = \<lparr>sx_ring = key_ring_new (drill_identity 1), sx_blake = (\<lambda>_. replicate 32 0),
     sx_ids = (\<lambda>n. (replicate 16 (of_nat n), replicate n (CHR ''a''))), sx_identities = (\<lambda>n. drill_identity (of_nat n + 2))\<rparr>"

definition drill_config :: client_config where
  "drill_config = \<lparr>cc_endpoint = ''http://127.0.0.1:12345'', cc_grpc_prefix = None,
     cc_registration_token = Some (credential_of sample_token_id sample_psk), cc_handshake_timeout = from_secs 5,
     cc_heartbeat = default_heartbeat, cc_rekey = default_rekey, cc_driver = default_driver, cc_reconnect = default_reconnect\<rparr>"

definition drill_turn :: "fault \<Rightarrow> turn" where
  "drill_turn f = \<lparr>tn_wait = 1000000, tn_sweep = True, tn_fault = f\<rparr>"

text \<open>The first start loses its reply while it asks for the attempt, the second one dies after the
  pending state is written, the third one after the Server has committed.\<close>

definition drill_world :: world where
  "drill_world = \<lparr>wd_disk = None, wd_db = sample_issued, wd_now = 10,
     wd_turns = map drill_turn [Works, Works, Works, Works, FailsAfter,
       Works, Works, Works, Works, FailsAfter,
       Works, Works, Works, Works, Works, Works, Works, Works, FailsAfter],
     wd_drawn = 0, wd_stream = None\<rparr>"

lemma drill_start: "first_start drill_setting sample_token_id sample_psk 600000010 drill_world"
  by (simp add: first_start_def drill_world_def drill_turn_def new_ids_def new_identities_def sample_issued_def token_ready_def
      find_token_def registry_ok_def keys_unique_def token_row_ok_def is_used_def pending_registration_ttl_micros_def)

theorem registration_recovers_witness:
  "case establish_initial drill_config (world_calls drill_setting) ((attempts drill_config drill_setting 3 drill_world)\<lparr>wd_turns := []\<rparr>) of
      (Inr c, w') \<Rightarrow> wd_disk w' = Some (ac_state c) \<and>
        (case ac_state c of
           Registered a i k rid \<Rightarrow> ps_current k = server_key drill_setting \<and>
             find_agent_authorization (agent_key i) (wd_db w') = Authorized a
         | _ \<Rightarrow> False)
    | (Inl err, w') \<Rightarrow> False"
proof (rule registration_recovers [OF _ _ _ drill_start])
  show "setting_ok drill_setting" by (simp add: setting_ok_def drill_setting_def key_len_def)
  show "cc_registration_token drill_config = Some (credential_of sample_token_id sample_psk)" by (simp add: drill_config_def)
  show "parse_registration_credential (credential_of sample_token_id sample_psk) = Inr (sample_token_id, sample_psk)" by code_simp
qed

end
