(* ===== verification/Registration_Expiry.thy ===== *)
theory Registration_Expiry
  imports Registration_System
begin

text \<open>
  What becomes of an Agent whose attempt has expired on the Server while its state still names
  it: the Server makes a new attempt with new identifiers, the Agent compares them with the stored
  ones and refuses, and the stored state never changes.
\<close>

section \<open>Calls that may all fail\<close>

lemma triple_call_any:
  assumes "\<And>w. P w \<Longrightarrow> P (snd (tick w))"
    and "\<And>w. P w \<Longrightarrow> (case m w of (Inr x, w') \<Rightarrow> Q x w' \<and> I w' | (Inl e', w') \<Rightarrow> I w')" and "\<And>w. P w \<Longrightarrow> I w"
  shows "triple P (call err m) Q (\<lambda>_. I)"
  unfolding triple_def
proof (intro allI impI)
  fix w assume "P w"
  obtain f w' where t: "tick w = (f, w')" by fastforce
  then have "P w'" using assms(1) [OF \<open>P w\<close>] by simp
  then show "case call err m w of (Inr x, w') \<Rightarrow> Q x w' | (Inl err, w') \<Rightarrow> I w'"
    using t assms(2,3) [of w'] by (cases f; cases "m w'"; cases "fst (m w')") (auto simp: call_def)
qed

section \<open>An attempt that is gone\<close>

text \<open>The Agent is not registered, and no attempt in the tables or to come has the identifiers it
  has stored.\<close>

definition lost :: "setting \<Rightarrow> persisted_agent_state \<Rightarrow> registry_db \<Rightarrow> bool" where
  "lost st s db \<longleftrightarrow>
     (case s of
        RegistrationPending a i k rid \<Rightarrow>
          agent_key i \<notin> ag_public_key ` set (db_agents db) \<and>
          (rid, a) \<notin> (\<lambda>r. (rg_registration_id r, rg_reserved_agent_id r)) ` set (db_registrations db) \<and>
          (rid, a) \<notin> range (sx_ids st)
      | _ \<Rightarrow> False)"

definition stranded :: "setting \<Rightarrow> persisted_agent_state \<Rightarrow> world \<Rightarrow> bool" where
  "stranded st s w \<longleftrightarrow> wd_disk w = Some s \<and> lost st s (wd_db w)"

lemma lostE:
  assumes "lost st s db"
  obtains a i k rid where "s = RegistrationPending a i k rid" "agent_key i \<notin> ag_public_key ` set (db_agents db)"
    "(rid, a) \<notin> (\<lambda>r. (rg_registration_id r, rg_reserved_agent_id r)) ` set (db_registrations db)"
    "(rid, a) \<notin> range (sx_ids st)"
  using assms by (cases s) (auto simp: lost_def)

lemma lost_fewer:
  assumes "lost st s db" "set (db_registrations db') \<subseteq> set (db_registrations db)" "db_agents db' = db_agents db"
  shows "lost st s db'"
  using assms by (cases s) (auto simp: lost_def image_iff)

lemma tick_stranded: "stranded st s w \<Longrightarrow> stranded st s (snd (tick w))"
  by (auto simp: stranded_def tick_def Let_def intro: lost_fewer dest: sweep_member split: list.splits)

lemma stranded_frame [simp]: "stranded st s (w\<lparr>wd_stream := x\<rparr>) = stranded st s w"
  by (simp add: stranded_def)

lemma clear_way_fewer: "clear_way now p db = (found, db') \<Longrightarrow> set (db_registrations db') \<subseteq> set (db_registrations db)"
  by (erule clear_way_cases) (auto simp: delete_registration_def)

definition different :: "persisted_agent_state \<Rightarrow> bytes \<Rightarrow> string \<Rightarrow> bool" where
  "different s rid aid \<longleftrightarrow> (case s of RegistrationPending a i k r \<Rightarrow> (r, a) \<noteq> (rid, aid) | _ \<Rightarrow> False)"

lemma lost_different:
  "lost st s db \<Longrightarrow> r \<in> set (db_registrations db) \<Longrightarrow> different s (rg_registration_id r) (rg_reserved_agent_id r)"
  "lost st s db \<Longrightarrow> different s (fst (sx_ids st n)) (snd (sx_ids st n))"
  by (auto simp: different_def lost_def split: persisted_agent_state.splits)

lemma lost_insert:
  assumes "lost st s db" "different s (rg_registration_id r) (rg_reserved_agent_id r)"
  shows "lost st s (db\<lparr>db_registrations := db_registrations db @ [r]\<rparr>)"
  using assms by (cases s) (auto simp: lost_def different_def)

lemma insert_registration_Inr: "insert_registration r db = Inr db' \<Longrightarrow> db' = db\<lparr>db_registrations := db_registrations db @ [r]\<rparr>"
  by (simp add: insert_registration_def split: if_splits)

lemma prepare_lost:
  assumes "prepare_agent_registration now (fst (sx_ids st n)) (snd (sx_ids st n)) t psk key db = (res, db')" "lost st s db"
  shows "lost st s db'" "res = Inr p \<Longrightarrow> different s (pa_registration_id p) (pa_agent_id p)"
proof -
  have "lost st s db' \<and> (res = Inr p \<longrightarrow> different s (pa_registration_id p) (pa_agent_id p))"
    using assms(1)
  proof (cases rule: prepare_cases)
    case (again r)
    then show ?thesis using lost_different(1) [OF assms(2)] assms(2) by auto
  next
    case (fresh token db1 db2)
    have "set (db_registrations db2) \<subseteq> set (db_registrations db)"
      using clear_way_fewer [OF fresh(5)] clear_way_fewer [OF fresh(6)] by blast
    then have "lost st s db2" by (rule lost_fewer [OF assms(2)]) (simp add: clear_way_keeps_agents [OF fresh(6)] clear_way_keeps_agents [OF fresh(5)])
    then have "lost st s db'"
      unfolding insert_registration_Inr [OF fresh(7)] using lost_different(2) [OF assms(2)] by (intro lost_insert) simp_all
    then show ?thesis using fresh(1) lost_different(2) [OF assms(2)] by auto
  qed (use assms in simp)
  then show "lost st s db'" "res = Inr p \<Longrightarrow> different s (pa_registration_id p) (pa_agent_id p)" by simp_all
qed


section \<open>No start gets in\<close>

lemma candidates_stranded:
  "triple (stranded st s) (try_candidates (world_calls st) i latest keys)
    (\<lambda>(h, _) w. stranded st s w \<and> h = IkHandle (agent_key i)) (\<lambda>_. stranded st s)"
proof (induction keys arbitrary: latest)
  case (Cons key keys)
  have step: "triple (stranded st s) (connect_ik_call (world_calls st) i key)
      (\<lambda>h w. stranded st s w \<and> h = IkHandle (agent_key i)) (\<lambda>_. stranded st s)"
    unfolding world_calls_simps
    by (rule triple_call_any) (auto simp: tick_stranded world_connect_ik_def agent_key_def split: sum.splits)
  show ?case
    unfolding triple_def
  proof (intro allI impI)
    fix w assume "stranded st s w"
    obtain r w' where r: "connect_ik_call (world_calls st) i key w = (r, w')" by fastforce
    show "case try_candidates (world_calls st) i latest (key # keys) w of
        (Inr x, w') \<Rightarrow> (case x of (h, _) \<Rightarrow> \<lambda>w. stranded st s w \<and> h = IkHandle (agent_key i)) w' | (Inl err, w') \<Rightarrow> stranded st s w'"
      using tripleD [OF step \<open>stranded st s w\<close>] tripleD [OF Cons.IH, of w'] r by (cases r) auto
  qed
qed (simp add: triple_def)

lemma verify_stranded:
  "triple (stranded st s) (verify_authorized_session (world_calls st) (IkHandle (agent_key (identity_of s))))
    (\<lambda>_ _. False) (\<lambda>_. stranded st s)"
  unfolding verify_authorized_session_def
proof (rule triple_and_do)
  show "triple (stranded st s) (map_err ClientTransport (ping_call (world_calls st) (IkHandle (agent_key (identity_of s)))))
      (\<lambda>_. stranded st s) (\<lambda>_. stranded st s)"
    unfolding world_calls_simps by (rule triple_map_err, rule triple_call_any) (auto simp: tick_stranded)
  show "triple (stranded st s) (\<lambda>w. case signals_call (world_calls st) (IkHandle (agent_key (identity_of s))) w of (signals, w) \<Rightarrow>
         (case verification signals [] of
            Inr buffered \<Rightarrow> (Inr (IkHandle (agent_key (identity_of s)), buffered), w)
          | Inl err \<Rightarrow> (Inl err, stop_call (world_calls st) (IkHandle (agent_key (identity_of s))) w)))
      (\<lambda>_ _. False) (\<lambda>_. stranded st s)"
    unfolding triple_def
  proof (intro allI impI)
    fix w assume "stranded st s w"
    obtain f w' where t: "tick w = (f, w')" by fastforce
    then have w': "stranded st s w'" using tick_stranded [OF \<open>stranded st s w\<close>] by simp
    then have "agent_key (identity_of s) \<notin> ag_public_key ` set (db_agents (wd_db w'))"
      by (auto simp: stranded_def elim!: lostE)
    then have "handle_authorization_session (agent_key (identity_of s)) (wd_db w') =
        Inl (rejection (SecureAgentNotAuthorized, ''agent is not authorized'') :: unit secure_message)"
      by (rule stranger_rejected)
    then show "case case signals_call (world_calls st) (IkHandle (agent_key (identity_of s))) w of (signals, w) \<Rightarrow>
         (case verification signals [] of
            Inr buffered \<Rightarrow> (Inr (IkHandle (agent_key (identity_of s)), buffered), w)
          | Inl err \<Rightarrow> (Inl err, stop_call (world_calls st) (IkHandle (agent_key (identity_of s))) w)) of
        (Inr x, w') \<Rightarrow> False | (Inl err, w') \<Rightarrow> stranded st s w'"
      using t w' by (cases f) (auto simp: world_calls_simps world_signals_def rejection_def session_event_of_def)
  qed
qed

lemma connect_stranded:
  "triple (stranded st s) (connect_registered (world_calls st) s) (\<lambda>_ _. False) (\<lambda>_. stranded st s)"
  unfolding connect_registered_def connect_with_candidates_def
  apply (rule triple_and_do, rule triple_map_err, rule candidates_stranded)
  subgoal for x
    by (rule triple_fact [where X = "fst x = IkHandle (agent_key (identity_of s))"], force)
      (cases x; auto intro!: triple_never triple_pre [OF verify_stranded])
  done

text \<open>An answer of the Server that does not confirm the stored attempt.\<close>

definition denies :: "persisted_agent_state \<Rightarrow> unit secure_message \<Rightarrow> bool" where
  "denies s m \<longleftrightarrow> (case m of Some (BodyRegistration (Some (MsgPrepared rid aid))) \<Rightarrow> different s rid aid | _ \<Rightarrow> True)"

definition awaiting :: "setting \<Rightarrow> persisted_agent_state \<Rightarrow> world \<Rightarrow> bool" where
  "awaiting st s w \<longleftrightarrow> stranded st s w \<and> (\<exists>q. wd_stream w = Some q \<and> rs_phase q = AwaitRequest \<and> rs_inbox q = [])"

definition answered :: "setting \<Rightarrow> persisted_agent_state \<Rightarrow> world \<Rightarrow> bool" where
  "answered st s w \<longleftrightarrow> stranded st s w \<and> (\<exists>q. wd_stream w = Some q \<and> list_all (denies s) (rs_inbox q))"

lemma tick_awaiting: "awaiting st s w \<Longrightarrow> awaiting st s (snd (tick w))" "answered st s w \<Longrightarrow> answered st s (snd (tick w))"
  by (simp_all add: awaiting_def answered_def tick_stranded)

lemma open_stranded:
  "triple (stranded st s) (open_registration_call (world_calls st) i psk token_id)
    (\<lambda>(h, _) w. awaiting st s w \<and> h = XxHandle) (\<lambda>_. stranded st s)"
  unfolding world_calls_simps
  by (rule triple_call_any)
    (auto simp: tick_stranded world_open_registration_def awaiting_def registration_enter_def split: sum.splits)


lemma send_stranded:
  "triple (awaiting st s) (send_call (world_calls st) XxHandle (Some (BodyRegistration (Some (MsgRequest token)))))
    (\<lambda>_. answered st s) (\<lambda>_. stranded st s)"
  unfolding world_calls_simps
proof (rule triple_call_any)
  fix w assume "awaiting st s w"
  then obtain q where q: "wd_stream w = Some q" "rs_phase q = AwaitRequest" "rs_inbox q = []" and w: "stranded st s w"
    by (auto simp: awaiting_def)
  let ?now = "wd_now w" and ?id = "fst (sx_ids st (wd_drawn w))" and ?a = "snd (sx_ids st (wd_drawn w))"
  obtain phase and out :: "unit secure_message option" and db where r: "registration_receive ?now ?id ?a (rs_token_id q) (rs_peer_key q) AwaitRequest
      (Some (Inr (Some (Some (BodyRegistration (Some (MsgRequest token))))))) (wd_db w) = (phase, out, db)"
    by (metis prod.exhaust)
  obtain res db1 where p: "prepare_registration ?now ?id ?a (rs_token_id q) token (rs_peer_key q) (wd_db w) = (res, db1)" by fastforce
  have "lost st s (wd_db w)" using w by (simp add: stranded_def)
  then have "lost st s db1" "res = Inr p \<Longrightarrow> different s (pa_registration_id p) (pa_agent_id p)" for p
    using p prepare_lost by (auto simp: prepare_registration_def split: sum.splits prod.splits if_splits)
  then have "lost st s db \<and> (case out of None \<Rightarrow> True | Some m \<Rightarrow> denies s m)"
    using r p by (auto simp: receive_and_prepare_registration_def receive_registration_request_def denies_def rejection_def
        split: sum.splits)
  then show "case world_send st XxHandle (Some (BodyRegistration (Some (MsgRequest token)))) w of
      (Inr x, w') \<Rightarrow> answered st s w' \<and> stranded st s w' | (Inl e', w') \<Rightarrow> stranded st s w'"
    using q w r by (auto simp: world_send_def answered_def stranded_def split: option.splits)
qed (simp_all add: tick_awaiting, simp add: awaiting_def)

lemma receive_stranded:
  "triple (answered st s) (receive_within (world_calls st) h what) (\<lambda>m w. stranded st s w \<and> denies s m) (\<lambda>_. stranded st s)"
  unfolding triple_def
proof (intro allI impI)
  fix w assume "answered st s w"
  obtain f w' where t: "tick w = (f, w')" by fastforce
  then have "answered st s w'" using tick_awaiting(2) [OF \<open>answered st s w\<close>] by simp
  then show "case receive_within (world_calls st) h what w of (Inr m, w') \<Rightarrow> stranded st s w' \<and> denies s m | (Inl err, w') \<Rightarrow> stranded st s w'"
    using t by (cases f) (auto simp: receive_within_def world_calls_simps world_receive_def answered_def split: option.splits list.splits)
qed

lemma prepare_stranded:
  "triple (stranded st s) (prepare_registration_with_token_id (world_calls st) i psk token_id token)
    (\<lambda>p w. stranded st s w \<and> different s (ap_registration_id p) (ap_agent_id p)) (\<lambda>_. stranded st s)"
proof -
  have request: "triple (awaiting st s) (send_registration_request (world_calls st) XxHandle token)
      (\<lambda>(rid, aid) w. stranded st s w \<and> different s rid aid) (\<lambda>_. stranded st s)"
    unfolding send_registration_request_def
    apply (rule triple_and_do [OF send_stranded])
    apply (rule triple_and_do [OF receive_stranded])
    apply (auto simp: triple_def denies_def return_ok_def fail_with_def split: option.splits secure_body.splits registration_body.splits)
    done
  show ?thesis
    unfolding prepare_registration_with_token_id_def
    apply (rule triple_and_do [where R = "\<lambda>_. stranded st s"])
     apply (simp add: triple_def of_result_def split: sum.splits)
    apply (rule triple_and_do [OF open_stranded])
    subgoal for _ x
      apply (rule triple_fact [where X = "fst x = XxHandle"], force)
      apply (cases x)
      apply (auto intro!: triple_and_do [OF triple_pre [OF request]])
      apply (auto simp: triple_def return_ok_def fail_with_def)
      done
    done
qed

lemma register_stranded:
  "triple (stranded st s) (register config (world_calls st) s) (\<lambda>_ _. False) (\<lambda>_. stranded st s)"
proof (rule triple_fact)
  assume s: "stage_of s = StageRegistrationPending"
  then have verify: "different s rid aid \<Longrightarrow>
      verify_same_pending s (registration_pending aid i k rid) = Inl InconsistentPendingRegistration" for rid aid i k
    by (cases s) (auto simp: different_def verify_same_pending_def registration_pending_def)
  show ?thesis
    unfolding register_def
    apply (auto split: option.split intro!: triple_fail)
    apply (rule triple_and_do [where R = "\<lambda>_. stranded st s"])
     apply (simp add: triple_def of_result_def split: sum.splits)
    apply clarify
    apply (rule triple_and_do, rule triple_map_err, rule prepare_stranded)
    subgoal for _ _ _ p
      by (rule triple_fact [where X = "different s (ap_registration_id p) (ap_agent_id p)"], blast)
        (simp add: Let_def s verify and_do_error triple_fail)
    done
next
  fix w assume "stranded st s w"
  then show "stage_of s = StageRegistrationPending" by (auto simp: stranded_def elim!: lostE)
qed

lemma establish_stranded:
  "triple (stranded st s) (establish_initial config (world_calls st)) (\<lambda>_ _. False) (\<lambda>_. stranded st s)"
  unfolding establish_initial_def
proof (rule triple_and_do)
  show "triple (stranded st s) (load_or_create (world_calls st)) (\<lambda>r w. stranded st s w \<and> r = s) (\<lambda>_. stranded st s)"
    unfolding load_or_create_def
    apply (rule triple_and_do [where R = "\<lambda>r w. stranded st s w \<and> r = Some s"])
    unfolding world_calls_simps
     apply (rule triple_map_err, rule triple_call_any)
       apply (simp_all add: tick_stranded)
     apply (auto simp: stranded_def triple_def return_ok_def split: option.splits)
    done
  fix r
  show "triple (\<lambda>w. stranded st s w \<and> r = s)
      (case initial_connection_action_of (stage_of r) of
         ActionRegister \<Rightarrow> register config (world_calls st) r
       | ActionRecoverPending \<Rightarrow> recover_pending config (world_calls st) r
       | ActionConnectRegistered \<Rightarrow> connect_registered (world_calls st) r) (\<lambda>_ _. False) (\<lambda>_. stranded st s)"
    unfolding triple_def
  proof (intro allI impI)
    fix w assume w: "stranded st s w \<and> r = s"
    then have stage: "stage_of r = StageRegistrationPending" by (auto simp: stranded_def elim!: lostE)
    obtain x w' where c: "connect_registered (world_calls st) s w = (x, w')" by fastforce
    then have x: "isl x" "stranded st s w'" using tripleD [OF connect_stranded, of st s w] w by (auto split: sum.splits)
    then show "case (case initial_connection_action_of (stage_of r) of
         ActionRegister \<Rightarrow> register config (world_calls st) r
       | ActionRecoverPending \<Rightarrow> recover_pending config (world_calls st) r
       | ActionConnectRegistered \<Rightarrow> connect_registered (world_calls st) r) w of
         (Inr _, w') \<Rightarrow> False | (Inl err, w') \<Rightarrow> stranded st s w'"
      using stage c w tripleD [OF register_stranded, of st s w' config] by (cases x) (auto simp: recover_pending_def)
  qed
qed

text \<open>
  C36: An Agent whose attempt is gone stays out. Its state is \<open>RegistrationPending\<close>, the Server does
  not know its key, and no attempt of the Server, old or new, has the pair of identifiers it has
  stored, which is the situation once the attempt has expired and the Server has removed it. Then
  no start of the Agent ever connects, whatever fails or does not fail, and the stored state stays
  as it is: the Server answers with the identifiers of a new attempt, and
  \<open>verify_same_pending\<close> refuses them every time.
\<close>

theorem expired_registration_strands_agent:
  assumes "stranded st s w"
  shows "(\<exists>err. fst (establish_initial config (world_calls st) (attempts config st n w)) = Inl err) \<and>
    wd_disk (attempts config st n w) = Some s"
proof -
  have "stranded st s (attempts config st n w)"
    using assms
  proof (induction n arbitrary: w)
    case (Suc n)
    then have "stranded st s (snd (establish_initial config (world_calls st) w))"
      using tripleD [OF establish_stranded, of st s w config] by (auto split: prod.splits sum.splits)
    then show ?case using Suc.IH by simp
  qed simp
  with tripleD [OF establish_stranded this, of config] show ?thesis by (auto simp: stranded_def split: prod.splits sum.splits)
qed


definition late_state :: persisted_agent_state where
  "late_state = RegistrationPending ''agent-1'' \<lparr>ni_private_key = replicate 32 9, ni_public_key = NoisePublicKey (replicate 32 9)\<rparr>
     (pinned_new (server_key drill_setting)) (replicate 16 2)"

text \<open>The cleanup has run ten minutes after the Agent stored its attempt.\<close>

definition late_world :: world where
  "late_world = \<lparr>wd_disk = Some late_state, wd_db = snd (cleanup_expired_agent_registrations 600000011 sample_prepared),
     wd_now = 600000011, wd_turns = [], wd_drawn = 0, wd_stream = None\<rparr>"

lemma late_stranded: "stranded drill_setting late_state late_world"
proof -
  have "db_registrations (snd (cleanup_expired_agent_registrations 600000011 sample_prepared)) = []"
    "db_agents (snd (cleanup_expired_agent_registrations 600000011 sample_prepared)) = []"
    by (simp_all add: cleanup_expired_agent_registrations_def sample_prepared_def sample_registration_def sample_issued_def)
  moreover have "''agent-1'' \<noteq> replicate n (CHR ''a'')" for n
    by (auto simp: Cons_replicate_eq)
  ultimately show ?thesis
    by (auto simp: stranded_def late_world_def late_state_def lost_def drill_setting_def)
qed

theorem expired_registration_strands_agent_witness:
  "\<forall>n. (\<exists>err. fst (establish_initial drill_config (world_calls drill_setting) (attempts drill_config drill_setting n late_world)) = Inl err) \<and>
    wd_disk (attempts drill_config drill_setting n late_world) = Some late_state"
  using expired_registration_strands_agent [OF late_stranded] by blast

end
