(* ===== verification/Spec2Isabelle.thy ===== *)
theory Spec2Isabelle
  imports Remote_Jobs Keyring_Store Outbox Registration_Expiry
begin

text \<open>
  smalux is an Agent that runs Jobs on a machine and a Server that manages many Agents
  (\<open>src/crates\<close>). This library is a shallow embedding of the parts of both that keep state:
  each Rust struct is a record, each enum a datatype, each method a function on the state
  with its error as a value, in the order and with the guards of the code. Time, random
  identifiers, the cipher and its hash, JSON and what a Task does are parameters.

  \<^bold>\<open>The scheduler\<close> (\<open>smalux-agent/src/scheduler\<close>) is one Actor: it owns the Jobs, a queue
  of timers, the ready queue and the running executions, and does one thing per turn of its
  loop.

  \<^item> \<open>Prelude\<close>: machine types, checked and saturating arithmetic, association lists.
  \<^item> \<open>Sched_Model\<close>: \<open>model.rs\<close>, \<open>config.rs\<close>, \<open>event.rs\<close> and the result types of
    \<open>task.rs\<close>.
  \<^item> \<open>Ready_Queue\<close>: \<open>queue.rs\<close>. The binary heap is an ordered list behind a locale of heaps.
    The queue hands out the best runnable execution and its index stays complete; the
    theorems on blocked pops and on migration show where the code does not do what it says.
  \<^item> \<open>Sched_Timing\<close>: \<open>runtime/timing.rs\<close>. Validation, first run, misfire policies, the next
    occurrence and the conversion of deadlines; the phase of an interval is kept however late
    a timer fires.
  \<^item> \<open>Sched_State\<close>: the state of the Actor (\<open>runtime/engine.rs\<close>), its timers
    (\<open>engine/timers.rs\<close>), events and forced disabling.
  \<^item> \<open>Sched_Admission\<close>: \<open>engine/scheduling.rs\<close>. Expired timers, coalescing, capacity and
    backpressure; nothing that must not be lost is lost, and the limits hold.
  \<^item> \<open>Sched_Management\<close>: \<open>engine/management.rs\<close>. Adding, updating, enabling, disabling,
    deleting and reconciling Jobs and changing the configuration.
  \<^item> \<open>Sched_Execution\<close>: \<open>engine/execution.rs\<close>. Dispatch, outcomes, retries and failures.
  \<^item> \<open>Sched_Actor\<close>: the loop as a step relation over its inputs, reachable states, their
    invariant, the refinement of an abstract registry of versions, the limits over whole
    turns, and shutdown.

  \<^bold>\<open>Remote Jobs\<close> (\<open>smalux-agent/src/remote_jobs\<close>) are the Jobs the Server sends.

  \<^item> \<open>Remote_Compiler\<close>: \<open>remote_jobs/compiler.rs\<close> and \<open>tasks/capability.rs\<close>. The messages of a
    Job and their conversion; what is accepted has the types of the scheduler.
  \<^item> \<open>Remote_Policy\<close>: \<open>remote_jobs/policy.rs\<close>. What the Agent refuses to run, and its file.

  \<^bold>\<open>Keys\<close>. Agent and Server know each other by long-term keys that both sides rotate.

  \<^item> \<open>Key_Rotation\<close>: \<open>noise/identity.rs\<close> and \<open>noise/rotation.rs\<close> of smalux-protocol. Four
    machines with one discipline, the locale \<open>rotation_machine\<close>; a rotation does not lock an
    Agent out, and what a cancelled one does.
  \<^item> \<open>Keyring_Store\<close>: \<open>database/keyring.rs\<close> and \<open>service/agent/keyring_manager.rs\<close> of the
    Server. The one row, its validation, the conditional update, and several processes over
    it, which refine a single history.

  \<^bold>\<open>The Agent's side of a connection\<close>.

  \<^item> \<open>Actions\<close>: calls that may fail, their sequencing, and Hoare triples over them.
  \<^item> \<open>Client_Error\<close>: which errors are temporary (\<open>client/supervisor.rs\<close>).
  \<^item> \<open>Outbox\<close>: \<open>outbox.rs\<close>. Three bounded queues with one contract, the locale \<open>outbox\<close>.
  \<^item> \<open>Agent_State\<close>: \<open>client/state\<close>. The stages of a registration, the stored document and
    the file protocol of a save, with every directory it passes through.
  \<^item> \<open>Secure_Message\<close>: the messages inside a session (the \<open>.proto\<close> files) and their
    classification (\<open>session/policy.rs\<close>).
  \<^item> \<open>Agent_Connection\<close>: \<open>client/config.rs\<close>, \<open>client/connection.rs\<close> and the protocol client
    (\<open>tonic_transport/client.rs\<close>). Registration, recovery and connection by the stored stage.

  \<^bold>\<open>Registration on the Server\<close>.

  \<^item> \<open>Registration_Credential\<close>: tokens and their printed form (\<open>tonic_transport.rs\<close>), with a
    round trip.
  \<^item> \<open>Server_Registration\<close>: \<open>database/agent_registration.rs\<close>, \<open>database/management.rs\<close> and
    \<open>service/agent/agent_registry.rs\<close>. Three tables with their unique indexes; a token admits
    one Agent, a commit is all or nothing, a revocation is final.
  \<^item> \<open>Server_Session\<close>: \<open>transport/session\<close> and \<open>session_registry.rs\<close>. Workers of sessions
    interleave with the revocation of an Agent; a revoked Agent keeps no session.
  \<^item> \<open>Registration_System\<close>: the coordinator of the Agent against the handlers and the tables of
    the Server. Every call may fail before or after its effect while time passes and the Server
    cleans up; a registration that was interrupted recovers. The proofs are Hoare triples over
    the calls of the Agent.
  \<^item> \<open>Registration_Expiry\<close>: the same system once the attempt has expired.
\<close>

section \<open>Conventions\<close>

text \<open>
  Instants and durations are counted in nanoseconds, versions and sequence numbers are 64-bit
  words, attempt counters 32-bit words, sizes natural numbers. A hash map is an association
  list with distinct keys. Calls with an effect outside return what they would have done: the
  Actor keeps its events, its cancelled tokens and its started wrappers in its state, a save
  its trace of directories.

  Every loop of the code terminates in the model by a measure, and without fuel, but for the
  search of a free identifier: it is a \<open>partial_function\<close>, and that it returns is proved
  from the identifiers being distinct. The Actor's loop runs for ever and is a step relation.

  A heap that the code rebuilds is compared with the ordered list of the same keys. Panics of
  the code are not caught: where one is possible the theorem says so in a hypothesis.
\<close>

section \<open>Not modelled\<close>

text \<open>
  Network and operating system: the handshakes and the cipher (the snow crate), gRPC streams,
  child processes of plugins, the collectors and probes, file permissions, process start-up,
  command lines and local IPC. They are calls into foreign code with little state of their
  own. The web interface and the queries on Jobs and reports of the Server are SQL through
  sea-orm; of the database the key ring and the tables of registrations are modelled, where
  the order of statements and the unique indexes matter.
\<close>

end
